(* ===== verification/Prelude.thy ===== *)
theory Prelude
  imports "HOL-Library.Word"
begin

text \<open>
  Shared vocabulary of the Telex development: machine words and byte strings, congruence
  modulo an integer, word operations that do not wrap, and the little- and big-endian
  layout of integers in memory. Every component theory imports this one.

  \<^item> \<open>eqm m a b\<close> is congruence of integers; its rules are collected in \<open>eqm_intros\<close>.
  \<^item> \<open>uint_add_nowrap\<close> and its companions turn a C operation on unsigned words into the
    operation on integers, given that the result fits.
  \<^item> \<open>le_bytes\<close>/\<open>le_val\<close> and \<open>be_bytes\<close>/\<open>be_val\<close> are the two byte orders; they model
    \<open>memcpy\<close> of an integer on the little-endian hosts the code is written for and
    \<open>htons\<close>/\<open>htonl\<close>.
\<close>

unbundle bit_operations_syntax

named_theorems eqm_intros \<open>congruence rules for eqm\<close>
named_theorems nowrap \<open>word operations that do not wrap around\<close>

section \<open>Machine types\<close>

type_synonym byte = "8 word"
type_synonym u16 = "16 word"
type_synonym u32 = "32 word"
type_synonym u64 = "64 word"
type_synonym u128 = "128 word"
type_synonym bytes = "byte list"

section \<open>Congruence of integers\<close>

definition eqm :: "int \<Rightarrow> int \<Rightarrow> int \<Rightarrow> bool" where
  "eqm m a b \<longleftrightarrow> a mod m = b mod m"

lemma eqm_refl [simp, eqm_intros]: "eqm m a a"
  by (simp add: eqm_def)

lemma eqm_sym: "eqm m a b \<Longrightarrow> eqm m b a"
  by (simp add: eqm_def)

lemma eqm_trans [trans]: "eqm m a b \<Longrightarrow> eqm m b c \<Longrightarrow> eqm m a c"
  by (simp add: eqm_def)

lemma eqm_add [eqm_intros]: "eqm m a b \<Longrightarrow> eqm m c d \<Longrightarrow> eqm m (a + c) (b + d)"
  unfolding eqm_def by (rule mod_add_cong)

lemma eqm_diff [eqm_intros]: "eqm m a b \<Longrightarrow> eqm m c d \<Longrightarrow> eqm m (a - c) (b - d)"
  unfolding eqm_def by (rule mod_diff_cong)

lemma eqm_mult [eqm_intros]: "eqm m a b \<Longrightarrow> eqm m c d \<Longrightarrow> eqm m (a * c) (b * d)"
  unfolding eqm_def by (rule mod_mult_cong)

lemma eqm_minus [eqm_intros]: "eqm m a b \<Longrightarrow> eqm m (- a) (- b)"
  using eqm_diff [of m 0 0 a b] by simp

lemma eqm_power [eqm_intros]: "eqm m a b \<Longrightarrow> eqm m (a ^ k) (b ^ k)"
  by (induction k) (auto intro: eqm_mult)

lemma eqm_dvd: "eqm m a b \<longleftrightarrow> m dvd a - b"
  by (simp add: eqm_def mod_eq_dvd_iff)

lemma eqm_add_multiple: "eqm m (a + m * k) a"
  by (simp add: eqm_def)

lemma eqm_0_iff: "eqm m a 0 \<longleftrightarrow> m dvd a"
  by (simp add: eqm_dvd)

lemma eqm_diff_0: "eqm m (a - b) 0 \<longleftrightarrow> eqm m a b"
  by (simp add: eqm_dvd)

lemma eqm_cong_left: "eqm m a b \<Longrightarrow> eqm m a c \<longleftrightarrow> eqm m b c"
  by (simp add: eqm_def)

lemma eqm_cong_right: "eqm m a b \<Longrightarrow> eqm m c a \<longleftrightarrow> eqm m c b"
  by (simp add: eqm_def)

section \<open>Word operations that do not wrap\<close>

lemma uint_add_nowrap [nowrap]:
  fixes a b :: "'a::len word"
  assumes "uint a + uint b < 2 ^ LENGTH('a)"
  shows "uint (a + b) = uint a + uint b"
  using assms uint_add_lem by blast

lemma uint_sub_nowrap [nowrap]:
  fixes a b :: "'a::len word"
  assumes "uint b \<le> uint a"
  shows "uint (a - b) = uint a - uint b"
  using assms uint_sub_lem by blast

lemma uint_add_sub_nowrap [nowrap]:
  fixes a k b :: "'a::len word"
  assumes "uint a + uint k < 2 ^ LENGTH('a)" "uint b \<le> uint k"
  shows "uint (a + k - b) = uint a + uint k - uint b"
proof -
  have "uint b \<le> uint (a + k)"
    using assms uint_ge_0 [of a] unfolding uint_add_nowrap [OF assms(1)] by linarith
  with assms(1) show ?thesis
    by (simp add: uint_add_nowrap uint_sub_nowrap)
qed

lemma uint_sub_add_nowrap [nowrap]:
  fixes a k b :: "'a::len word"
  assumes "uint b \<le> uint a" "uint a + uint k < 2 ^ LENGTH('a)"
  shows "uint (a - b + k) = uint a - uint b + uint k"
proof -
  have "uint (a - b) + uint k < 2 ^ LENGTH('a)"
    using assms(2) uint_ge_0 [of b] unfolding uint_sub_nowrap [OF assms(1)] by linarith
  then show ?thesis
    by (simp add: uint_add_nowrap uint_sub_nowrap assms(1))
qed

lemma uint_mult_nowrap [nowrap]:
  fixes a b :: "'a::len word"
  assumes "uint a * uint b < 2 ^ LENGTH('a)"
  shows "uint (a * b) = uint a * uint b"
  using assms uint_mult_lem by blast

lemma uint_drop_bit: "uint (drop_bit n (a :: 'a::len word)) = uint a div 2 ^ n"
  by (subst unsigned_drop_bit_eq) (simp add: drop_bit_eq_div take_bit_int_eq_self)

lemma uint_push_bit_nowrap:
  fixes a :: "'a::len word"
  assumes "uint a * 2 ^ n < 2 ^ LENGTH('a)"
  shows "uint (push_bit n a) = uint a * 2 ^ n"
  using assms
  by (subst unsigned_push_bit_eq) (simp add: push_bit_eq_mult take_bit_eq_mod)

lemma uint_take_bit: "uint (take_bit n (a :: 'a::len word)) = uint a mod 2 ^ n"
  by (subst unsigned_take_bit_eq) (simp add: take_bit_eq_mod)

lemma uint_ucast_widen:
  assumes "LENGTH('a) \<le> LENGTH('b)"
  shows "uint (ucast (a :: 'a::len word) :: 'b::len word) = uint a"
proof -
  have "uint a < 2 ^ LENGTH('a)" by simp
  also have "(2 :: int) ^ LENGTH('a) \<le> 2 ^ LENGTH('b)"
    using assms by (rule power_increasing) simp
  finally show ?thesis
    by (simp add: unsigned_ucast_eq take_bit_int_eq_self)
qed

lemma uint_ucast_narrow:
  assumes "uint (a :: 'a::len word) < 2 ^ LENGTH('b)"
  shows "uint (ucast a :: 'b::len word) = uint a"
  using assms by (simp add: unsigned_ucast_eq take_bit_int_eq_self)

section \<open>Integers in memory\<close>

text \<open>
  \<open>le_bytes n w\<close> lists the \<open>n\<close> low-order bytes of a word in memory order on a
  little-endian machine; \<open>be_bytes n w\<close> in network order. \<open>le_val\<close> and \<open>be_val\<close> read
  them back.
\<close>

fun le_bytes :: "nat \<Rightarrow> 'a::len word \<Rightarrow> bytes" where
  "le_bytes 0 w = []"
| "le_bytes (Suc n) w = ucast w # le_bytes n (drop_bit 8 w)"

fun le_val :: "bytes \<Rightarrow> int" where
  "le_val [] = 0"
| "le_val (b # bs) = uint b + 256 * le_val bs"

definition be_bytes :: "nat \<Rightarrow> 'a::len word \<Rightarrow> bytes" where
  "be_bytes n w = rev (le_bytes n w)"

definition be_val :: "bytes \<Rightarrow> int" where
  "be_val bs = le_val (rev bs)"

lemma le_bytes_numeral:
  "le_bytes (numeral k) w = ucast w # le_bytes (pred_numeral k) (drop_bit 8 w)"
  by (simp add: numeral_eq_Suc)

lemma length_le_bytes [simp]: "length (le_bytes n w) = n"
  by (induction n arbitrary: w) auto

lemma length_be_bytes [simp]: "length (be_bytes n w) = n"
  by (simp add: be_bytes_def)

lemma le_val_nonneg [simp]: "0 \<le> le_val bs"
  by (induction bs) auto

lemma le_val_bound: "le_val bs < 256 ^ length bs"
proof (induction bs)
  case Nil
  then show ?case by simp
next
  case (Cons b bs)
  have "uint b < 256"
    using uint_bounded [of b] by simp
  with Cons show ?case by simp
qed

lemma le_val_append: "le_val (xs @ ys) = le_val xs + 256 ^ length xs * le_val ys"
  by (induction xs) (auto simp: algebra_simps)

lemma le_val_zeros: "le_val (replicate n 0) = 0"
  by (induction n) auto

lemma le_val_le_bytes:
  "le_val (le_bytes n (w :: 'a::len word)) = uint w mod 256 ^ n"
proof (induction n arbitrary: w)
  case 0
  then show ?case by simp
next
  case (Suc n)
  have low: "uint (ucast w :: byte) = uint w mod 256"
    by (simp add: unsigned_ucast_eq take_bit_eq_mod)
  have "uint w mod (256 * 256 ^ n) = 256 * (uint w div 256 mod 256 ^ n) + uint w mod 256"
    by (rule zmod_zmult2_eq) simp
  then show ?case
    using Suc [of "drop_bit 8 w"] by (simp add: low uint_drop_bit)
qed

lemma le_val_inj: "length xs = length ys \<Longrightarrow> le_val xs = le_val ys \<Longrightarrow> xs = ys"
proof (induction xs ys rule: list_induct2)
  case Nil
  then show ?case by simp
next
  case (Cons x xs y ys)
  have x: "uint x < 256" and y: "uint y < 256"
    using uint_bounded [of x] uint_bounded [of y] by simp_all
  from Cons.prems have eq: "uint x + 256 * le_val xs = uint y + 256 * le_val ys"
    by simp
  have "uint x = (uint x + 256 * le_val xs) mod 256"
    using x by simp
  also have "\<dots> = uint y"
    using y by (simp add: eq)
  finally have "uint x = uint y" .
  then have "x = y"
    by (rule word_uint_eqI)
  with eq Cons.IH show ?case by simp
qed

text \<open>The integer a little- or big-endian field holds, as a word of the field's width.\<close>

definition le_word :: "bytes \<Rightarrow> 'a::len word" where
  "le_word bs = word_of_int (le_val bs)"

definition be_word :: "bytes \<Rightarrow> 'a::len word" where
  "be_word bs = word_of_int (be_val bs)"

lemma pow_256: "(256 :: int) ^ n = 2 ^ (8 * n)"
  by (simp add: power_mult)

lemma le_word_le_bytes:
  assumes "LENGTH('a) \<le> 8 * n"
  shows "le_word (le_bytes n w) = (w :: 'a::len word)"
proof -
  have "uint w < 2 ^ LENGTH('a)" by simp
  also have "(2 :: int) ^ LENGTH('a) \<le> 2 ^ (8 * n)"
    using assms by (rule power_increasing) simp
  finally have "uint w mod 256 ^ n = uint w"
    by (simp add: pow_256)
  then show ?thesis
    by (simp add: le_word_def le_val_le_bytes)
qed

lemma be_word_be_bytes:
  assumes "LENGTH('a) \<le> 8 * n"
  shows "be_word (be_bytes n w) = (w :: 'a::len word)"
  using le_word_le_bytes [OF assms, of w]
  by (simp add: be_word_def be_val_def be_bytes_def le_word_def)

lemma uint_le_word:
  assumes "8 * length bs \<le> LENGTH('a)"
  shows "uint (le_word bs :: 'a::len word) = le_val bs"
proof -
  have "le_val bs < 2 ^ (8 * length bs)"
    using le_val_bound [of bs] by (simp add: pow_256)
  also have "(2 :: int) ^ (8 * length bs) \<le> 2 ^ LENGTH('a)"
    using assms by (rule power_increasing) simp
  finally show ?thesis
    by (simp add: le_word_def uint_word_of_int)
qed

lemma le_bytes_le_word:
  assumes "8 * length bs \<le> LENGTH('a)"
  shows "le_bytes (length bs) (le_word bs :: 'a::len word) = bs"
proof (rule le_val_inj)
  show "le_val (le_bytes (length bs) (le_word bs :: 'a word)) = le_val bs"
    using le_val_bound [of bs] by (simp add: le_val_le_bytes uint_le_word [OF assms])
qed simp

section \<open>Reachable states\<close>

text \<open>The event-driven programs are step relations. \<open>invariant_system\<close> is the contract of an invariant:
  it holds at the start and every step keeps it.\<close>

inductive reachable :: "('s \<Rightarrow> bool) \<Rightarrow> ('s \<Rightarrow> 's \<Rightarrow> bool) \<Rightarrow> 's \<Rightarrow> bool" for init step where
  reachable_init: "init s \<Longrightarrow> reachable init step s"
| reachable_step: "reachable init step s \<Longrightarrow> step s t \<Longrightarrow> reachable init step t"

locale invariant_system =
  fixes init :: "'s \<Rightarrow> bool" and step :: "'s \<Rightarrow> 's \<Rightarrow> bool" and inv :: "'s \<Rightarrow> bool"
  assumes inv_init: "init s \<Longrightarrow> inv s"
    and inv_step: "inv s \<Longrightarrow> step s t \<Longrightarrow> inv t"
begin

lemma reachable_inv: "reachable init step s \<Longrightarrow> inv s"
  by (induction rule: reachable.induct) (auto intro: inv_init inv_step)

end

section \<open>Decimal numbers\<close>

text \<open>\<open>%d\<close> of \<open>printf\<close> for a non-negative argument.\<close>

fun show_nat :: "nat \<Rightarrow> string" where
  "show_nat n = (if n < 10 then [char_of (48 + n)] else show_nat (n div 10) @ [char_of (48 + n mod 10)])"

declare show_nat.simps [simp del]

fun read_nat :: "nat \<Rightarrow> string \<Rightarrow> nat" where
  "read_nat acc [] = acc"
| "read_nat acc (c # cs) = read_nat (10 * acc + (of_char c - 48)) cs"

lemma read_nat_append: "read_nat acc (xs @ ys) = read_nat (read_nat acc xs) ys"
  by (induction xs arbitrary: acc) auto

lemma read_show_nat: "read_nat 0 (show_nat n) = n"
proof (induction n rule: show_nat.induct)
  case (1 n)
  then show ?case
    by (subst show_nat.simps) (simp add: read_nat_append)
qed

lemma length_show_nat: "n < 10 ^ k \<Longrightarrow> 0 < k \<Longrightarrow> length (show_nat n) \<le> k"
proof (induction n arbitrary: k rule: show_nat.induct)
  case (1 n)
  show ?case
  proof (cases "n < 10")
    case True
    with 1 show ?thesis by (subst show_nat.simps) simp
  next
    case False
    then obtain j where k: "k = Suc j" "0 < j"
      using 1(2,3) by (cases k; cases "k - 1") auto
    with 1(2) have "n div 10 < 10 ^ j" by simp
    with 1(1) False k show ?thesis by (subst show_nat.simps) simp
  qed
qed

text \<open>\<open>strtol\<close> with base 10 as a 64-bit integer, converted to \<open>int\<close>.\<close>

definition is_space :: "char \<Rightarrow> bool" where
  "is_space c \<longleftrightarrow> c = CHR '' '' \<or> of_char c \<in> {9 :: nat..13}"

definition is_digit :: "char \<Rightarrow> bool" where
  "is_digit c \<longleftrightarrow> of_char c \<in> {48 :: nat..57}"

definition strtol :: "string \<Rightarrow> int" where
  "strtol str =
     (let t = dropWhile is_space str;
          neg = (case t of c # _ \<Rightarrow> c = CHR ''-'' | [] \<Rightarrow> False);
          t = (case t of c # r \<Rightarrow> if c = CHR ''-'' \<or> c = CHR ''+'' then r else t | [] \<Rightarrow> t);
          v = int (read_nat 0 (takeWhile is_digit t));
          v = (if neg then max (- v) (- (2 ^ 63)) else min v (2 ^ 63 - 1))
      in sint (word_of_int v :: u32))"

text \<open>One integer conversion of \<open>scanf\<close>: the end of the input, a character that does not match, or the number and
  the rest of the input.\<close>

datatype scan = Input_End | No_Match string | Number int string

definition scan_int :: "string \<Rightarrow> scan" where
  "scan_int str =
     (let t = dropWhile is_space str;
          neg = (case t of c # _ \<Rightarrow> c = CHR ''-'' | [] \<Rightarrow> False);
          u = (case t of c # r \<Rightarrow> if c = CHR ''-'' \<or> c = CHR ''+'' then r else t | [] \<Rightarrow> t);
          ds = takeWhile is_digit u;
          v = int (read_nat 0 ds)
      in if t = [] then Input_End
         else if ds = [] then No_Match u
         else Number (if neg then max (- v) (- (2 ^ 63)) else min v (2 ^ 63 - 1)) (dropWhile is_digit u))"

text \<open>Several conversions: the numbers read, the rest, and whether the input ended.\<close>

fun scan_ints :: "nat \<Rightarrow> string \<Rightarrow> int list \<times> string \<times> bool" where
  "scan_ints 0 str = ([], str, False)"
| "scan_ints (Suc n) str =
     (case scan_int str of
        Input_End \<Rightarrow> ([], [], True)
      | No_Match rest \<Rightarrow> ([], rest, False)
      | Number v rest \<Rightarrow> (case scan_ints n rest of (vs, rest', e) \<Rightarrow> (v # vs, rest', e)))"

text \<open>\<open>%d\<close> and \<open>%ld\<close> of \<open>printf\<close>.\<close>

definition show_int :: "int \<Rightarrow> string" where
  "show_int i = (if i < 0 then ''-'' @ show_nat (nat (- i)) else show_nat (nat i))"

lemma show_nat_digits: "list_all is_digit (show_nat n)"
proof (induction n rule: show_nat.induct)
  case (1 n)
  have "is_digit (char_of (48 + k))" if "k < 10" for k :: nat using that by (simp add: is_digit_def)
  with 1 show ?case by (subst show_nat.simps) simp
qed

lemma show_nat_nonempty: "show_nat n \<noteq> []"
  by (subst show_nat.simps) simp

lemma is_digitD: "is_digit c \<Longrightarrow> \<not> is_space c \<and> c \<noteq> CHR ''-'' \<and> c \<noteq> CHR ''+'' \<and> c \<noteq> CHR '':''"
  by (auto simp: is_digit_def is_space_def)

lemma strtol_show_nat:
  assumes "n < 2 ^ 31"
  shows "strtol (show_nat n) = int n"
proof -
  obtain c r where s: "show_nat n = c # r" using show_nat_nonempty by (cases "show_nat n") auto
  then have c: "\<not> is_space c" "c \<noteq> CHR ''-''" "c \<noteq> CHR ''+''"
    using show_nat_digits [of n] is_digitD [of c] by auto
  have "takeWhile is_digit (show_nat n) = show_nat n"
    using show_nat_digits [of n] by (simp add: takeWhile_eq_all_conv list_all_iff)
  moreover have "dropWhile is_space (show_nat n) = show_nat n" using c(1) by (simp add: s)
  ultimately have "strtol (show_nat n) = sint (word_of_int (min (int n) (2 ^ 63 - 1)) :: u32)"
    using c(2,3) read_show_nat [of n] by (simp add: strtol_def Let_def s)
  also have "\<dots> = sint (word_of_int (int n) :: u32)" using assms by simp
  also have "\<dots> = int n" using assms by (simp add: signed_of_nat signed_take_bit_int_eq_self)
  finally show ?thesis .
qed

lemma show_nat_hd: "\<exists>c r. show_nat n = c # r \<and> is_digit c"
  using show_nat_digits [of n] show_nat_nonempty [of n] by (cases "show_nat n") auto

lemma digits_split:
  assumes "rest = [] \<or> \<not> is_digit (hd rest)"
  shows "takeWhile is_digit (show_nat n @ rest) = show_nat n" "dropWhile is_digit (show_nat n @ rest) = rest"
proof -
  have d: "\<forall>c\<in>set (show_nat n). is_digit c" using show_nat_digits [of n] by (simp add: list_all_iff)
  show "takeWhile is_digit (show_nat n @ rest) = show_nat n" using d assms by (cases rest) (simp_all add: takeWhile_append)
  show "dropWhile is_digit (show_nat n @ rest) = rest" using d assms by (cases rest) (simp_all add: dropWhile_append)
qed

lemma scan_int_show_int:
  assumes "- (2 ^ 63) \<le> i" "i < 2 ^ 63" "rest = [] \<or> \<not> is_digit (hd rest)"
  shows "scan_int (show_int i @ rest) = Number i rest"
proof -
  note d = digits_split [OF assms(3)]
  obtain c r where s: "show_nat (nat \<bar>i\<bar>) = c # r" "is_digit c" using show_nat_hd by blast
  then have c: "\<not> is_space c" "c \<noteq> CHR ''-''" "c \<noteq> CHR ''+''" "\<not> is_space CHR ''-''"
    using is_digitD by (auto simp: is_space_def)
  show ?thesis
  proof (cases "i < 0")
    case True
    then have "show_nat (nat (- i)) = c # r" using s(1) by simp
    then show ?thesis
      using True assms(1) c s(2) d [of "nat (- i)"] read_show_nat [of "nat (- i)"]
      by (simp add: scan_int_def show_int_def Let_def)
  next
    case False
    then have "show_nat (nat i) = c # r" using s(1) by simp
    then show ?thesis
      using False assms(2) c s(2) d [of "nat i"] read_show_nat [of "nat i"]
      by (simp add: scan_int_def show_int_def Let_def)
  qed
qed

lemma scan_int_space: "is_space c \<Longrightarrow> scan_int (c # s) = scan_int s"
  by (simp add: scan_int_def)

section \<open>Results that can be errors\<close>

text \<open>Sequencing of computations whose result is an error or a value.\<close>

definition and_then :: "'e + 'a \<Rightarrow> ('a \<Rightarrow> 'e + 'b) \<Rightarrow> 'e + 'b" where
  "and_then r f = (case r of Inl x \<Rightarrow> Inl x | Inr w \<Rightarrow> f w)"

lemma and_then_simps [simp]: "and_then (Inr w) f = f w" "and_then (Inl x) f = Inl x"
  by (simp_all add: and_then_def)

end
