(* ===== verification/Tcp_Forge.thy ===== *)
theory Tcp_Forge
  imports Prelude
begin

text \<open>
  Forged packets: \<open>src/telex-station/common/telex_tcp.c\<close>. Headers are byte lists laid out as the
  packed structures of \<open>telex_tcp.h\<close>; addresses and ports of a flow are kept in network order, as
  in the source, so that copying them is copying their bytes in memory order. \<open>sendto\<close> gives what
  the system call returns for a packet, \<open>alloc\<close> whether \<open>malloc\<close> succeeds, \<open>now k\<close> the time that the
  \<open>k\<close>-th call of \<open>gettimeofday\<close> returns. A division by zero is the result \<open>None\<close>.
\<close>

section \<open>Definitions\<close>

record timeval =
  tv_sec :: u64
  tv_usec :: u64

record telex_tcp_ts =
  tv :: timeval
  tsval :: u32
  tsecr :: u32

record telex_tcp_info =
  seq :: u32
  ack :: u32
  rcv_window :: u16
  rcv_window_scale :: u16
  snd_window :: u16
  snd_window_scale :: u16
  last_ts :: telex_tcp_ts
  cur_ts :: telex_tcp_ts
  option_ts :: byte
  option_sack :: byte
  flags :: byte

record flow =
  orig_h :: u32
  resp_h :: u32
  orig_p :: u16
  resp_p :: u16
  last_ttl :: byte
  last_ip_id :: u16
  tcp :: telex_tcp_info

definition ntohs_at :: "bytes \<Rightarrow> nat \<Rightarrow> u16" where
  "ntohs_at buf i = be_word (take 2 (drop i buf))"

fun csum_loop :: "bytes \<Rightarrow> nat \<Rightarrow> u32 \<Rightarrow> u32" where
  "csum_loop buf 0 s = s"
| "csum_loop buf (Suc nwords) s = csum_loop (drop 2 buf) nwords (s + ucast (ntohs_at buf 0))"

definition csum :: "bytes \<Rightarrow> nat \<Rightarrow> u32 \<Rightarrow> u16" where
  "csum buf nwords init_sum =
     (let sum = csum_loop buf nwords init_sum;
          sum = drop_bit 16 sum + (sum AND 0xffff);
          sum = sum + drop_bit 16 sum
      in ucast (NOT sum))"

definition put :: "bytes \<Rightarrow> nat \<Rightarrow> bytes \<Rightarrow> bytes" where
  "put buf i bs = take i buf @ bs @ drop (i + length bs) buf"

definition ihl :: "bytes \<Rightarrow> nat" where
  "ihl ip = unat (ip ! 0 AND 0x0f)"

text \<open>\<open>tcp_csum\<close> clears the checksum field of the packet and returns the checksum. \<open>saddr & 0xffff\<close>
  are the two bytes at offset 12 on a little-endian machine. The last byte of an odd segment is a
  \<open>char\<close>: it is sign-extended before it is shifted. The only caller passes packets whose total length
  covers both headers, so that \<open>tcp_size\<close> is not negative.\<close>

definition tcp_csum :: "bytes \<Rightarrow> u16 \<times> bytes" where
  "tcp_csum ip =
     (let tcp_size = unat (ntohs_at ip 2) - 20;
          tcph = 4 * ihl ip;
          sum = ucast (ntohs_at ip 12) + ucast (ntohs_at ip 14);
          sum = sum + (ucast (ntohs_at ip 16) + ucast (ntohs_at ip 18));
          sum = sum + 0x06;
          sum = sum + word_of_nat tcp_size;
          ip = put ip (tcph + 16) [0, 0];
          sum = (if odd tcp_size
                 then sum + push_bit 8 (scast (ip ! (tcph + tcp_size - 1)) :: u32) else sum)
      in (csum (drop tcph ip) (tcp_size div 2) sum, ip))"

definition telex_get_tv_diff :: "timeval \<Rightarrow> timeval \<Rightarrow> u64" where
  "telex_get_tv_diff a b =
     (let sec_diff = ucast (tv_sec b - tv_sec a) :: u32;
          usec_diff = ucast (tv_usec b - tv_usec a) :: u32
      in scast sec_diff * 1000000 + scast usec_diff)"

definition telex_get_next_tsval :: "timeval \<Rightarrow> telex_tcp_ts \<Rightarrow> telex_tcp_ts \<Rightarrow> u32 option" where
  "telex_get_next_tsval now lst cur =
     (let tv_diff = telex_get_tv_diff (tv lst) (tv cur);
          ts_diff = ucast (tsval cur - tsval lst) :: u64
      in if ts_diff = 0 then Some (tsval cur)
         else let us_per_tsval = ucast (tv_diff div ts_diff) :: u32;
                  tv_diff = telex_get_tv_diff (tv cur) now
              in if us_per_tsval = 0 then None
                 else Some (tsval cur + ucast (tv_diff div ucast us_per_tsval)))"

definition telex_fill_ts :: "timeval \<Rightarrow> telex_tcp_info \<Rightarrow> bytes option" where
  "telex_fill_ts now info =
     (case telex_get_next_tsval now (last_ts info) (cur_ts info) of
        None \<Rightarrow> None
      | Some next_tsval \<Rightarrow>
          Some ([0x01, 0x01, 0x08, 0x0a] @ be_bytes 4 next_tsval @ be_bytes 4 (tsecr (cur_ts info))))"

text \<open>The packet that one call of \<open>telex_tcp_forge_xmit\<close> builds around at most 1448 bytes of
  payload.\<close>

definition forge_ip :: "flow \<Rightarrow> nat \<Rightarrow> bytes" where
  "forge_ip fl tot_len =
     [0x45, 0] @ be_bytes 2 (word_of_nat tot_len :: u16) @ be_bytes 2 (last_ip_id fl + 1) @
     [0x40, 0x00, last_ttl fl, 6, 0, 0] @ le_bytes 4 (resp_h fl) @ le_bytes 4 (orig_h fl)"

definition forge_flags :: "flow \<Rightarrow> nat \<Rightarrow> byte" where
  "forge_flags fl len =
     (let th_flags = 0x10;
          th_flags = (if len \<noteq> 0 then th_flags OR 0x08 else th_flags)
      in if flags (tcp fl) \<noteq> 0 then flags (tcp fl) else th_flags)"

definition forge_tcp :: "flow \<Rightarrow> nat \<Rightarrow> nat \<Rightarrow> bytes" where
  "forge_tcp fl tcp_len len =
     le_bytes 2 (resp_p fl) @ le_bytes 2 (orig_p fl) @ be_bytes 4 (seq (tcp fl)) @
     be_bytes 4 (ack (tcp fl)) @ [push_bit 4 (word_of_nat (tcp_len div 4)), forge_flags fl len] @
     be_bytes 2 (snd_window (tcp fl)) @ [0, 0, 0, 0]"

definition forge_packet :: "timeval \<Rightarrow> flow \<Rightarrow> bytes \<Rightarrow> bytes option" where
  "forge_packet now fl payload =
     (let has_ts = option_ts (tcp fl) \<noteq> 0;
          len = length payload;
          tcp_len = 20 + (if has_ts then 12 else 0);
          tot_len = len + tcp_len + 20
      in case (if has_ts then telex_fill_ts now (tcp fl) else Some []) of
           None \<Rightarrow> None
         | Some opts \<Rightarrow>
             (let pkt = forge_ip fl tot_len @ forge_tcp fl tcp_len len @ opts @ payload;
                  (th_sum, pkt) = tcp_csum pkt;
                  pkt = put pkt 36 (be_bytes 2 th_sum);
                  pkt = put pkt 10 (be_bytes 2 (csum pkt 10 0))
              in Some pkt))"

text \<open>\<open>telex_tcp_forge_xmit\<close> returns its result code, the packets handed to \<open>sendto\<close> and the flow it
  leaves behind.\<close>

function telex_tcp_forge_xmit ::
  "(bytes \<Rightarrow> int) \<Rightarrow> (nat \<Rightarrow> bool) \<Rightarrow> (nat \<Rightarrow> timeval) \<Rightarrow> flow \<Rightarrow> bytes \<Rightarrow> (int \<times> bytes list \<times> flow) option" where
  "telex_tcp_forge_xmit sendto alloc now fl payload =
     (let forge_again = length payload > 1448;
          rest = drop 1448 payload;
          payload = take 1448 payload;
          len = length payload;
          tot_len = len + 20 + (if option_ts (tcp fl) \<noteq> 0 then 12 else 0) + 20
      in if \<not> alloc tot_len then Some (1, [], fl)
         else case forge_packet (now 0) fl payload of
           None \<Rightarrow> None
         | Some pkt \<Rightarrow>
             if \<not> forge_again then Some (if sendto pkt \<noteq> int tot_len then 1 else 0, [pkt], fl)
             else (let fl' = fl \<lparr>tcp := (tcp fl) \<lparr>seq := seq (tcp fl) + word_of_nat len\<rparr>,
                                 last_ip_id := last_ip_id fl + 1\<rparr>
                   in case telex_tcp_forge_xmit sendto alloc (\<lambda>k. now (Suc k)) fl' rest of
                        None \<Rightarrow> None
                      | Some (res, pkts, fl'') \<Rightarrow>
                          Some (res, pkt # pkts,
                            fl'' \<lparr>tcp := (tcp fl'') \<lparr>seq := seq (tcp fl'') - word_of_nat len\<rparr>\<rparr>)))"
  by pat_completeness auto
termination
  by (relation "measure (\<lambda>(s, a, n, fl, p). length p)") auto

declare telex_tcp_forge_xmit.simps [simp del]

definition telex_fwd_pkt :: "(bytes \<Rightarrow> int) \<Rightarrow> bytes \<Rightarrow> int \<times> bytes" where
  "telex_fwd_pkt sendto pkt =
     (let pkt = put pkt 8 [pkt ! 8 + 1];
          pkt = put pkt 10 (be_bytes 2 (csum pkt (ihl pkt * 2) 0));
          res = sendto pkt
      in (if res \<noteq> int (length pkt) then 1 else 0, pkt))"

text \<open>A flow to evaluate examples on.\<close>

definition sample_flow :: flow where
  "sample_flow = \<lparr>orig_h = 0x0100007f, resp_h = 0x0200a8c0, orig_p = 0x5000, resp_p = 0xbb01, last_ttl = 64,
     last_ip_id = 7, tcp = \<lparr>seq = 1000, ack = 2000, rcv_window = 0, rcv_window_scale = 0, snd_window = 512,
       snd_window_scale = 0, last_ts = \<lparr>tv = \<lparr>tv_sec = 0, tv_usec = 0\<rparr>, tsval = 0, tsecr = 0\<rparr>,
       cur_ts = \<lparr>tv = \<lparr>tv_sec = 0, tv_usec = 0\<rparr>, tsval = 0, tsecr = 0\<rparr>, option_ts = 0, option_sack = 0, flags = 0\<rparr>\<rparr>"

section \<open>The internet checksum\<close>

text \<open>The specification (RFC 1071): the sum of the big-endian 16-bit words, an odd last byte being padded
  with a zero byte. A block that carries its checksum is accepted when the sum is a multiple of
  \<open>2^16 - 1\<close>.\<close>

fun wsum :: "bytes \<Rightarrow> int" where
  "wsum [] = 0"
| "wsum [a] = 256 * uint a"
| "wsum (a # b # r) = 256 * uint a + uint b + wsum r"

definition inet_ok :: "bytes \<Rightarrow> bool" where
  "inet_ok bs \<longleftrightarrow> wsum bs mod 65535 = 0"

lemma wsum_append: "even (length xs) \<Longrightarrow> wsum (xs @ ys) = wsum xs + wsum ys"
  by (induction xs rule: wsum.induct) auto

lemma wsum_nonneg [simp]: "0 \<le> wsum xs"
  by (induction xs rule: wsum.induct) auto

lemma wsum_bound: "wsum xs \<le> 65535 * (int (length xs) + 1) div 2"
proof (induction xs rule: wsum.induct)
  case (2 a)
  then show ?case using uint_bounded [of a] by simp
next
  case (3 a b r)
  then show ?case using uint_bounded [of a] uint_bounded [of b] by simp
qed simp

lemma uint_ntohs_at:
  "uint (ntohs_at (a # b # r) 0) = 256 * uint a + uint b"
proof -
  have "uint (ntohs_at (a # b # r) 0) = (uint b + 256 * uint a) mod 65536"
    unfolding ntohs_at_def be_word_def be_val_def uint_word_of_int by simp
  then show ?thesis using uint_bounded [of a] uint_bounded [of b] by simp
qed

lemma uint_csum_loop:
  "2 * n \<le> length buf \<Longrightarrow> uint (csum_loop buf n s) = (uint s + wsum (take (2 * n) buf)) mod 2 ^ 32"
proof (induction n arbitrary: buf s)
  case 0
  then show ?case using uint_bounded [of s] by simp
next
  case (Suc n)
  then obtain a b r where buf: "buf = a # b # r"
    by (cases buf rule: wsum.cases) auto
  have "uint (s + ucast (ntohs_at buf 0) :: u32) = (uint s + (256 * uint a + uint b)) mod 2 ^ 32"
    by (simp add: buf uint_ntohs_at uint_word_ariths uint_ucast_widen)
  with Suc show ?case
    by (simp add: buf mod_add_left_eq add.assoc)
qed

text \<open>The end-around carries of \<open>csum\<close>.\<close>

lemma fold_arith:
  fixes S :: int
  assumes "0 \<le> S" "S < 2 ^ 32"
  defines "s1 \<equiv> S div 65536 + S mod 65536"
  defines "s2 \<equiv> (s1 + s1 div 65536) mod 65536"
  shows "s2 mod 65535 = S mod 65535" "0 \<le> s2" "s2 \<le> 65535" "0 < S \<Longrightarrow> 0 < s2"
proof -
  define q r where "q = S div 65536" and "r = S mod 65536"
  have S: "S = 65536 * q + r" "0 \<le> r" "r < 65536" "0 \<le> q" "q < 65536"
    using assms(1,2) by (simp_all add: q_def r_def)
  have s1: "s1 = q + r" by (simp add: s1_def q_def r_def)
  have s2: "s2 = (if q + r < 65536 then q + r else q + r - 65535)"
    using S(2-5) unfolding s2_def s1 by (auto simp: div_pos_geq mod_pos_geq)
  show "0 \<le> s2" "s2 \<le> 65535" using S(2-5) by (auto simp: s2)
  show "0 < s2" if "0 < S" using S(2-5) that S(1) by (auto simp: s2)
  have e: "S = (q + r) + 65535 * q" using S(1) by simp
  have "S mod 65535 = (q + r) mod 65535" unfolding e by (simp only: mod_mult_self2)
  moreover have "(q + r - 65535) mod 65535 = (q + r) mod 65535"
    using mod_mult_self2 [of "q + r - 65535" 65535 1] by simp
  ultimately show "s2 mod 65535 = S mod 65535" by (simp add: s2)
qed

lemma uint_csum:
  assumes "2 * n \<le> length buf" "uint s + wsum (take (2 * n) buf) < 2 ^ 32"
  defines "S \<equiv> uint s + wsum (take (2 * n) buf)"
  shows "(S + uint (csum buf n s)) mod 65535 = 0"
    and "csum buf n s = 0 \<longleftrightarrow> 0 < S \<and> S mod 65535 = 0"
proof -
  have S: "0 \<le> S" "S < 2 ^ 32" using assms(2) by (simp_all add: S_def)
  note f = fold_arith [OF S]
  define s0 where "s0 = csum_loop buf n s"
  define s1 where "s1 = drop_bit 16 s0 + (s0 AND 0xffff)"
  define s2 where "s2 = s1 + drop_bit 16 s1"
  have u0: "uint s0 = S" using uint_csum_loop [OF assms(1)] S by (simp add: s0_def S_def)
  have m: "s0 AND 0xffff = take_bit 16 s0" by (simp add: take_bit_eq_mask mask_eq_exp_minus_1)
  have u1: "uint s1 = S div 65536 + S mod 65536"
    using S unfolding s1_def m by (subst uint_add_nowrap) (simp_all add: uint_drop_bit uint_take_bit u0)
  have u2: "uint s2 = uint s1 + uint s1 div 65536"
    using S unfolding s2_def by (subst uint_add_nowrap) (simp_all add: uint_drop_bit u1)
  have "NOT s2 = - 1 - s2" by (simp add: not_eq_complement)
  then have c: "csum buf n s = ucast (- 1 - s2)"
    unfolding csum_def Let_def s0_def [symmetric] s1_def [symmetric] s2_def [symmetric] by simp
  have m1: "uint (- 1 :: u32) = 2 ^ 32 - 1" by (simp add: unsigned_minus_1_eq_mask mask_eq_exp_minus_1)
  have "uint (- 1 - s2 :: u32) = 2 ^ 32 - 1 - uint s2"
    using uint_bounded [of s2] by (subst uint_sub_nowrap) (simp_all add: m1)
  then have "uint (csum buf n s) = (2 ^ 32 - 1 - uint s2) mod 65536"
    unfolding c by (simp add: unsigned_ucast_eq take_bit_eq_mod)
  moreover have "2 ^ 32 - 1 - x = 65535 - x mod 65536 + 65536 * (65535 - x div 65536)" for x :: int
    by (simp add: algebra_simps)
  then have "(2 ^ 32 - 1 - uint s2) mod 65536 = (65535 - uint s2 mod 65536) mod 65536"
    by (simp only: mod_mult_self2)
  ultimately have n: "uint (csum buf n s) = 65535 - uint s2 mod 65536"
    by simp
  have "(S + uint (csum buf n s)) mod 65535 = ((S - uint s2 mod 65536) + 65535 * 1) mod 65535"
    unfolding n by (simp add: algebra_simps)
  also have "\<dots> = (S - uint s2 mod 65536) mod 65535" by (rule mod_mult_self2)
  also have "\<dots> = 0"
    using f(1) [symmetric] unfolding u2 u1 mod_eq_dvd_iff by (rule dvd_imp_mod_0)
  finally show "(S + uint (csum buf n s)) mod 65535 = 0" .
  have "csum buf n s = 0 \<longleftrightarrow> uint s2 mod 65536 = 65535"
    using n by (simp add: word_uint_eq_iff)
  also have "\<dots> \<longleftrightarrow> 0 < S \<and> S mod 65535 = 0"
  proof -
    define w where "w = uint s2 mod 65536"
    have w: "w mod 65535 = S mod 65535" "0 \<le> w" "w \<le> 65535" "0 < S \<Longrightarrow> 0 < w"
      using f unfolding w_def u2 u1 by blast+
    have "S = 0 \<Longrightarrow> w = 0" by (simp add: w_def u2 u1)
    moreover have "w = 65535" if "0 < w" "w mod 65535 = 0"
    proof (rule ccontr)
      assume "w \<noteq> 65535"
      with w(3) that(1) have "w mod 65535 = w" by simp
      with that show False by simp
    qed
    ultimately show ?thesis using w S(1) unfolding w_def [symmetric] by force
  qed
  finally show "csum buf n s = 0 \<longleftrightarrow> 0 < S \<and> S mod 65535 = 0" .
qed

section \<open>Checksums of forged packets\<close>

lemma put_append: "length A = i \<Longrightarrow> length bs = length cs \<Longrightarrow> put (A @ bs @ B) i cs = A @ cs @ B"
  by (simp add: put_def)

lemma wsum_be_bytes: "wsum (be_bytes 2 (c :: u16)) = uint c"
proof -
  have "be_val (be_bytes 2 c) = uint c"
    using uint_bounded [of c] by (simp add: be_val_def be_bytes_def le_val_le_bytes)
  moreover obtain a b where ab: "be_bytes 2 c = [a, b]"
    using length_be_bytes [of 2 c] by (cases "be_bytes 2 c" rule: wsum.cases) auto
  ultimately show ?thesis by (simp add: be_val_def)
qed

lemma ntohs_at_be:
  assumes "length A = i"
  shows "ntohs_at (A @ be_bytes 2 (c :: u16) @ B) i = c"
  using assms be_word_be_bytes [of 2 c] by (simp add: ntohs_at_def)

lemma uint_ntohs_append:
  assumes "length A = i" "length B = 2"
  shows "uint (ntohs_at (A @ B @ C) i) = wsum B"
proof -
  obtain a b where "B = [a, b]" using assms(2) by (cases B rule: wsum.cases) auto
  then show ?thesis using uint_ntohs_at [of a b C] assms(1) by (simp add: ntohs_at_def)
qed

lemma forge_ip_split:
  "forge_ip fl tot_len = ([0x45, 0] @ be_bytes 2 (word_of_nat tot_len :: u16) @ be_bytes 2 (last_ip_id fl + 1) @
     [0x40, 0x00, last_ttl fl, 6]) @ [0, 0] @ le_bytes 4 (resp_h fl) @ le_bytes 4 (orig_h fl)"
  by (simp add: forge_ip_def)

lemma length_forge_ip [simp]: "length (forge_ip fl n) = 20"
  by (simp add: forge_ip_def)

lemma length_forge_tcp [simp]: "length (forge_tcp fl n l) = 20"
  by (simp add: forge_tcp_def)

text \<open>Filling in the checksum of a header whose field is zero makes it verify.\<close>

lemma csum_fill:
  assumes "length A = 10" "length B = 8"
  shows "inet_ok (A @ be_bytes 2 (csum (A @ [0, 0] @ B @ R) 10 0) @ B)"
proof -
  let ?h = "A @ [0, 0] @ B"
  have t: "take (2 * 10) (A @ [0, 0] @ B @ R) = ?h" using assms by simp
  have w: "wsum ?h = wsum A + wsum B" using assms by (simp add: wsum_append)
  have "wsum ?h < 2 ^ 32" using wsum_bound [of ?h] assms by simp
  then have "(wsum ?h + uint (csum (A @ [0, 0] @ B @ R) 10 0)) mod 65535 = 0"
    using uint_csum(1) [of 10 "A @ [0, 0] @ B @ R" 0] assms by (simp only: t) simp
  then show ?thesis
    using assms by (simp add: inet_ok_def wsum_append wsum_be_bytes w) (simp add: algebra_simps)
qed

lemma wsum_last:
  assumes "odd (length xs)"
  shows "wsum xs = wsum (take (2 * (length xs div 2)) xs) + 256 * uint (xs ! (length xs - 1))"
proof -
  have "xs \<noteq> []" using assms by auto
  then have "xs = butlast xs @ [last xs]" by simp
  moreover have "even (length (butlast xs))" using assms by simp
  moreover have "butlast xs = take (2 * (length xs div 2)) xs"
    using assms by (simp add: butlast_conv_take)
  ultimately have "wsum xs = wsum (take (2 * (length xs div 2)) xs) + wsum [last xs]"
    by (metis wsum_append)
  then show ?thesis using \<open>xs \<noteq> []\<close> by (simp add: last_conv_nth)
qed

definition pseudo :: "flow \<Rightarrow> nat \<Rightarrow> bytes" where
  "pseudo fl len = le_bytes 4 (resp_h fl) @ le_bytes 4 (orig_h fl) @ [0, 6] @ be_bytes 2 (word_of_nat len :: u16)"

lemma scast_small:
  assumes "uint (b :: byte) < 128"
  shows "(scast b :: u32) = ucast b"
proof -
  have "- (2 ^ 7) \<le> uint b" by (rule order_trans [of _ 0]) simp_all
  then have "signed_take_bit 7 (uint b) = uint b"
    using assms by (intro signed_take_bit_int_eq_self) simp_all
  then have "sint b = uint b" by (simp add: sint_uint)
  then show ?thesis by (metis of_int_sint of_int_uint)
qed

lemma wsum_pseudo:
  assumes "len < 65536"
  shows "wsum (pseudo fl len) = wsum (le_bytes 4 (resp_h fl)) + wsum (le_bytes 4 (orig_h fl)) + 6 + int len"
  using assms by (simp add: pseudo_def wsum_append wsum_be_bytes unsigned_of_nat take_bit_nat_eq_self)

lemma le_bytes_4: "le_bytes 4 (w :: u32) = take 2 (le_bytes 4 w) @ drop 2 (le_bytes 4 w)"
  by simp

lemma ntohs_halves:
  assumes "length A = i" "length W = 4"
  shows "uint (ntohs_at (A @ W @ C) i) + uint (ntohs_at (A @ W @ C) (i + 2)) = wsum W"
proof -
  obtain a b c d where W: "W = [a, b] @ [c, d]"
  proof -
    obtain a b r where "W = a # b # r" using assms(2) by (cases W rule: wsum.cases) auto
    with assms(2) show ?thesis using that by (cases r rule: wsum.cases) auto
  qed
  show ?thesis
    using uint_ntohs_append [of A i "[a, b]" "[c, d] @ C"] assms(1)
      uint_ntohs_append [of "A @ [a, b]" "i + 2" "[c, d]" C] by (simp add: W)
qed

lemma uint_add4:
  fixes a b c d :: u16
  assumes "n < 65536"
  shows "uint (ucast a + ucast b + (ucast c + ucast d) + 6 + word_of_nat n :: u32) =
    uint a + uint b + (uint c + uint d) + 6 + int n"
  using uint_bounded [of a] uint_bounded [of b] uint_bounded [of c] uint_bounded [of d] assms
  by (subst uint_add_nowrap; (simp add: uint_ucast_widen unsigned_of_nat take_bit_nat_eq_self)?)+

text \<open>What \<open>tcp_csum\<close> sums up for a forged packet: the pseudo header, then the segment.\<close>

lemma tcp_csum_forge:
  fixes fl :: flow
  assumes tot: "tot_len = 20 + length seg" "tot_len < 32768" "20 \<le> length seg"
    and seg: "seg = C @ [0, 0] @ D" "length C = 16"
  defines "ip \<equiv> forge_ip fl tot_len @ seg"
  defines "odd_byte \<equiv> (if odd (length seg) then push_bit 8 (scast (seg ! (length seg - 1))) else 0 :: u32)"
  shows "\<exists>s. tcp_csum ip = (csum seg (length seg div 2) (s + odd_byte), ip) \<and>
    uint s = wsum (pseudo fl (length seg))"
proof -
  define src dst where "src = le_bytes 4 (resp_h fl)" and "dst = le_bytes 4 (orig_h fl)"
  have ihl: "4 * ihl ip = 20" by (simp add: ip_def ihl_def forge_ip_def)
  have "ntohs_at ip 2 = (word_of_nat tot_len :: u16)"
    unfolding ip_def forge_ip_def append_assoc by (rule ntohs_at_be) simp
  then have "unat (ntohs_at ip 2) = tot_len"
    using tot(2) by (simp add: unsigned_of_nat take_bit_nat_eq_self)
  then have size: "unat (ntohs_at ip 2) - 20 = length seg"
    using tot(1) by simp
  have "put ((forge_ip fl tot_len @ C) @ [0, 0] @ D) 36 [0, 0] = (forge_ip fl tot_len @ C) @ [0, 0] @ D"
    by (rule put_append) (simp_all add: seg(2))
  then have put: "put ip 36 [0, 0] = ip" by (simp add: ip_def seg(1))
  define A where "A = [0x45, 0] @ be_bytes 2 (word_of_nat tot_len :: u16) @
      be_bytes 2 (last_ip_id fl + 1) @ [0x40, 0x00, last_ttl fl, 6, 0, 0]"
  have ip: "ip = A @ src @ dst @ seg" "length A = 12"
    by (simp_all add: ip_def forge_ip_def src_def dst_def A_def)
  have s: "uint (ntohs_at ip 12) + uint (ntohs_at ip 14) = wsum src"
    using ntohs_halves [of A 12 src "dst @ seg"] ip by (simp add: src_def)
  have d: "uint (ntohs_at ip 16) + uint (ntohs_at ip 18) = wsum dst"
    using ntohs_halves [of "A @ src" 16 dst seg] ip by (simp add: src_def dst_def)
  have l: "ip ! (20 + length seg - 1) = seg ! (length seg - 1)"
    using tot(3) unfolding ip_def by (subst nth_append) auto
  define S :: u32 where "S = ucast (ntohs_at ip 12) + ucast (ntohs_at ip 14) +
      (ucast (ntohs_at ip 16) + ucast (ntohs_at ip 18)) + 6 + word_of_nat (length seg)"
  have "tcp_csum ip = (csum seg (length seg div 2) (S + odd_byte), ip)"
    unfolding tcp_csum_def Let_def size ihl S_def odd_byte_def
    using put l by (simp add: ip_def)
  moreover have "uint S = wsum (pseudo fl (length seg))"
    unfolding S_def using tot s d by (subst uint_add4) (simp_all add: wsum_pseudo src_def dst_def)
  ultimately show ?thesis by blast
qed

text \<open>The checksum the source stores verifies, unless the segment is odd and ends in a byte with the
  top bit set.\<close>

lemma tcp_csum_ok:
  fixes fl :: flow
  assumes tot: "tot_len = 20 + length seg" "tot_len < 32768" "20 \<le> length seg"
    and seg: "seg = C @ [0, 0] @ D" "length C = 16"
    and last: "odd (length seg) \<Longrightarrow> uint (seg ! (length seg - 1)) < 128"
  shows "\<exists>c. tcp_csum (forge_ip fl tot_len @ seg) = (c, forge_ip fl tot_len @ seg) \<and>
    inet_ok (pseudo fl (length seg) @ C @ be_bytes 2 c @ D)"
proof -
  define n where "n = length seg"
  define w :: u32 where "w = (if odd n then push_bit 8 (scast (seg ! (n - 1))) else 0)"
  obtain s where tc: "tcp_csum (forge_ip fl tot_len @ seg) = (csum seg (n div 2) (s + w), forge_ip fl tot_len @ seg)"
    and s: "uint s = wsum (pseudo fl n)"
    using tcp_csum_forge [OF tot seg] unfolding n_def w_def by blast
  have n: "n < 32768" using tot by (simp add: n_def)
  have p: "wsum (pseudo fl n) < 2 ^ 19" using wsum_bound [of "pseudo fl n"] by (simp add: pseudo_def)
  have w: "uint w = (if odd n then 256 * uint (seg ! (n - 1)) else 0)"
  proof (cases "odd n")
    case True
    with last have "uint (seg ! (n - 1)) < 128" by (simp add: n_def)
    with True show ?thesis
      unfolding w_def by (simp add: scast_small, subst uint_push_bit_nowrap) (simp_all add: uint_ucast_widen)
  qed (simp add: w_def)
  have b: "uint w < 2 ^ 16" using w uint_bounded [of "seg ! (n - 1)"] by simp
  have sw: "uint (s + w) = wsum (pseudo fl n) + uint w"
    using p b s by (subst uint_add_nowrap) simp_all
  have tk: "uint w + wsum (take (2 * (n div 2)) seg) = wsum seg"
    using wsum_last [of seg] w by (cases "odd n") (simp_all add: n_def)
  have bound: "wsum seg \<le> 2 ^ 31"
    using wsum_bound [of seg] n by (simp add: n_def)
  have "(uint (s + w) + wsum (take (2 * (n div 2)) seg) + uint (csum seg (n div 2) (s + w))) mod 65535 = 0"
    by (rule uint_csum(1)) (use sw tk bound p in \<open>simp_all add: n_def\<close>)
  then have "(wsum (pseudo fl n) + wsum seg + uint (csum seg (n div 2) (s + w))) mod 65535 = 0"
    unfolding sw tk [symmetric] by (simp add: algebra_simps)
  moreover have "wsum seg = wsum C + wsum D" by (simp add: seg wsum_append)
  moreover have "even (length (pseudo fl n))" by (simp add: pseudo_def)
  ultimately have "wsum (pseudo fl n @ C @ be_bytes 2 (csum seg (n div 2) (s + w)) @ D) mod 65535 = 0"
    by (simp add: wsum_append wsum_be_bytes seg(2)) (simp add: algebra_simps)
  then show ?thesis
    unfolding inet_ok_def using tc by (auto simp: n_def)
qed

lemma forge_tcp_split:
  obtains C where "forge_tcp fl n l = C @ [0, 0] @ [0, 0]" "length C = 16"
  by (rule that [of "take 16 (forge_tcp fl n l)"]) (simp_all add: forge_tcp_def)

lemma length_fill_ts: "telex_fill_ts now info = Some opts \<Longrightarrow> length opts = 12"
  by (auto simp: telex_fill_ts_def split: option.splits)

lemma forge_packet_ok:
  assumes pkt: "forge_packet now fl payload = Some pkt" and len: "length payload \<le> 1448"
    and last: "odd (length payload) \<Longrightarrow> uint (payload ! (length payload - 1)) < 128"
  shows "inet_ok (take 20 pkt) \<and> inet_ok (pseudo fl (length pkt - 20) @ drop 20 pkt) \<and>
    length pkt = 20 + (20 + (if option_ts (tcp fl) \<noteq> 0 then 12 else 0)) + length payload \<and>
    drop (length pkt - length payload) pkt = payload"
proof -
  define has where "has \<longleftrightarrow> option_ts (tcp fl) \<noteq> 0"
  obtain opts where opts: "(if has then telex_fill_ts now (tcp fl) else Some []) = Some opts"
    using pkt by (auto simp: forge_packet_def has_def Let_def split: option.splits)
  have lo: "length opts = (if has then 12 else 0)"
    using opts length_fill_ts by (auto split: if_splits)
  define tl where "tl = length payload + (20 + (if has then 12 else 0)) + 20"
  obtain C where C: "forge_tcp fl (20 + (if has then 12 else 0)) (length payload) = C @ [0, 0] @ [0, 0]" "length C = 16"
    by (rule forge_tcp_split)
  define D where "D = [0, 0] @ opts @ payload"
  define seg where "seg = C @ [0, 0] @ D"
  have tl: "tl = 20 + length seg" "tl < 32768" "20 \<le> length seg"
    using len lo C(2) by (simp_all add: tl_def seg_def D_def)
  have od: "odd (length seg) \<longleftrightarrow> odd (length payload)" using lo C(2) by (simp add: seg_def D_def)
  have "uint (seg ! (length seg - 1)) < 128" if "odd (length seg)"
  proof -
    have o: "odd (length payload)" using that od by simp
    then have ne: "payload \<noteq> []" by auto
    then have "last seg = last payload" "seg \<noteq> []" by (simp_all add: seg_def D_def)
    moreover from this(2) have "seg ! (length seg - 1) = last seg" by (rule last_conv_nth [symmetric])
    moreover have "last payload = payload ! (length payload - 1)" using ne by (simp add: last_conv_nth)
    ultimately show ?thesis using last [OF o] by simp
  qed
  from tcp_csum_ok [OF tl seg_def C(2) this, of fl]
  obtain c where c: "tcp_csum (forge_ip fl tl @ seg) = (c, forge_ip fl tl @ seg)"
    and ok: "inet_ok (pseudo fl (length seg) @ C @ be_bytes 2 c @ D)" by blast
  obtain A B where ip: "forge_ip fl tl = A @ [0, 0] @ B" "length A = 10" "length B = 8"
    by (rule that [OF forge_ip_split]) simp_all
  define seg' where "seg' = C @ be_bytes 2 c @ D"
  define k where "k = csum (A @ [0, 0] @ B @ seg') 10 0"
  have p1: "put (forge_ip fl tl @ seg) 36 (be_bytes 2 c) = forge_ip fl tl @ seg'"
    using put_append [of "forge_ip fl tl @ C" 36 "[0, 0]" "be_bytes 2 c" D] C(2)
    by (simp add: seg_def seg'_def)
  have p2: "put (forge_ip fl tl @ seg') 10 (be_bytes 2 k) = A @ be_bytes 2 k @ B @ seg'"
    using put_append [of A 10 "[0, 0]" "be_bytes 2 k" "B @ seg'"] ip(2) by (simp add: ip(1))
  have "pkt = A @ be_bytes 2 k @ B @ seg'"
    using pkt opts c p1 p2 unfolding forge_packet_def has_def [symmetric] Let_def k_def
    by (simp add: tl_def [symmetric] seg_def D_def C(1) ip(1) split: prod.splits)
  moreover have "inet_ok (A @ be_bytes 2 k @ B)"
    unfolding k_def by (rule csum_fill [OF ip(2,3)])
  moreover have "length seg' = length seg" by (simp add: seg_def seg'_def)
  ultimately show ?thesis
    using ok ip(2,3) lo C(2) by (simp add: seg_def seg'_def D_def has_def)
qed

section \<open>Segmentation\<close>

lemma length_put [simp]: "i + length bs \<le> length buf \<Longrightarrow> length (put buf i bs) = length buf"
  by (simp add: put_def)

lemma drop_put: "i + length bs \<le> length buf \<Longrightarrow> i + length bs \<le> j \<Longrightarrow> drop j (put buf i bs) = drop j buf"
  by (simp add: put_def)

lemma field_put_before:
  "i + length bs \<le> length buf \<Longrightarrow> j + n \<le> i \<Longrightarrow> take n (drop j (put buf i bs)) = take n (drop j buf)"
  by (rule nth_equalityI) (auto simp: put_def nth_append)

definition forge_hdr_len :: "flow \<Rightarrow> nat" where
  "forge_hdr_len fl = 40 + (if option_ts (tcp fl) \<noteq> 0 then 12 else 0)"

text \<open>The fields of a forged packet that say where it belongs: sequence number, identification, length
  and payload.\<close>

lemma forge_packet_fields:
  assumes pkt: "forge_packet now fl payload = Some pkt"
  shows "length pkt = forge_hdr_len fl + length payload" and "drop (forge_hdr_len fl) pkt = payload"
    and "take 4 (drop 24 pkt) = be_bytes 4 (seq (tcp fl))"
    and "take 2 (drop 4 pkt) = be_bytes 2 (last_ip_id fl + 1)"
proof -
  define has where "has \<longleftrightarrow> option_ts (tcp fl) \<noteq> 0"
  obtain opts where opts: "(if has then telex_fill_ts now (tcp fl) else Some []) = Some opts"
    using pkt by (auto simp: forge_packet_def has_def Let_def split: option.splits)
  have lo: "length opts = (if has then 12 else 0)"
    using opts length_fill_ts by (auto split: if_splits)
  define tl where "tl = length payload + (20 + (if has then 12 else 0)) + 20"
  define X where "X = forge_ip fl tl @ forge_tcp fl (20 + (if has then 12 else 0)) (length payload) @ opts @ payload"
  have X: "length X = forge_hdr_len fl + length payload" "drop (forge_hdr_len fl) X = payload"
    using lo by (simp_all add: X_def forge_hdr_len_def has_def)
  have F: "take 4 (drop 24 X) = be_bytes 4 (seq (tcp fl))" "take 2 (drop 4 X) = be_bytes 2 (last_ip_id fl + 1)"
    by (simp_all add: X_def forge_tcp_def forge_ip_def)
  have "4 * ihl X = 20" by (simp add: X_def ihl_def forge_ip_def)
  then have "snd (tcp_csum X) = put X 36 [0, 0]" by (simp add: tcp_csum_def Let_def)
  moreover have "\<exists>c :: u16. pkt = (let Y = put (snd (tcp_csum X)) 36 (be_bytes 2 c) in put Y 10 (be_bytes 2 (csum Y 10 0)))"
    using pkt opts unfolding forge_packet_def has_def [symmetric] Let_def tl_def [symmetric]
    by (auto simp: X_def split: prod.splits)
  ultimately obtain c k where "pkt = put (put (put X 36 [0, 0]) 36 (be_bytes 2 (c :: u16))) 10 (be_bytes 2 (k :: u16))"
    by (auto simp: Let_def)
  moreover have "40 \<le> forge_hdr_len fl" by (simp add: forge_hdr_len_def)
  ultimately show "length pkt = forge_hdr_len fl + length payload" "drop (forge_hdr_len fl) pkt = payload"
    "take 4 (drop 24 pkt) = be_bytes 4 (seq (tcp fl))" "take 2 (drop 4 pkt) = be_bytes 2 (last_ip_id fl + 1)"
    using X F by (simp_all add: drop_put field_put_before)
qed

lemma forge_xmit_some:
  assumes "telex_tcp_forge_xmit sendto (\<lambda>n. True) now fl payload = Some (res, pkts, fl')"
  shows "concat (map (drop (forge_hdr_len fl)) pkts) = payload \<and> pkts \<noteq> [] \<and>
    (\<forall>p\<in>set pkts. length p \<le> 1500) \<and>
    (\<forall>i<length pkts. take 4 (drop 24 (pkts ! i)) = be_bytes 4 (seq (tcp fl) + word_of_nat (1448 * i)) \<and>
       take 2 (drop 4 (pkts ! i)) = be_bytes 2 (last_ip_id fl + 1 + word_of_nat i)) \<and>
    fl' = fl \<lparr>last_ip_id := last_ip_id fl + word_of_nat (length pkts - 1)\<rparr>"
  using assms
proof (induction sendto "\<lambda>n :: nat. True" now fl payload arbitrary: res pkts fl' rule: telex_tcp_forge_xmit.induct)
  case (1 sendto now fl payload)
  have h: "forge_hdr_len fl \<le> 52" by (simp add: forge_hdr_len_def)
  from 1(2) obtain pkt where pkt: "forge_packet (now 0) fl (take 1448 payload) = Some pkt"
    by (subst (asm) telex_tcp_forge_xmit.simps) (auto simp: Let_def split: option.splits if_splits)
  note f = forge_packet_fields [OF pkt]
  show ?case
  proof (cases "1448 < length payload")
    case False
    with 1(2) pkt have "pkts = [pkt]" "fl' = fl"
      by (subst (asm) telex_tcp_forge_xmit.simps, simp add: Let_def)+
    with False f h show ?thesis by simp
  next
    case True
    define fl1 where "fl1 = fl \<lparr>tcp := (tcp fl) \<lparr>seq := seq (tcp fl) + word_of_nat 1448\<rparr>, last_ip_id := last_ip_id fl + 1\<rparr>"
    obtain r ps fl2 where rec: "telex_tcp_forge_xmit sendto (\<lambda>n. True) (\<lambda>k. now (Suc k)) fl1 (drop 1448 payload) = Some (r, ps, fl2)"
      and out: "pkts = pkt # ps" "fl' = fl2 \<lparr>tcp := (tcp fl2) \<lparr>seq := seq (tcp fl2) - word_of_nat 1448\<rparr>\<rparr>"
      using 1(2) pkt True
      by (subst (asm) telex_tcp_forge_xmit.simps) (auto simp: Let_def fl1_def min_def split: option.splits)
    have ih: "concat (map (drop (forge_hdr_len fl1)) ps) = drop 1448 payload \<and> ps \<noteq> [] \<and>
        (\<forall>p\<in>set ps. length p \<le> 1500) \<and>
        (\<forall>i<length ps. take 4 (drop 24 (ps ! i)) = be_bytes 4 (seq (tcp fl1) + word_of_nat (1448 * i)) \<and>
           take 2 (drop 4 (ps ! i)) = be_bytes 2 (last_ip_id fl1 + 1 + word_of_nat i)) \<and>
        fl2 = fl1 \<lparr>last_ip_id := last_ip_id fl1 + word_of_nat (length ps - 1)\<rparr>"
      using 1(1) [OF refl refl refl refl refl _ pkt _ refl, of r ps fl2] rec True
      by (simp add: fl1_def min_def)
    have h1: "forge_hdr_len fl1 = forge_hdr_len fl" by (simp add: forge_hdr_len_def fl1_def)
    have "take 4 (drop 24 (pkts ! i)) = be_bytes 4 (seq (tcp fl) + word_of_nat (1448 * i)) \<and>
        take 2 (drop 4 (pkts ! i)) = be_bytes 2 (last_ip_id fl + 1 + word_of_nat i)"
      if "i < length pkts" for i
      using that ih f(3,4) by (cases i) (simp_all add: out(1) fl1_def add.assoc)
    moreover have "concat (map (drop (forge_hdr_len fl)) pkts) = payload"
      using ih f(2) by (simp add: out(1) h1)
    moreover have "\<forall>p\<in>set pkts. length p \<le> 1500"
      using ih f(1) h by (auto simp: out(1))
    moreover have "fl' = fl \<lparr>last_ip_id := last_ip_id fl + word_of_nat (length pkts - 1)\<rparr>"
    proof -
      have "length ps = Suc (length ps - 1)" using ih by (cases ps) auto
      then have "word_of_nat (length ps) = (1 :: u16) + word_of_nat (length ps - 1)"
        by (metis of_nat_Suc)
      then show ?thesis using ih by (simp add: out fl1_def add.assoc)
    qed
    ultimately show ?thesis by (simp add: out(1))
  qed
qed

text \<open>Without the timestamp option the transmission never fails to return.\<close>

lemma forge_packet_total:
  "option_ts (tcp fl) = 0 \<Longrightarrow> \<exists>pkt. forge_packet now fl payload = Some pkt"
  by (simp add: forge_packet_def Let_def split_beta)

lemma forge_xmit_total:
  assumes "option_ts (tcp fl) = 0"
  shows "\<exists>r. telex_tcp_forge_xmit sendto alloc now fl payload = Some r"
  using assms
proof (induction sendto alloc now fl payload rule: telex_tcp_forge_xmit.induct)
  case (1 sendto alloc now fl payload)
  then have "\<exists>pkt. forge_packet (now 0) fl p = Some pkt" for p
    by (intro forge_packet_total)
  then obtain pkt where pkt: "forge_packet (now 0) fl (take 1448 payload) = Some pkt" by blast
  show ?case
  proof (cases "1448 < length payload")
    case False
    then show ?thesis
      using pkt by (subst telex_tcp_forge_xmit.simps) (simp add: Let_def)
  next
    case True
    define fl1 where "fl1 = fl \<lparr>tcp := (tcp fl) \<lparr>seq := seq (tcp fl) + word_of_nat 1448\<rparr>, last_ip_id := last_ip_id fl + 1\<rparr>"
    have "\<exists>r. telex_tcp_forge_xmit sendto alloc (\<lambda>k. now (Suc k)) fl1 (drop 1448 payload) = Some r"
      if "alloc (min (length payload) 1448 + 20 + (if option_ts (tcp fl) \<noteq> 0 then 12 else 0) + 20)"
      using "1.IH" [OF refl refl refl refl refl _ pkt _ refl] that "1.prems" True
      by (simp add: fl1_def)
    then show ?thesis
      using pkt True
      by (subst telex_tcp_forge_xmit.simps) (auto simp: Let_def fl1_def min_def split: option.splits)
  qed
qed

lemma sample_no_ts: "option_ts (tcp sample_flow) = 0"
  by (simp add: sample_flow_def)

section \<open>Forwarding\<close>

lemma fwd_pkt_check_field:
  assumes "20 \<le> length pkt" "ihl pkt = 5" "inet_ok (take 20 pkt)" "uint (pkt ! 8) < 255"
  shows "take 2 (drop 10 (snd (telex_fwd_pkt sendto pkt))) = [0xfe, 0xff]"
proof -
  define A r B where "A = take 8 pkt" and "r = pkt ! 9" and "B = drop 10 pkt"
  define t where "t = pkt ! 8"
  have pkt: "pkt = A @ [t, r] @ B" "length A = 8" "10 \<le> length B"
    using assms(1) id_take_nth_drop [of 8 pkt] Cons_nth_drop_Suc [of 9 pkt]
    by (simp_all add: A_def r_def t_def B_def)
  define pkt1 where "pkt1 = A @ [t + 1, r] @ B"
  have p1: "put pkt 8 [pkt ! 8 + 1] = pkt1"
    using put_append [of A 8 "[t]" "[t + 1]" "r # B"] pkt(2) by (simp add: pkt(1) pkt1_def nth_append)
  have i1: "ihl pkt1 = 5" using assms(2) pkt(2) by (simp add: ihl_def pkt(1) pkt1_def nth_append)
  have "uint (t + 1) = uint t + 1"
    using assms(4) by (subst uint_add_nowrap) (simp_all add: t_def)
  then have w: "wsum (take 20 pkt1) = wsum (take 20 pkt) + 256"
    using pkt(2) by (simp add: pkt(1) pkt1_def wsum_append)
  define c where "c = csum pkt1 10 0"
  have "wsum (take 20 pkt1) < 2 ^ 32" using wsum_bound [of "take 20 pkt1"] by simp
  then have "(wsum (take 20 pkt1) + uint c) mod 65535 = 0"
    using uint_csum(1) [of 10 pkt1 0] pkt by (simp add: c_def pkt1_def)
  then have "(256 + uint c) mod 65535 = 0"
    using assms(3) unfolding w inet_ok_def mod_eq_0_iff_dvd add.assoc by (simp only: dvd_add_right_iff)
  moreover have "0 \<le> uint c" "uint c < 65536" using uint_bounded [of c] by simp_all
  moreover from calculation(1) obtain k where "256 + uint c = 65535 * k"
    by (auto simp: mod_eq_0_iff_dvd dvd_def)
  moreover from calculation have "k = 1" by linarith
  ultimately have "uint c = 0xfeff" by simp
  then have c: "c = 0xfeff" by (simp add: word_uint_eq_iff)
  have "snd (telex_fwd_pkt sendto pkt) = put pkt1 10 (be_bytes 2 c)"
    by (simp add: telex_fwd_pkt_def Let_def p1 i1 c_def)
  moreover have "be_bytes 2 (0xfeff :: u16) = [0xfe, 0xff]"
    by (simp add: be_bytes_def le_bytes_numeral)
  ultimately show ?thesis using pkt by (simp add: c put_def pkt1_def)
qed

section \<open>Properties\<close>

text \<open>\<open>csum\<close> is the internet checksum: added to the words it was computed over, it makes the sum a
  multiple of \<open>2^16 - 1\<close>, as long as the 32-bit accumulator does not overflow.\<close>

lemma csum_correct:
  assumes "2 * n \<le> length buf" "uint s + wsum (take (2 * n) buf) < 2 ^ 32"
  shows "(uint s + wsum (take (2 * n) buf) + uint (csum buf n s)) mod 65535 = 0"
  using uint_csum(1) [OF assms] .

text \<open>C13: a packet that \<open>telex_tcp_forge_xmit\<close> builds has a valid IP header checksum and a valid TCP
  checksum over the pseudo header and the segment, unless its payload has odd length and ends in a
  byte of at least 128.\<close>

theorem forge_packet_checksums:
  assumes "forge_packet now fl payload = Some pkt" "length payload \<le> 1448"
    "odd (length payload) \<longrightarrow> uint (payload ! (length payload - 1)) < 128"
  shows "inet_ok (take 20 pkt) \<and> inet_ok (pseudo fl (length pkt - 20) @ drop 20 pkt)"
  using forge_packet_ok [OF assms(1,2)] assms(3) by blast

theorem forge_packet_checksums_witness:
  "\<exists>pkt. forge_packet \<lparr>tv_sec = 0, tv_usec = 0\<rparr> sample_flow [0x41, 0x42, 0x43] = Some pkt \<and>
     inet_ok (take 20 pkt) \<and> inet_ok (pseudo sample_flow (length pkt - 20) @ drop 20 pkt)"
proof -
  obtain pkt where p: "forge_packet \<lparr>tv_sec = 0, tv_usec = 0\<rparr> sample_flow [0x41, 0x42, 0x43] = Some pkt"
    using forge_packet_total [OF sample_no_ts] by blast
  with forge_packet_checksums [OF p] show ?thesis by simp
qed

text \<open>C28: segmentation. A payload of any length is sent in packets of at most 1500 bytes whose payloads
  concatenate to it; the \<open>i\<close>-th packet carries the sequence number advanced by \<open>1448 i\<close> and the next
  identification; afterwards the flow is as before but for the identifications used.\<close>

theorem forge_xmit_segments:
  assumes "telex_tcp_forge_xmit sendto (\<lambda>n. True) now fl payload = Some (res, pkts, fl')"
  shows "concat (map (drop (forge_hdr_len fl)) pkts) = payload \<and> pkts \<noteq> [] \<and>
    (\<forall>p\<in>set pkts. length p \<le> 1500) \<and>
    (\<forall>i<length pkts. take 4 (drop 24 (pkts ! i)) = be_bytes 4 (seq (tcp fl) + word_of_nat (1448 * i)) \<and>
       take 2 (drop 4 (pkts ! i)) = be_bytes 2 (last_ip_id fl + 1 + word_of_nat i)) \<and>
    fl' = fl \<lparr>last_ip_id := last_ip_id fl + word_of_nat (length pkts - 1)\<rparr>"
  by (rule forge_xmit_some [OF assms])

theorem forge_xmit_segments_witness:
  "\<exists>res pkts fl'. telex_tcp_forge_xmit (\<lambda>p. int (length p)) (\<lambda>n. True) (\<lambda>k. \<lparr>tv_sec = 0, tv_usec = 0\<rparr>)
      sample_flow (replicate 3000 7) = Some (res, pkts, fl') \<and>
    concat (map (drop 40) pkts) = replicate 3000 7"
proof -
  define p :: bytes where "p = replicate 3000 7"
  define t where "t = (\<lambda>k :: nat. \<lparr>tv_sec = 0, tv_usec = 0\<rparr>)"
  obtain r where r: "telex_tcp_forge_xmit (\<lambda>p. int (length p)) (\<lambda>n. True) t sample_flow p = Some r"
    using forge_xmit_total [OF sample_no_ts] by blast
  obtain res pkts fl' where o: "r = (res, pkts, fl')" by (cases r) auto
  have "forge_hdr_len sample_flow = 40" by (simp add: forge_hdr_len_def sample_flow_def)
  with forge_xmit_segments [OF r [unfolded o]] have "concat (map (drop 40) pkts) = p" by simp
  with r o show ?thesis unfolding p_def t_def by blast
qed

text \<open>The last byte of an odd segment is read as a signed \<open>char\<close>. For this one-byte payload the
  checksum stored in the packet is wrong by one.\<close>

lemma forge_packet_odd_wrong:
  "(case forge_packet \<lparr>tv_sec = 0, tv_usec = 0\<rparr> sample_flow [0xff] of
      Some pkt \<Rightarrow> wsum (pseudo sample_flow (length pkt - 20) @ drop 20 pkt) mod 65535
    | None \<Rightarrow> 0) = 1"
  by code_simp

text \<open>\<open>telex_fwd_pkt\<close> recomputes the header checksum with the old one still in place. For every
  packet that arrives with a valid 20-byte header and a TTL below 255, the result stored is the constant
  \<open>0xfeff\<close>, whatever the header.\<close>

lemma fwd_pkt_checksum:
  assumes "20 \<le> length pkt" "ihl pkt = 5" "inet_ok (take 20 pkt)" "uint (pkt ! 8) < 255"
  shows "take 2 (drop 10 (snd (telex_fwd_pkt sendto pkt))) = [0xfe, 0xff]"
  by (rule fwd_pkt_check_field [OF assms])

text \<open>Two timestamps that were seen at the same instant make \<open>telex_get_next_tsval\<close> divide by zero.\<close>

lemma next_tsval_division_by_zero:
  assumes "tv lst = tv cur" "tsval cur \<noteq> tsval lst"
  shows "telex_get_next_tsval now lst cur = None"
proof -
  have "telex_get_tv_diff (tv lst) (tv cur) = 0" by (simp add: telex_get_tv_diff_def assms(1))
  moreover have "(ucast (tsval cur - tsval lst) :: u64) \<noteq> 0"
  proof
    assume "(ucast (tsval cur - tsval lst) :: u64) = 0"
    then have "uint (ucast (tsval cur - tsval lst) :: u64) = 0" by simp
    then have "uint (tsval cur - tsval lst) = 0" by (simp add: uint_ucast_widen)
    then have "tsval cur - tsval lst = 0" by (simp only: uint_0_iff)
    with assms(2) show False by simp
  qed
  ultimately show ?thesis by (simp add: telex_get_next_tsval_def)
qed

end
