(* ===== verification/Flow_Blocker.thy ===== *)
theory Flow_Blocker
  imports Prelude
begin

text \<open>
  Blocking of flows. The station side encodes a request (\<open>station/net/telex_block_flow.c\<close>) and sends
  it with \<open>sendall\<close> (\<open>common/util/telex_util.c\<close>) to the flow blocker
  (\<open>router/flow-blocker/flow_blocker.c\<close>), which decodes it, adds or removes an element of an ipset
  (\<open>telex_ipset.c\<close>, \<open>common/libaddipportip.c\<close>) and starts a timer that removes the element again.

  System calls are parameters: the results of successive \<open>send\<close> calls are a list, the ipset library
  is a record of the results its functions return, and the commands handed to it are logged.
  Addresses and ports are kept in network order.
\<close>

section \<open>Utilities\<close>

text \<open>\<open>sendall\<close>: the list holds what successive calls of \<open>send\<close> return. The result is the return code
  and the bytes handed over; \<open>None\<close> means that the loop is still waiting for a further call.\<close>

fun sendall :: "int list \<Rightarrow> bytes \<Rightarrow> (int \<times> bytes) option" where
  "sendall rs [] = Some (0, [])"
| "sendall [] (b # bs) = None"
| "sendall (sent # rs) (b # bs) =
     (if sent < 0 then Some (- 1, [])
      else case sendall rs (drop (nat sent) (b # bs)) of
             None \<Rightarrow> None
           | Some (r, out) \<Rightarrow> Some (r, take (nat sent) (b # bs) @ out))"

definition hex_digit :: "nat \<Rightarrow> char" where
  "hex_digit n = (if n < 10 then char_of (48 + n) else char_of (55 + n))"

definition printable :: "byte \<Rightarrow> char" where
  "printable b = (if 32 < b \<and> b < 127 then char_of (unat b) else CHR ''.'')"

text \<open>\<open>hexdump\<close>, as the text it prints: sixteen bytes to a line, then their characters.\<close>

definition hexdump :: "bytes \<Rightarrow> string" where
  "hexdump data =
     (let i = length data
      in concat (map (\<lambda>i. (if i \<noteq> 0 \<and> i mod 16 = 0
              then ''    '' @ map (\<lambda>j. printable (data ! (i + j - 16))) [0..<16] @ [char_of (10 :: nat)] else []) @
            [hex_digit (unat (data ! i) div 16), hex_digit (unat (data ! i) mod 16), CHR '' ''])
          [0..<i]) @
         (if i mod 16 \<noteq> 0 then concat (map (\<lambda>j. ''   '') [i mod 16..<16]) else []) @
         ''    '' @ map (\<lambda>j. printable (data ! j)) [i - i mod 16..<i] @ [char_of (10 :: nat)])"

datatype connect_result = Connect_Exit | Connect (conn_ret: int) (conn_need_finish: bool)

text \<open>\<open>start_tcp_connect\<close>: whether the host resolves, what \<open>socket\<close> and \<open>connect\<close> return and whether
  \<open>errno\<close> is \<open>EINPROGRESS\<close>. \<open>need_finish\<close> keeps its old value when \<open>socket\<close> fails.\<close>

definition start_tcp_connect :: "bool \<Rightarrow> int \<Rightarrow> int \<Rightarrow> bool \<Rightarrow> bool \<Rightarrow> connect_result" where
  "start_tcp_connect resolved sock r inprogress need_finish =
     (if \<not> resolved then Connect_Exit
      else if sock < 0 then Connect sock need_finish
      else if r = 0 then Connect sock False
      else if inprogress then Connect sock True
      else Connect r False)"

definition get_port :: "int \<Rightarrow> u16 \<Rightarrow> int" where
  "get_port r sin_port = (if r \<noteq> 0 then r else uint (be_word (le_bytes 2 sin_port) :: u16))"

definition get_remote_addr :: "int \<Rightarrow> u32 \<Rightarrow> u32 \<Rightarrow> int \<times> u32" where
  "get_remote_addr r s_addr out_addr = (if r \<noteq> 0 then (r, out_addr) else (0, s_addr))"

section \<open>Requests\<close>

record flow4 =
  addr1 :: u32
  port1 :: u16
  addr2 :: u32
  port2 :: u16

definition BLOCK_FLOW_MSG_LENGTH :: nat where
  "BLOCK_FLOW_MSG_LENGTH = 1 + 4 + 2 + 4 + 2"

definition block_flow_msg :: "flow4 \<Rightarrow> int \<Rightarrow> bytes" where
  "block_flow_msg f block =
     [if block \<noteq> 0 then 1 else 0] @ le_bytes 4 (addr1 f) @ le_bytes 2 (port1 f) @
     le_bytes 4 (addr2 f) @ le_bytes 2 (port2 f)"

definition telex_remote_mod_flow :: "int list \<Rightarrow> flow4 \<Rightarrow> int \<Rightarrow> (int \<times> bytes) option" where
  "telex_remote_mod_flow sends f block = sendall sends (block_flow_msg f block)"

definition telex_mod_flow :: "int list \<Rightarrow> u32 \<Rightarrow> u16 \<Rightarrow> u32 \<Rightarrow> u16 \<Rightarrow> int \<Rightarrow> (int \<times> bytes) option" where
  "telex_mod_flow sends saddr sport daddr dport block =
     telex_remote_mod_flow sends \<lparr>addr1 = saddr, port1 = sport, addr2 = daddr, port2 = dport\<rparr> block"

text \<open>\<open>telex_connect_to_flow_blocker\<close>: the codes returned by \<open>getaddrinfo\<close>, \<open>socket\<close> and \<open>connect\<close>, and
  \<open>errno\<close>. Returns the result and the descriptor left in \<open>flow_blocker_sock\<close>.\<close>

definition telex_connect_to_flow_blocker :: "int \<Rightarrow> int \<Rightarrow> int \<Rightarrow> int \<Rightarrow> int \<Rightarrow> int \<times> int" where
  "telex_connect_to_flow_blocker err_code sock r errno flow_blocker_sock =
     (if err_code \<noteq> 0 then (err_code, flow_blocker_sock)
      else if sock = - 1 then (errno, sock)
      else if r = - 1 then (errno, sock)
      else (sock, sock))"

section \<open>The ipset\<close>

text \<open>What the functions of libipset return in one call of \<open>add_ipportip\<close>.\<close>

record ipset_env =
  parse_setname :: int
  type_found :: bool
  parse_elem :: int
  cmd_result :: int
  has_warning :: bool
  quiet :: bool
  has_error :: bool

datatype ipset_cmd = Add string | Del string

definition handle_error :: "ipset_env \<Rightarrow> int option" where
  "handle_error e =
     (if has_warning e \<and> \<not> quiet e then Some 0
      else if has_error e then Some 1
      else None)"

text \<open>The variable \<open>session\<close>. \<open>libaddipportip_init\<close> exits when the library returns no session; \<open>libaddipportip_fini\<close> leaves
  the pointer in place, and a second call frees it again, for which the result is \<open>None\<close>.\<close>

datatype ipset_session = Session_Null | Session_Open | Session_Freed

definition libaddipportip_init :: "bool \<Rightarrow> ipset_session option" where
  "libaddipportip_init initialised = (if initialised then Some Session_Open else None)"

fun libaddipportip_fini :: "ipset_session \<Rightarrow> ipset_session option" where
  "libaddipportip_fini Session_Null = Some Session_Null"
| "libaddipportip_fini Session_Open = Some Session_Freed"
| "libaddipportip_fini Session_Freed = None"

text \<open>Returns the result, \<open>None\<close> when the process exits, and the command issued.\<close>

definition add_ipportip :: "ipset_env \<Rightarrow> string \<Rightarrow> u16 \<Rightarrow> string \<Rightarrow> int \<Rightarrow> int option \<times> ipset_cmd list" where
  "add_ipportip e ip1 port ip2 block =
     (let ipset_fake_arg = ip1 @ '','' @ show_nat (unat port) @ '','' @ ip2;
          cmd = (if block \<noteq> 0 then Add ipset_fake_arg else Del ipset_fake_arg)
      in if parse_setname e < 0 then (handle_error e, [])
         else if \<not> type_found e then (handle_error e, [])
         else if parse_elem e < 0 then (handle_error e, [])
         else if parse_elem e \<noteq> 0 then (Some (parse_elem e), [])
         else if cmd_result e < 0
              then (case handle_error e of None \<Rightarrow> None | Some x \<Rightarrow> Some (cmd_result e), [cmd])
              else (Some (cmd_result e), [cmd]))"

definition inet_ntop :: "u32 \<Rightarrow> string" where
  "inet_ntop a = (case map (\<lambda>b. show_nat (unat b)) (le_bytes 4 a) of
     [a, b, c, d] \<Rightarrow> a @ ''.'' @ b @ ''.'' @ c @ ''.'' @ d | _ \<Rightarrow> [])"

definition ntohs :: "u16 \<Rightarrow> u16" where
  "ntohs p = be_word (le_bytes 2 p)"

definition send_iptables_flow_command ::
  "ipset_env \<Rightarrow> string \<Rightarrow> u16 \<Rightarrow> string \<Rightarrow> u16 \<Rightarrow> int \<Rightarrow> int option \<times> ipset_cmd list" where
  "send_iptables_flow_command e sip sport dip dport block = add_ipportip e dip sport sip block"

definition telex_local_mod_flow :: "ipset_env \<Rightarrow> flow4 \<Rightarrow> int \<Rightarrow> int option \<times> ipset_cmd list" where
  "telex_local_mod_flow e f block =
     send_iptables_flow_command e (inet_ntop (addr1 f)) (ntohs (port1 f))
       (inet_ntop (addr2 f)) (ntohs (port2 f)) block"

section \<open>The flow blocker\<close>

definition FLOW_TIMEOUT :: nat where
  "FLOW_TIMEOUT = 30 * 60 * 60"

record blocker =
  conns :: "nat set"
  timers :: "(nat \<times> flow4) list"
  log :: "ipset_cmd list"
  exited :: bool

definition run_mod :: "ipset_env \<Rightarrow> flow4 \<Rightarrow> int \<Rightarrow> blocker \<Rightarrow> blocker" where
  "run_mod e f block s =
     (case telex_local_mod_flow e f block of
        (r, cmds) \<Rightarrow> s \<lparr>log := log s @ cmds, exited := (r = None)\<rparr>)"

definition unblock_flow :: "ipset_env \<Rightarrow> flow4 \<Rightarrow> blocker \<Rightarrow> blocker" where
  "unblock_flow e the_flow s = run_mod e the_flow 0 s"

definition cleanup_connection :: "nat \<Rightarrow> blocker \<Rightarrow> blocker" where
  "cleanup_connection fd s = s \<lparr>conns := conns s - {fd}\<rparr>"

definition decode_msg :: "bytes \<Rightarrow> int \<times> flow4" where
  "decode_msg msgbuf =
     (if msgbuf ! 0 \<noteq> 0 then 1 else 0,
      \<lparr>addr1 = le_word (take 4 (drop 1 msgbuf)), port1 = le_word (take 2 (drop 5 msgbuf)),
       addr2 = le_word (take 4 (drop 7 msgbuf)), port2 = le_word (take 2 (drop 11 msgbuf))\<rparr>)"

text \<open>\<open>on_read_ready\<close>: \<open>status\<close> and \<open>msgbuf\<close> are what \<open>recv\<close> returns and stores, \<open>now\<close> the time in
  seconds.\<close>

definition on_read_ready :: "ipset_env \<Rightarrow> nat \<Rightarrow> nat \<Rightarrow> int \<Rightarrow> bytes \<Rightarrow> blocker \<Rightarrow> blocker" where
  "on_read_ready e now fd status msgbuf s =
     (if status < int BLOCK_FLOW_MSG_LENGTH
      then if status \<le> 0 then cleanup_connection fd s else s
      else let (block, the_flow) = decode_msg msgbuf;
               s = run_mod e the_flow block s
           in if exited s then s else s \<lparr>timers := timers s @ [(now + FLOW_TIMEOUT, the_flow)]\<rparr>)"

definition on_accept_ready :: "int \<Rightarrow> blocker \<Rightarrow> blocker" where
  "on_accept_ready conn s = (if conn = - 1 then s else s \<lparr>conns := insert (nat conn) (conns s)\<rparr>)"

text \<open>\<open>main\<close> up to the event loop: the argument count, whether \<open>inet_aton\<close> accepts the address, the
  value of \<open>atoi\<close>, and the results of \<open>socket\<close>, \<open>bind\<close> and \<open>listen\<close>.\<close>

datatype blocker_main = Exit_Code int | Dispatch u16 blocker

definition flow_blocker_main :: "nat \<Rightarrow> bool \<Rightarrow> int \<Rightarrow> int \<Rightarrow> int \<Rightarrow> int \<Rightarrow> blocker_main" where
  "flow_blocker_main argc aton listen_port sock r_bind r_listen =
     (if argc \<noteq> 3 then Exit_Code 1
      else if \<not> aton then Exit_Code 1
      else if listen_port = 0 \<or> listen_port \<ge> 65536 then Exit_Code 1
      else if sock = - 1 then Exit_Code 2
      else if r_bind = - 1 then Exit_Code 2
      else if r_listen = - 1 then Exit_Code 2
      else Dispatch (word_of_int listen_port) \<lparr>conns = {}, timers = [], log = [], exited = False\<rparr>)"

text \<open>The event loop: connections arrive, become readable, and timers expire. Time is a component of
  the state so that a timer fires only when it is due; \<open>E\<close> says which results the ipset library can
  return.\<close>

inductive blocker_step :: "(ipset_env \<Rightarrow> bool) \<Rightarrow> nat \<times> blocker \<Rightarrow> nat \<times> blocker \<Rightarrow> bool" for E where
  step_accept: "\<not> exited s \<Longrightarrow> blocker_step E (now, s) (now, on_accept_ready conn s)"
| step_read: "\<not> exited s \<Longrightarrow> fd \<in> conns s \<Longrightarrow> length msgbuf = BLOCK_FLOW_MSG_LENGTH \<Longrightarrow> E e \<Longrightarrow>
    blocker_step E (now, s) (now, on_read_ready e now fd status msgbuf s)"
| step_timer: "\<not> exited s \<Longrightarrow> timers s = pre @ (t, f) # post \<Longrightarrow> t \<le> now \<Longrightarrow> E e \<Longrightarrow>
    blocker_step E (now, s) (now, unblock_flow e f (s \<lparr>timers := pre @ post\<rparr>))"
| step_clock: "\<not> exited s \<Longrightarrow> now \<le> now' \<Longrightarrow> blocker_step E (now, s) (now', s)"

definition blocker_init :: "nat \<times> blocker \<Rightarrow> bool" where
  "blocker_init ns \<longleftrightarrow> snd ns = \<lparr>conns = {}, timers = [], log = [], exited = False\<rparr>"

section \<open>Sending\<close>

lemma sendall_prefix:
  "sendall rs buf = Some (r, out) \<Longrightarrow> (r = 0 \<longrightarrow> out = buf) \<and> (r = 0 \<or> r = - 1) \<and> (\<exists>rest. buf = out @ rest)"
proof (induction rs buf arbitrary: r out rule: sendall.induct)
  case (3 sent rs b bs)
  show ?case
  proof (cases "sent < 0")
    case True
    with 3 show ?thesis by auto
  next
    case False
    with 3(2) obtain o' where o: "sendall rs (drop (nat sent) (b # bs)) = Some (r, o')"
      "out = take (nat sent) (b # bs) @ o'"
      by (auto split: option.splits)
    from 3(1) [OF False o(1)] show ?thesis
      unfolding o(2) by (metis append.assoc append_take_drop_id)
  qed
qed auto

lemma sendall_returns:
  "length buf \<le> length rs \<Longrightarrow> \<forall>x\<in>set rs. 0 < x \<Longrightarrow> sendall rs buf = Some (0, buf)"
proof (induction rs buf rule: sendall.induct)
  case (3 sent rs b bs)
  then have "0 < sent" "length (drop (nat sent) (b # bs)) \<le> length rs" by auto
  then have "sendall rs (drop (nat sent) (b # bs)) = Some (0, drop (nat sent) (b # bs))"
    using 3 by simp
  with \<open>0 < sent\<close> show ?case by simp
qed auto

section \<open>Requests\<close>

lemma length_block_flow_msg [simp]: "length (block_flow_msg f block) = BLOCK_FLOW_MSG_LENGTH"
  by (simp add: block_flow_msg_def BLOCK_FLOW_MSG_LENGTH_def)

lemma decode_block_flow_msg:
  "decode_msg (block_flow_msg f block) = (if block \<noteq> 0 then 1 else 0, f)"
  by (simp add: decode_msg_def block_flow_msg_def le_word_le_bytes)

section \<open>The kernel set\<close>

text \<open>The element of a flow, and what a sequence of commands leaves in the set.\<close>

definition elem_of :: "flow4 \<Rightarrow> string" where
  "elem_of f = inet_ntop (addr2 f) @ '','' @ show_nat (unat (ntohs (port1 f))) @ '','' @ inet_ntop (addr1 f)"

fun exec_cmd :: "ipset_cmd \<Rightarrow> string set \<Rightarrow> string set" where
  "exec_cmd (Add x) S = insert x S"
| "exec_cmd (Del x) S = S - {x}"

definition blocked :: "ipset_cmd list \<Rightarrow> string set" where
  "blocked cs = fold exec_cmd cs {}"

definition ipset_ok :: "ipset_env \<Rightarrow> bool" where
  "ipset_ok e \<longleftrightarrow> 0 \<le> parse_setname e \<and> type_found e \<and> parse_elem e = 0 \<and> 0 \<le> cmd_result e"

lemma blocked_snoc: "blocked (cs @ [c]) = exec_cmd c (blocked cs)"
  by (simp add: blocked_def)

lemma local_mod_flow_ok:
  "ipset_ok e \<Longrightarrow> telex_local_mod_flow e f block =
     (Some (cmd_result e), [if block \<noteq> 0 then Add (elem_of f) else Del (elem_of f)])"
  by (simp add: telex_local_mod_flow_def send_iptables_flow_command_def add_ipportip_def ipset_ok_def
      elem_of_def Let_def)

lemma run_mod_ok:
  "ipset_ok e \<Longrightarrow> run_mod e f block s =
     s \<lparr>log := log s @ [if block \<noteq> 0 then Add (elem_of f) else Del (elem_of f)], exited := False\<rparr>"
  by (simp add: run_mod_def local_mod_flow_ok)

text \<open>The invariant: whatever is in the set has a timer pending that is due within the timeout.\<close>

definition blocker_inv :: "nat \<times> blocker \<Rightarrow> bool" where
  "blocker_inv ns \<longleftrightarrow> (case ns of (now, s) \<Rightarrow>
     (\<forall>x\<in>blocked (log s). \<exists>(t, f)\<in>set (timers s). elem_of f = x) \<and>
     (\<forall>(t, f)\<in>set (timers s). t \<le> now + FLOW_TIMEOUT))"

lemma blocker_inv_read:
  assumes "blocker_inv (now, s)" "ipset_ok e"
  shows "blocker_inv (now, on_read_ready e now fd status msgbuf s)"
proof (cases "status < int BLOCK_FLOW_MSG_LENGTH")
  case True
  with assms show ?thesis by (simp add: on_read_ready_def blocker_inv_def cleanup_connection_def)
next
  case False
  obtain block f where d: "decode_msg msgbuf = (block, f)" by (cases "decode_msg msgbuf")
  have "on_read_ready e now fd status msgbuf s = s \<lparr>log := log s @ [if block \<noteq> 0 then Add (elem_of f) else Del (elem_of f)],
      exited := False, timers := timers s @ [(now + FLOW_TIMEOUT, f)]\<rparr>"
    using False by (simp add: on_read_ready_def d run_mod_ok [OF assms(2)])
  with assms(1) show ?thesis
    by (auto simp: blocker_inv_def blocked_snoc)
qed

lemma blocker_inv_timer:
  assumes "blocker_inv (now, s)" "ipset_ok e" "timers s = pre @ (t, f) # post"
  shows "blocker_inv (now, unblock_flow e f (s \<lparr>timers := pre @ post\<rparr>))"
  using assms(1) unfolding unblock_flow_def run_mod_ok [OF assms(2)]
  by (auto simp: blocker_inv_def blocked_snoc assms(3))

interpretation blocker: invariant_system blocker_init "blocker_step ipset_ok" blocker_inv
proof
  show "blocker_inv s" if "blocker_init s" for s
    using that by (cases s) (simp add: blocker_init_def blocker_inv_def blocked_def)
  show "blocker_inv t" if "blocker_inv s" "blocker_step ipset_ok s t" for s t
    using that(2,1)
  proof (cases rule: blocker_step.cases)
    case (step_accept s now conn)
    with that(1) show ?thesis by (auto simp: blocker_inv_def on_accept_ready_def)
  next
    case (step_clock s now now')
    with that(1) show ?thesis by (fastforce simp: blocker_inv_def)
  qed (auto intro: blocker_inv_read blocker_inv_timer)
qed

section \<open>Buffer sizes\<close>

lemma length_inet_ntop: "length (inet_ntop a) \<le> 15"
proof -
  obtain b c d e where l: "le_bytes 4 a = [b, c, d, e]" by (simp add: le_bytes_numeral)
  have "length (show_nat (unat b)) \<le> 3" for b :: byte
    using unsigned_less [of b, where 'a = nat] by (intro length_show_nat) simp_all
  from this [of b] this [of c] this [of d] this [of e] show ?thesis
    by (simp add: inet_ntop_def l)
qed

lemma length_elem_of: "length (elem_of f) \<le> 37"
proof -
  have "length (show_nat (unat (ntohs (port1 f)))) \<le> 5"
    using unsigned_less [of "ntohs (port1 f)", where 'a = nat] by (intro length_show_nat) simp_all
  with length_inet_ntop [of "addr1 f"] length_inet_ntop [of "addr2 f"] show ?thesis
    by (simp add: elem_of_def)
qed

section \<open>Properties\<close>

text \<open>\<open>sendall\<close> hands over a prefix of the buffer in order, all of it when it returns 0, and returns
  nothing but 0 and -1; it does return 0 when every call of \<open>send\<close> makes progress.\<close>

lemma sendall_correct:
  "(sendall rs buf = Some (r, out) \<longrightarrow>
     (r = 0 \<longrightarrow> out = buf) \<and> (r = 0 \<or> r = - 1) \<and> (\<exists>rest. buf = out @ rest)) \<and>
   (length buf \<le> length rs \<and> (\<forall>x\<in>set rs. 0 < x) \<longrightarrow> sendall rs buf = Some (0, buf))"
  using sendall_prefix sendall_returns by blast

text \<open>C24: a request to block or unblock a flow that the station encodes and sends completely is carried
  out by the flow blocker as if the station had modified the set itself.\<close>

theorem block_request_roundtrip:
  assumes "telex_mod_flow sends saddr sport daddr dport block = Some (0, msg)"
  shows "length msg = BLOCK_FLOW_MSG_LENGTH \<and>
    log (on_read_ready e now fd (int (length msg)) msg s) =
      log s @ snd (telex_local_mod_flow e \<lparr>addr1 = saddr, port1 = sport, addr2 = daddr, port2 = dport\<rparr> block)"
proof -
  define f where "f = \<lparr>addr1 = saddr, port1 = sport, addr2 = daddr, port2 = dport\<rparr>"
  have msg: "msg = block_flow_msg f block"
    using sendall_prefix [of sends "block_flow_msg f block" 0 msg] assms
    by (simp add: telex_mod_flow_def telex_remote_mod_flow_def f_def)
  have "telex_local_mod_flow e f (if block \<noteq> 0 then 1 else 0) = telex_local_mod_flow e f block"
    by (simp add: telex_local_mod_flow_def send_iptables_flow_command_def add_ipportip_def)
  then show ?thesis
    unfolding msg f_def [symmetric]
    by (simp add: on_read_ready_def decode_block_flow_msg run_mod_def split_beta Let_def)
qed

theorem block_request_roundtrip_witness:
  "let msg = [1, 127, 0, 0, 1, 0, 80, 10, 0, 0, 2, 1, 187];
       e = \<lparr>parse_setname = 0, type_found = True, parse_elem = 0, cmd_result = 0, has_warning = False,
            quiet = False, has_error = False\<rparr>
   in telex_mod_flow [13] 0x0100007f 0x5000 0x0200000a 0xbb01 1 = Some (0, msg) \<and>
      log (on_read_ready e 0 4 (int (length msg)) msg \<lparr>conns = {4}, timers = [], log = [], exited = False\<rparr>) =
        snd (telex_local_mod_flow e \<lparr>addr1 = 0x0100007f, port1 = 0x5000, addr2 = 0x0200000a, port2 = 0xbb01\<rparr> 1)"
proof -
  have m: "telex_mod_flow [13] 0x0100007f 0x5000 0x0200000a 0xbb01 1 =
      Some (0, [1, 127, 0, 0, 1, 0, 80, 10, 0, 0, 2, 1, 187])"
    by (simp add: telex_mod_flow_def telex_remote_mod_flow_def block_flow_msg_def le_bytes_numeral)
  show ?thesis
    unfolding Let_def
    by (intro conjI, rule m)
      (subst conjunct2 [OF block_request_roundtrip [OF m]], simp only: blocker.simps append_Nil)
qed


definition env_ok :: ipset_env where
  "env_ok = \<lparr>parse_setname = 0, type_found = True, parse_elem = 0, cmd_result = 0, has_warning = False,
     quiet = False, has_error = False\<rparr>"

definition flow_a :: flow4 where
  "flow_a = \<lparr>addr1 = 0x0100007f, port1 = 0x5000, addr2 = 0x0200000a, port2 = 0xbb01\<rparr>"

definition blocker_0 :: blocker where
  "blocker_0 = \<lparr>conns = {4}, timers = [], log = [], exited = False\<rparr>"

lemma reach_0: "reachable blocker_init (blocker_step ipset_ok) (0, blocker_0)"
proof -
  have "reachable blocker_init (blocker_step ipset_ok) (0, \<lparr>conns = {}, timers = [], log = [], exited = False\<rparr>)"
    by (rule reachable_init) (simp add: blocker_init_def)
  from reachable_step [OF this step_accept [of _ _ _ 4]] show ?thesis
    by (simp add: on_accept_ready_def blocker_0_def)
qed

lemma reach_read:
  assumes "reachable blocker_init (blocker_step ipset_ok) (now, s)" "4 \<in> conns s" "\<not> exited s"
  shows "reachable blocker_init (blocker_step ipset_ok) (now, on_read_ready env_ok now 4 13 (block_flow_msg flow_a b) s)"
  using assms(2,3)
  by (intro reachable_step [OF assms(1) step_read]) (simp_all add: ipset_ok_def env_ok_def)

lemma env_ok: "ipset_ok env_ok"
  by (simp add: ipset_ok_def env_ok_def)

lemma read_flow_a:
  "on_read_ready env_ok now 4 13 (block_flow_msg flow_a b) s =
     s \<lparr>log := log s @ [if b \<noteq> 0 then Add (elem_of flow_a) else Del (elem_of flow_a)],
        exited := False, timers := timers s @ [(now + FLOW_TIMEOUT, flow_a)]\<rparr>"
  by (simp add: on_read_ready_def decode_block_flow_msg run_mod_ok [OF env_ok] BLOCK_FLOW_MSG_LENGTH_def Let_def)


text \<open>Timers are never cancelled. There is a run in which a flow is blocked, unblocked and blocked
  again, and the timer of the first request lifts the second block one second after it was made.\<close>

lemma stale_timer_unblocks:
  "\<exists>s s'. reachable blocker_init (blocker_step ipset_ok) (FLOW_TIMEOUT - 1, s) \<and>
     elem_of flow_a \<in> blocked (log s) \<and>
     (FLOW_TIMEOUT - 1 + FLOW_TIMEOUT, flow_a) \<in> set (timers s) \<and>
     reachable blocker_init (blocker_step ipset_ok) (FLOW_TIMEOUT, s') \<and>
     (FLOW_TIMEOUT - 1 + FLOW_TIMEOUT, flow_a) \<in> set (timers s') \<and>
     elem_of flow_a \<notin> blocked (log s')"
proof -
  let ?R = "reachable blocker_init (blocker_step ipset_ok)"
  let ?T = FLOW_TIMEOUT
  let ?A = "Add (elem_of flow_a)" and ?D = "Del (elem_of flow_a)"
  define s1 where "s1 = \<lparr>conns = {4}, timers = [(?T, flow_a), (?T, flow_a)], log = [?A, ?D], exited = False\<rparr>"
  have "?R (0, s1)"
    using reach_read [OF reach_read [OF reach_0, of 1], of 0]
    by (simp add: read_flow_a blocker_0_def s1_def)
  then have "?R (?T - 1, s1)"
    by (rule reachable_step) (rule step_clock, simp_all add: s1_def)
  from reach_read [OF this, of 1]
  have r2: "?R (?T - 1, s1 \<lparr>log := [?A, ?D, ?A], timers := timers s1 @ [(?T - 1 + ?T, flow_a)]\<rparr>)" (is "?R (_, ?s2)")
    by (simp add: read_flow_a s1_def)
  then have "?R (?T, ?s2)"
    by (rule reachable_step) (rule step_clock, simp_all add: s1_def)
  then have "?R (?T, unblock_flow env_ok flow_a (?s2 \<lparr>timers := [] @ [(?T, flow_a), (?T - 1 + ?T, flow_a)]\<rparr>))"
    by (rule reachable_step) (rule step_timer [where t = ?T], simp_all add: s1_def env_ok)
  moreover have "elem_of flow_a \<in> blocked (log ?s2)" by (simp add: blocked_def)
  ultimately show ?thesis
    using r2
    by (intro exI [of _ ?s2] exI [of _ "unblock_flow env_ok flow_a (?s2 \<lparr>timers := [] @ [(?T, flow_a), (?T - 1 + ?T, flow_a)]\<rparr>)"])
      (simp add: unblock_flow_def run_mod_ok [OF env_ok] blocked_def)
qed

text \<open>The argument that \<open>add_ipportip\<close> formats with \<open>sprintf\<close> fits its buffer of 38 bytes, terminator
  included, for every flow.\<close>

lemma fake_arg_fits:
  "snd (telex_local_mod_flow e f block) \<in> {[], [Add (elem_of f)], [Del (elem_of f)]} \<and>
   length (elem_of f) + 1 \<le> 16 * 2 + 5 + 1"
proof
  show "snd (telex_local_mod_flow e f block) \<in> {[], [Add (elem_of f)], [Del (elem_of f)]}"
    by (simp add: telex_local_mod_flow_def send_iptables_flow_command_def add_ipportip_def elem_of_def Let_def)
  show "length (elem_of f) + 1 \<le> 16 * 2 + 5 + 1" using length_elem_of [of f] by simp
qed

end
