(* ===== verification/Ssl_Api.thy ===== *)
theory Ssl_Api
  imports Prelude
begin

text \<open>
  The station's use of OpenSSL: \<open>src/telex-station/station/net/ssl_api.c\<close>. It derives the client's
  Diffie-Hellman key from the tag secret, computes the session's secret with it, and builds an SSL
  object in the state just after a handshake.

  OpenSSL is a parameter: HMAC, the Diffie-Hellman computation, \<open>SSL_read\<close> and \<open>SSL_write\<close> are
  arguments, and the record \<open>openssl\<close> holds the functions that \<open>get_live_ssl_obj\<close> calls. The record
  \<open>ssl_obj\<close> has the members of the C structure that the source reads or writes. Failed assertions
  and calls of \<open>exit\<close> are results.
\<close>

section \<open>Key derivation\<close>

definition SHA256_DIGEST_LENGTH :: nat where
  "SHA256_DIGEST_LENGTH = 32"

text \<open>The string \<open>Telex PRG\<close>.\<close>

definition uniq :: bytes where
  "uniq = [0x54, 0x65, 0x6c, 0x65, 0x78, 0x20, 0x50, 0x52, 0x47]"

text \<open>\<open>dh_key_loop hmac secret i n out\<close> makes the last \<open>n\<close> iterations of the loop, starting at \<open>i\<close> with the
  previous digest in \<open>out\<close>; \<open>None\<close> is the failed assertion on the digest's length.\<close>

fun dh_key_loop :: "(bytes \<Rightarrow> bytes \<Rightarrow> bytes) \<Rightarrow> bytes \<Rightarrow> nat \<Rightarrow> nat \<Rightarrow> bytes \<Rightarrow> bytes option" where
  "dh_key_loop hmac secret i 0 out = Some []"
| "dh_key_loop hmac secret i (Suc n) out =
     (let out = hmac secret (out @ uniq @ le_bytes 4 (word_of_nat i :: u32))
      in if length out \<noteq> SHA256_DIGEST_LENGTH then None
         else map_option (\<lambda>buf. out @ buf) (dh_key_loop hmac secret (Suc i) n out))"

definition telex_ssl_get_dh_key :: "(bytes \<Rightarrow> bytes \<Rightarrow> bytes) \<Rightarrow> bytes \<Rightarrow> int option" where
  "telex_ssl_get_dh_key hmac telex_secret =
     (case dh_key_loop hmac (take 16 telex_secret) 0 (128 div SHA256_DIGEST_LENGTH) [] of
        None \<Rightarrow> None
      | Some buf \<Rightarrow>
          (let buf = buf[0 := buf ! 0 OR push_bit 6 1];
               buf = buf[0 := buf ! 0 AND 0x7f]
           in Some (be_val buf)))"

text \<open>\<open>telex_get_shared_secret\<close>: \<open>dh_new\<close> says whether \<open>DH_new\<close> succeeds, \<open>dh_compute p priv pub\<close> is what
  \<open>DH_compute_key\<close> stores, \<open>None\<close> its failure. The result is the length and the buffer.\<close>

definition telex_get_shared_secret ::
  "bool \<Rightarrow> (int \<Rightarrow> int \<Rightarrow> int \<Rightarrow> bytes option) \<Rightarrow> int \<Rightarrow> int \<Rightarrow> int \<Rightarrow> int \<times> bytes" where
  "telex_get_shared_secret dh_new dh_compute client_dh_priv_key p server_dh_pub_key =
     (if \<not> dh_new then (- 1, [])
      else case dh_compute p client_dh_priv_key server_dh_pub_key of
             None \<Rightarrow> (- 1, [])
           | Some shared_secret \<Rightarrow> (int (length shared_secret), shared_secret))"

section \<open>SSL objects\<close>

datatype ssl_role = SSL_ST_CONNECT | SSL_ST_ACCEPT

datatype ssl_method = TLSv1_client_method | TLSv1_server_method

datatype cipher_change =
  SSL3_CHANGE_CIPHER_SERVER_WRITE | SSL3_CHANGE_CIPHER_CLIENT_WRITE
| SSL3_CHANGE_CIPHER_SERVER_READ | SSL3_CHANGE_CIPHER_CLIENT_READ

record ssl3_state =
  read_sequence :: bytes
  write_sequence :: bytes
  client_random :: bytes
  server_random :: bytes
  previous_client_finished :: bytes
  previous_server_finished :: bytes
  finish_md :: bytes
  new_cipher :: "nat option"
  new_sym_enc :: "nat option"
  new_hash :: "nat option"
  need_empty_fragments :: int
  wpend_buf :: "bytes option"
  message_size :: nat
  message_type :: nat
  next_state :: nat

text \<open>Pointers that are only compared with \<open>NULL\<close> are booleans: whether they are set.\<close>

record ssl_obj =
  ssl_type :: ssl_role
  ssl_method :: ssl_method
  version :: int
  client_version :: int
  rwstate_nothing :: bool
  in_handshake :: int
  handshake_is_connect :: bool
  server :: int
  new_session :: int
  quiet_shutdown :: int
  shutdown :: int
  state_ok :: bool
  rstate_read_header :: bool
  init_buf :: bool
  init_msg :: bool
  init_num :: int
  init_off :: int
  packet :: bool
  packet_length :: nat
  read_ahead :: int
  msg_callback :: bool
  hit :: int
  cipher_list :: bool
  cipher_list_by_id :: bool
  enc_read_ctx :: bool
  read_hash :: bool
  expand :: bool
  enc_write_ctx :: bool
  write_hash :: bool
  compress :: bool
  info_callback :: bool
  error :: int
  error_code :: int
  has_ctx :: bool
  verify_ok :: bool
  client_CA :: bool
  references :: int
  tlsext_status_type :: int
  tlsext_status_expected :: int
  servername_done :: int
  tlsext_ocsp_resplen :: int
  tlsext_ticket_expected :: int
  initial_ctx_set :: bool
  s3 :: ssl3_state
  session_cipher :: "nat option"
  master_key :: bytes
  rbio :: "bytes option"
  wbio :: "bytes option"
  enc_read_iv :: bytes
  enc_write_iv :: bytes

record openssl =
  SSL_new :: "ssl_obj option"
  ssl_get_new_session :: "ssl_obj \<Rightarrow> ssl_obj option"
  ssl3_setup_buffers :: "ssl_obj \<Rightarrow> ssl_obj"
  ssl3_get_cipher_by_char :: "bytes \<Rightarrow> nat"
  tls1_generate_master_secret :: "ssl_obj \<Rightarrow> bytes \<Rightarrow> bytes"
  tls1_setup_key_block :: "ssl_obj \<Rightarrow> ssl_obj option"
  tls1_change_cipher_state :: "ssl_obj \<Rightarrow> cipher_change \<Rightarrow> ssl_obj option"

text \<open>What a function that can end the process returns: the object and the caller's secret buffer.\<close>

datatype live = Exit_Failure | Assert_Failure | Failed ssl_obj bytes | Live ssl_obj bytes

text \<open>The role is set in both functions.\<close>

definition set_role :: "int \<Rightarrow> ssl_obj \<Rightarrow> ssl_obj" where
  "set_role is_server ssl =
     (if is_server \<noteq> 0 then ssl \<lparr>ssl_type := SSL_ST_ACCEPT, ssl_method := TLSv1_server_method\<rparr>
      else ssl \<lparr>ssl_type := SSL_ST_CONNECT, ssl_method := TLSv1_client_method\<rparr>)"

text \<open>The twelve bytes of each of the three placeholder strings.\<close>

definition client_finished_text :: bytes where
  "client_finished_text = map (\<lambda>c. word_of_nat (of_char c)) ''somefinished''"

definition server_finished_text :: bytes where
  "server_finished_text = map (\<lambda>c. word_of_nat (of_char c)) ''jsadfkjwefja''"

definition finish_md_text :: bytes where
  "finish_md_text = map (\<lambda>c. word_of_nat (of_char c)) ''akjwemawmefm''"

definition switch_to_telex_crypto :: "openssl \<Rightarrow> ssl_obj \<Rightarrow> bytes \<Rightarrow> int \<Rightarrow> live" where
  "switch_to_telex_crypto E ssl telex_secret is_server =
     (let ssl = set_role is_server ssl;
          cipher = ssl3_get_cipher_by_char E [0x00, 0x39];
          ssl = ssl \<lparr>s3 := (s3 ssl) \<lparr>read_sequence := replicate 8 0, write_sequence := replicate 8 0,
                  previous_client_finished := client_finished_text,
                  previous_server_finished := server_finished_text, finish_md := finish_md_text,
                  new_cipher := Some cipher\<rparr>,
                session_cipher := Some cipher\<rparr>;
          ssl = ssl \<lparr>master_key := tls1_generate_master_secret E ssl telex_secret\<rparr>;
          wiped = replicate (length telex_secret) 0
      in case tls1_setup_key_block E ssl of
           None \<Rightarrow> Exit_Failure
         | Some ssl \<Rightarrow>
         (case tls1_change_cipher_state E ssl
                 (if is_server \<noteq> 0 then SSL3_CHANGE_CIPHER_SERVER_WRITE else SSL3_CHANGE_CIPHER_CLIENT_WRITE) of
            None \<Rightarrow> Failed ssl wiped
          | Some ssl \<Rightarrow>
          (case tls1_change_cipher_state E ssl
                  (if is_server \<noteq> 0 then SSL3_CHANGE_CIPHER_SERVER_READ else SSL3_CHANGE_CIPHER_CLIENT_READ) of
             None \<Rightarrow> Failed ssl wiped
           | Some ssl \<Rightarrow>
               Live (ssl \<lparr>s3 := (s3 ssl) \<lparr>read_sequence := (read_sequence (s3 ssl))[7 := 1],
                                         write_sequence := (write_sequence (s3 ssl))[7 := 1]\<rparr>\<rparr>) wiped)))"

text \<open>The assertions on the object that \<open>SSL_new\<close> returned, before and after the first session.\<close>

definition fresh_asserts :: "ssl_obj \<Rightarrow> bool" where
  "fresh_asserts ssl \<longleftrightarrow>
     \<not> packet ssl \<and> packet_length ssl = 0 \<and> read_ahead ssl = 0 \<and> \<not> msg_callback ssl \<and> hit ssl = 0 \<and>
     \<not> cipher_list ssl \<and> \<not> cipher_list_by_id ssl \<and> \<not> enc_read_ctx ssl \<and> \<not> read_hash ssl \<and>
     \<not> expand ssl \<and> \<not> enc_write_ctx ssl \<and> \<not> write_hash ssl \<and> \<not> compress ssl"

definition session_asserts :: "ssl_obj \<Rightarrow> bool" where
  "session_asserts ssl \<longleftrightarrow>
     \<not> info_callback ssl \<and> error ssl = 0 \<and> error_code ssl = 0 \<and> has_ctx ssl"

definition ext_asserts :: "ssl_obj \<Rightarrow> bool" where
  "ext_asserts ssl \<longleftrightarrow>
     tlsext_status_type ssl = - 1 \<and> tlsext_status_expected ssl = 0 \<and> servername_done ssl = 0 \<and>
     tlsext_ocsp_resplen ssl = - 1 \<and> tlsext_ticket_expected ssl = 0"

definition live_start :: "int \<Rightarrow> ssl_obj \<Rightarrow> ssl_obj" where
  "live_start is_server ssl =
     (set_role is_server ssl) \<lparr>rwstate_nothing := True, in_handshake := 0, handshake_is_connect := True,
        server := 0, new_session := 0, quiet_shutdown := 0, shutdown := 0, state_ok := True,
        rstate_read_header := True, init_buf := False, init_msg := False, init_num := 0, init_off := 0\<rparr>"

definition live_s3 :: "ssl3_state \<Rightarrow> ssl3_state" where
  "live_s3 s = s \<lparr>message_size := 12, message_type := 20, new_cipher := None, next_state := 4576,
     new_sym_enc := None, new_hash := None\<rparr>"

definition get_live_ssl_obj :: "openssl \<Rightarrow> bytes \<Rightarrow> bytes \<Rightarrow> bytes \<Rightarrow> int \<Rightarrow> live" where
  "get_live_ssl_obj E telex_secret client_rand server_rand is_server =
     (case SSL_new E of
        None \<Rightarrow> Exit_Failure
      | Some ssl \<Rightarrow>
      (let ssl = live_start is_server ssl in
       if \<not> fresh_asserts ssl then Assert_Failure
       else case ssl_get_new_session E ssl of
         None \<Rightarrow> Exit_Failure
       | Some ssl \<Rightarrow>
         if \<not> session_asserts ssl then Assert_Failure
         else (let ssl = ssl \<lparr>verify_ok := True\<rparr> in
         if client_CA ssl \<or> references ssl \<noteq> 1 then Assert_Failure
         else (let ssl = ssl \<lparr>client_version := version ssl\<rparr> in
         if \<not> ext_asserts ssl then Assert_Failure
         else (let ssl = ssl \<lparr>initial_ctx_set := has_ctx ssl,
                            s3 := (s3 ssl) \<lparr>need_empty_fragments := 1, wpend_buf := None\<rparr>\<rparr>;
                   ssl = ssl3_setup_buffers E ssl;
                   ssl = ssl \<lparr>s3 := live_s3 (s3 ssl)\<rparr> in
         case ssl_get_new_session E ssl of
           None \<Rightarrow> Exit_Failure
         | Some ssl \<Rightarrow>
           (let ssl = ssl \<lparr>rbio := Some [], wbio := Some [],
                          s3 := (s3 ssl) \<lparr>client_random := take 32 client_rand,
                                         server_random := take 32 server_rand\<rparr>\<rparr>
            in case switch_to_telex_crypto E ssl telex_secret is_server of
                 Failed ssl wiped \<Rightarrow> Exit_Failure
               | r \<Rightarrow> r))))))"

section \<open>Encryption through memory buffers\<close>

text \<open>\<open>alloc\<close> and \<open>reset\<close> say whether \<open>malloc\<close> and \<open>BIO_reset\<close> succeed. The result is the return code, the
  buffer stored through \<open>out\<close>, if any, and the object.\<close>

definition fetch_data_from_bio :: "bool \<Rightarrow> bool \<Rightarrow> ssl_obj \<Rightarrow> int \<times> bytes option \<times> ssl_obj" where
  "fetch_data_from_bio alloc reset s =
     (case wbio s of
        None \<Rightarrow> (- 1, None, s)
      | Some crypted_data \<Rightarrow>
          if \<not> alloc then (- 1, None, s)
          else if \<not> reset then (- 1, Some crypted_data, s)
          else (int (length crypted_data), Some crypted_data, s \<lparr>wbio := Some []\<rparr>))"

definition ssl_encrypt ::
  "(ssl_obj \<Rightarrow> bytes \<Rightarrow> int \<times> ssl_obj) \<Rightarrow> bool \<Rightarrow> bool \<Rightarrow> ssl_obj \<Rightarrow> bytes \<Rightarrow> int \<times> bytes option \<times> ssl_obj" where
  "ssl_encrypt SSL_write alloc reset s data =
     (if wbio s \<noteq> Some [] then (- 1, None, s)
      else case SSL_write s data of
             (i, s) \<Rightarrow> if i < 0 then (- 1, None, s) else fetch_data_from_bio alloc reset s)"

definition ssl_shutdown ::
  "(ssl_obj \<Rightarrow> int \<times> ssl_obj) \<Rightarrow> bool \<Rightarrow> bool \<Rightarrow> ssl_obj \<Rightarrow> int \<times> bytes option \<times> ssl_obj" where
  "ssl_shutdown SSL_shutdown alloc reset s =
     (case SSL_shutdown s of
        (i, s) \<Rightarrow> if i < 0 then (- 1, None, s) else fetch_data_from_bio alloc reset s)"

text \<open>\<open>SSL_read s n\<close> returns its code, the bytes stored and the object. \<open>decrypt_loop\<close> is the \<open>while\<close> loop
  of \<open>ssl_decrypt\<close>, with \<open>i\<close> bytes in the buffer \<open>out\<close> of \<open>len\<close> bytes.\<close>

function decrypt_loop ::
  "(ssl_obj \<Rightarrow> nat \<Rightarrow> int \<times> bytes \<times> ssl_obj) \<Rightarrow> nat \<Rightarrow> int \<Rightarrow> nat \<Rightarrow> bytes \<Rightarrow> ssl_obj \<Rightarrow> nat \<times> bytes \<times> ssl_obj" where
  "decrypt_loop SSL_read len ret i out s =
     (if ret > 0 \<and> rbio s \<noteq> Some [] \<and> i < len
      then case SSL_read s (len - i) of
             (ret, d, s) \<Rightarrow>
               if ret > 0 then decrypt_loop SSL_read len ret (i + nat ret) (out @ d) s
               else (i, out, s)
      else (i, out, s))"
  by pat_completeness auto
termination
  by (relation "measure (\<lambda>(rd, len, ret, i, out, s). len - i)") auto

declare decrypt_loop.simps [simp del]

definition ssl_decrypt ::
  "(ssl_obj \<Rightarrow> nat \<Rightarrow> int \<times> bytes \<times> ssl_obj) \<Rightarrow> int \<Rightarrow> bool \<Rightarrow> ssl_obj \<Rightarrow> bytes \<Rightarrow> int \<times> bytes option \<times> ssl_obj" where
  "ssl_decrypt SSL_read written alloc s data =
     (if rbio s \<noteq> Some [] then (- 1, None, s)
      else if written \<noteq> int (length data) then (- 1, None, s)
      else let s = s \<lparr>rbio := Some data\<rparr>; len = length data
           in if \<not> alloc then (- 1, None, s)
              else case SSL_read s len of
                (ret, d, s) \<Rightarrow>
                  if ret \<le> 0 then (ret, Some [], s)
                  else case decrypt_loop SSL_read len ret (nat ret) d s of
                         (i, out, s) \<Rightarrow> (int i, Some out, s))"

section \<open>Size of the derived key\<close>

lemma dh_key_loop_some:
  assumes "\<forall>k m. length (hmac k m) = SHA256_DIGEST_LENGTH"
  shows "\<exists>buf. dh_key_loop hmac secret i n out = Some buf \<and> length buf = n * SHA256_DIGEST_LENGTH"
proof (induction n arbitrary: i out)
  case (Suc n)
  define o' where "o' = hmac secret (out @ uniq @ le_bytes 4 (word_of_nat i :: u32))"
  from Suc [of "Suc i" o'] obtain buf
    where "dh_key_loop hmac secret (Suc i) n o' = Some buf" "length buf = n * SHA256_DIGEST_LENGTH"
    by blast
  moreover have "length o' = SHA256_DIGEST_LENGTH" using assms by (simp add: o'_def)
  ultimately show ?case by (simp add: o'_def [symmetric] Let_def)
qed simp

text \<open>Setting bit 6 and clearing bit 7 leaves a byte from 64 to 127.\<close>

lemma top_byte_range:
  fixes b :: byte
  shows "64 \<le> uint ((b OR push_bit 6 1) AND 0x7f)" "uint ((b OR push_bit 6 1) AND 0x7f) \<le> 127"
proof -
  let ?c = "(b OR push_bit 6 1) AND 0x7f"
  have m: "?c = take_bit 7 ?c"
    by (rule bit_word_eqI) (auto simp: bit_simps mask_eq_exp_minus_1 take_bit_eq_mask numeral_eq_Suc less_Suc_eq)
  then have "uint ?c < 2 ^ 7"
    by (metis take_bit_int_less_exp unsigned_take_bit_eq)
  then show "uint ?c \<le> 127" by simp
  have b: "bit (uint ?c) 6" by (simp add: bit_simps)
  show "64 \<le> uint ?c"
  proof (rule ccontr)
    assume "\<not> 64 \<le> uint ?c"
    then have "take_bit 6 (uint ?c) = uint ?c" by (intro take_bit_int_eq_self) simp_all
    with b show False by (metis bit_take_bit_iff less_irrefl)
  qed
qed


text \<open>A big-endian number is governed by its first byte.\<close>

lemma be_val_Cons: "be_val (b # bs) = uint b * 256 ^ length bs + be_val bs"
  by (simp add: be_val_def le_val_append)

lemma be_val_bounds: "0 \<le> be_val bs" "be_val bs < 256 ^ length bs"
  using le_val_bound [of "rev bs"] by (simp_all add: be_val_def)

lemma dh_key_some:
  assumes "\<forall>k m. length (hmac k m) = SHA256_DIGEST_LENGTH"
  shows "\<exists>n. telex_ssl_get_dh_key hmac secret = Some n \<and> 2 ^ 1022 \<le> n \<and> n < 2 ^ 1023"
proof -
  obtain buf where buf: "dh_key_loop hmac (take 16 secret) 0 (128 div SHA256_DIGEST_LENGTH) [] = Some buf"
    "length buf = 128"
    using dh_key_loop_some [OF assms, of "take 16 secret" 0 4 "[]"] by (auto simp: SHA256_DIGEST_LENGTH_def)
  then obtain b bs where bs: "buf = b # bs" "length bs = 127" by (cases buf) auto
  define c where "c = (b OR push_bit 6 1) AND 0x7f"
  have c: "64 \<le> uint c" "uint c \<le> 127" unfolding c_def by (rule top_byte_range)+
  have "telex_ssl_get_dh_key hmac secret = Some (be_val (c # bs))"
    unfolding telex_ssl_get_dh_key_def buf(1) by (simp add: bs(1) c_def Let_def)
  moreover have "2 ^ 1022 = 64 * (256 :: int) ^ 127" "2 ^ 1023 = 128 * (256 :: int) ^ 127" by simp_all
  moreover have "64 * 256 ^ 127 \<le> uint c * 256 ^ 127" "uint c * 256 ^ 127 \<le> 127 * (256 :: int) ^ 127"
    using c by (intro mult_right_mono; simp)+
  moreover have "0 \<le> be_val bs" "be_val bs < 256 ^ 127" using be_val_bounds [of bs] bs(2) by simp_all
  moreover have "be_val (c # bs) = uint c * 256 ^ 127 + be_val bs" using be_val_Cons [of c bs] bs(2) by simp
  ultimately show ?thesis by (intro exI [of _ "be_val (c # bs)"]) linarith
qed

section \<open>Agreement on the session keys\<close>

text \<open>Documented behaviour of OpenSSL that the station relies on: the master secret is a function of the
  premaster secret and the two random values (RFC 2246), and setting up the key block and switching
  the cipher state keep the session, the random values and eight-byte sequence numbers of zeros.\<close>

definition tls1_contract :: "openssl \<Rightarrow> (bytes \<Rightarrow> bytes \<Rightarrow> bytes \<Rightarrow> bytes) \<Rightarrow> bool" where
  "tls1_contract E prf \<longleftrightarrow>
     (\<forall>s secret. tls1_generate_master_secret E s secret = prf secret (client_random (s3 s)) (server_random (s3 s))) \<and>
     (\<forall>s s'. tls1_setup_key_block E s = Some s' \<longrightarrow>
        master_key s' = master_key s \<and> session_cipher s' = session_cipher s \<and> ssl_type s' = ssl_type s \<and>
        read_sequence (s3 s') = read_sequence (s3 s) \<and> write_sequence (s3 s') = write_sequence (s3 s)) \<and>
     (\<forall>s w s'. tls1_change_cipher_state E s w = Some s' \<longrightarrow>
        master_key s' = master_key s \<and> session_cipher s' = session_cipher s \<and> ssl_type s' = ssl_type s \<and>
        (read_sequence (s3 s) = replicate 8 0 \<longrightarrow> read_sequence (s3 s') = replicate 8 0) \<and>
        (write_sequence (s3 s) = replicate 8 0 \<longrightarrow> write_sequence (s3 s') = replicate 8 0))"

lemma switch_live:
  assumes "tls1_contract E prf" "switch_to_telex_crypto E s secret is_server = Live s' wiped"
  shows "master_key s' = prf secret (client_random (s3 s)) (server_random (s3 s))"
    and "ssl_type s' = (if is_server \<noteq> 0 then SSL_ST_ACCEPT else SSL_ST_CONNECT)"
    and "session_cipher s' = Some (ssl3_get_cipher_by_char E [0x00, 0x39])"
    and "read_sequence (s3 s') = [0, 0, 0, 0, 0, 0, 0, 1]" "write_sequence (s3 s') = [0, 0, 0, 0, 0, 0, 0, 1]"
    and "wiped = replicate (length secret) 0"
  using assms(2)
  by (auto simp: switch_to_telex_crypto_def set_role_def Let_def numeral_eq_Suc
      split: option.splits if_splits dest!: assms(1) [unfolded tls1_contract_def, THEN conjunct2, THEN conjunct2, rule_format]
        assms(1) [unfolded tls1_contract_def, THEN conjunct2, THEN conjunct1, rule_format]
      simp: assms(1) [unfolded tls1_contract_def, THEN conjunct1, rule_format])

lemma get_live_switch:
  assumes "get_live_ssl_obj E secret cr sr is_server = Live s' wiped"
  obtains s where "switch_to_telex_crypto E s secret is_server = Live s' wiped"
    "client_random (s3 s) = take 32 cr" "server_random (s3 s) = take 32 sr"
proof -
  from assms obtain s where "switch_to_telex_crypto E (s \<lparr>rbio := Some [], wbio := Some [],
      s3 := (s3 s) \<lparr>client_random := take 32 cr, server_random := take 32 sr\<rparr>\<rparr>) secret is_server = Live s' wiped"
    unfolding get_live_ssl_obj_def Let_def by (auto split: option.splits if_splits live.splits)
  then show ?thesis by (rule that) simp_all
qed

text \<open>The premaster secret. Both sides of the Diffie-Hellman exchange compute the same power, so that
  whoever knows the client's exponent knows the secret.\<close>

lemma dh_commute:
  fixes g p :: int
  shows "(g ^ a mod p) ^ b mod p = (g ^ b mod p) ^ a mod p"
  by (simp add: power_mod power_mult [symmetric] mult.commute)

section \<open>Decryption\<close>

text \<open>What \<open>SSL_read\<close> promises: a positive code is the number of bytes stored, at most the room given.\<close>

definition read_contract :: "(ssl_obj \<Rightarrow> nat \<Rightarrow> int \<times> bytes \<times> ssl_obj) \<Rightarrow> bool" where
  "read_contract SSL_read \<longleftrightarrow>
     (\<forall>s n ret d s'. SSL_read s n = (ret, d, s') \<longrightarrow> 0 < ret \<longrightarrow> length d = nat ret \<and> length d \<le> n)"

lemma read_contractD:
  "read_contract rd \<Longrightarrow> rd s n = (ret, d, s') \<Longrightarrow> 0 < ret \<Longrightarrow> length d = nat ret \<and> length d \<le> n"
  unfolding read_contract_def by blast

lemma decrypt_loop_bounds:
  assumes "read_contract rd" "decrypt_loop rd len ret i out s = (i', out', s')" "length out = i" "i \<le> len"
  shows "length out' = i' \<and> i' \<le> len \<and> (\<exists>more. out' = out @ more)"
  using assms
proof (induction rd len ret i out s rule: decrypt_loop.induct)
  case (1 rd len ret i out s)
  obtain r d t where rd: "rd s (len - i) = (r, d, t)" by (cases "rd s (len - i)")
  show ?case
  proof (cases "0 < ret \<and> rbio s \<noteq> Some [] \<and> i < len \<and> 0 < r")
    case True
    then have d: "length d = nat r" "length d \<le> len - i"
      using read_contractD [OF 1(2) rd] by simp_all
    have "decrypt_loop rd len r (i + nat r) (out @ d) t = (i', out', s')"
      using 1(3) True rd by (subst (asm) decrypt_loop.simps) simp
    then have "length out' = i' \<and> i' \<le> len \<and> (\<exists>more. out' = (out @ d) @ more)"
      using 1(1) [OF _ rd [symmetric] refl] True 1(2,4,5) d by (simp add: le_diff_conv2)
    then show ?thesis by auto
  next
    case False
    with 1(3-) rd show ?thesis by (subst (asm) decrypt_loop.simps) (auto split: if_splits)
  qed
qed

lemma decrypt_loop_stops:
  assumes "decrypt_loop rd len ret i out s = (i', out', s')" "0 < ret"
  shows "i' = len \<or> len < i' \<or> rbio s' = Some [] \<or> (\<exists>t r d. rd t (len - i') = (r, d, s') \<and> r \<le> 0)"
  using assms
proof (induction rd len ret i out s rule: decrypt_loop.induct)
  case (1 rd len ret i out s)
  obtain r d t where rd: "rd s (len - i) = (r, d, t)" by (cases "rd s (len - i)")
  show ?case
  proof (cases "rbio s \<noteq> Some [] \<and> i < len")
    case True
    with 1(2,3) rd show ?thesis
      using 1(1) [OF _ rd [symmetric] refl]
      by (subst (asm) decrypt_loop.simps) (fastforce split: if_splits simp: not_less)
  next
    case False
    with 1(2,3) show ?thesis by (subst (asm) decrypt_loop.simps) auto
  qed
qed

section \<open>Properties\<close>

text \<open>The exponent derived from a tag secret has exactly 1023 bits, as a private key of a 1024-bit
  group must, and the derivation does not fail, for every HMAC whose digests have 32 bytes.\<close>

lemma dh_key_bits:
  assumes "\<forall>k m. length (hmac k m) = SHA256_DIGEST_LENGTH"
  shows "\<exists>n. telex_ssl_get_dh_key hmac secret = Some n \<and> 2 ^ 1022 \<le> n \<and> n < 2 ^ 1023"
  by (rule dh_key_some [OF assms])

text \<open>C12: two objects made from the same secret and random values, one for each role, hold the same
  master key and cipher, expect sequence number 1 in both directions, have opposite roles, and the
  secret is erased from the caller's buffer.\<close>

theorem live_ssl_agree:
  assumes "tls1_contract E prf"
    and "get_live_ssl_obj E secret cr sr 1 = Live station w1"
    and "get_live_ssl_obj E secret cr sr 0 = Live client w0"
  shows "master_key station = prf secret (take 32 cr) (take 32 sr) \<and> master_key client = master_key station \<and>
    session_cipher client = session_cipher station \<and>
    write_sequence (s3 client) = read_sequence (s3 station) \<and> write_sequence (s3 station) = read_sequence (s3 client) \<and>
    ssl_type station = SSL_ST_ACCEPT \<and> ssl_type client = SSL_ST_CONNECT \<and>
    w1 = replicate (length secret) 0 \<and> w0 = replicate (length secret) 0"
proof -
  obtain s where s: "switch_to_telex_crypto E s secret 1 = Live station w1"
    "client_random (s3 s) = take 32 cr" "server_random (s3 s) = take 32 sr"
    by (rule get_live_switch [OF assms(2)])
  obtain t where t: "switch_to_telex_crypto E t secret 0 = Live client w0"
    "client_random (s3 t) = take 32 cr" "server_random (s3 t) = take 32 sr"
    by (rule get_live_switch [OF assms(3)])
  show ?thesis
    using switch_live [OF assms(1) s(1)] switch_live [OF assms(1) t(1)] s(2,3) t(2,3) by simp
qed

definition s3_0 :: ssl3_state where
  "s3_0 = \<lparr>read_sequence = replicate 8 0, write_sequence = replicate 8 0, client_random = [], server_random = [],
     previous_client_finished = [], previous_server_finished = [], finish_md = [], new_cipher = None,
     new_sym_enc = None, new_hash = None, need_empty_fragments = 0, wpend_buf = None, message_size = 0,
     message_type = 0, next_state = 0\<rparr>"

definition ssl_0 :: ssl_obj where
  "ssl_0 = \<lparr>ssl_type = SSL_ST_CONNECT, ssl_method = TLSv1_client_method, version = 0x301, client_version = 0,
     rwstate_nothing = False, in_handshake = 0, handshake_is_connect = False, server = 0, new_session = 0,
     quiet_shutdown = 0, shutdown = 0, state_ok = False, rstate_read_header = False, init_buf = False,
     init_msg = False, init_num = 0, init_off = 0, packet = False, packet_length = 0, read_ahead = 0,
     msg_callback = False, hit = 0, cipher_list = False, cipher_list_by_id = False, enc_read_ctx = False,
     read_hash = False, expand = False, enc_write_ctx = False, write_hash = False, compress = False,
     info_callback = False, error = 0, error_code = 0, has_ctx = True, verify_ok = False, client_CA = False,
     references = 1, tlsext_status_type = - 1, tlsext_status_expected = 0, servername_done = 0,
     tlsext_ocsp_resplen = - 1, tlsext_ticket_expected = 0, initial_ctx_set = False, s3 = s3_0,
     session_cipher = None, master_key = [], rbio = None, wbio = None, enc_read_iv = [], enc_write_iv = []\<rparr>"

definition openssl_0 :: openssl where
  "openssl_0 = \<lparr>SSL_new = Some ssl_0, ssl_get_new_session = Some, ssl3_setup_buffers = id,
     ssl3_get_cipher_by_char = length, tls1_generate_master_secret = (\<lambda>s k. k @ client_random (s3 s) @ server_random (s3 s)),
     tls1_setup_key_block = Some, tls1_change_cipher_state = (\<lambda>s w. Some s)\<rparr>"

lemma openssl_0_contract: "tls1_contract openssl_0 (\<lambda>k c s. k @ c @ s)"
  by (simp add: tls1_contract_def openssl_0_def)

lemma openssl_0_live: "\<exists>s w. get_live_ssl_obj openssl_0 secret cr sr is_server = Live s w"
  by (auto simp: get_live_ssl_obj_def openssl_0_def live_start_def set_role_def ssl_0_def fresh_asserts_def
      session_asserts_def ext_asserts_def switch_to_telex_crypto_def Let_def)

theorem live_ssl_agree_witness:
  "\<exists>station client w. get_live_ssl_obj openssl_0 [1, 2] [3] [4] 1 = Live station w \<and>
     get_live_ssl_obj openssl_0 [1, 2] [3] [4] 0 = Live client w \<and>
     master_key station = [1, 2, 3, 4] \<and> master_key client = master_key station"
proof -
  obtain s w where s: "get_live_ssl_obj openssl_0 [1, 2] [3] [4] 1 = Live s w"
    using openssl_0_live by blast
  obtain t v where t: "get_live_ssl_obj openssl_0 [1, 2] [3] [4] 0 = Live t v"
    using openssl_0_live by blast
  from live_ssl_agree [OF openssl_0_contract s t] s t show ?thesis by simp
qed

text \<open>C30: \<open>ssl_decrypt\<close> always returns. A positive result is the number of bytes stored, which never
  exceeds the buffer, and the loop stops only when the buffer is full, the input is used up, or
  \<open>SSL_read\<close> returns no data.\<close>

theorem ssl_decrypt_bounds:
  assumes "read_contract rd" "ssl_decrypt rd written alloc s data = (i, out, s')" "0 < i"
  shows "\<exists>buf. out = Some buf \<and> i = int (length buf) \<and> length buf \<le> length data \<and>
    (length buf = length data \<or> rbio s' = Some [] \<or> (\<exists>t r d. rd t (length data - length buf) = (r, d, s') \<and> r \<le> 0))"
proof -
  define s1 where "s1 = s \<lparr>rbio := Some data\<rparr>"
  obtain r d t where rd: "rd s1 (length data) = (r, d, t)" by (cases "rd s1 (length data)")
  with assms(2,3) have r: "0 < r" and out: "(i, out, s') =
      (case decrypt_loop rd (length data) r (nat r) d t of (i, out, s) \<Rightarrow> (int i, Some out, s))"
    by (auto simp: ssl_decrypt_def s1_def [symmetric] Let_def split: if_splits)
  obtain j b t' where l: "decrypt_loop rd (length data) r (nat r) d t = (j, b, t')"
    by (cases "decrypt_loop rd (length data) r (nat r) d t")
  have "length b = j \<and> j \<le> length data"
    using decrypt_loop_bounds [OF assms(1) l] read_contractD [OF assms(1) rd r] by simp
  with decrypt_loop_stops [OF l r] show ?thesis using out l by auto
qed

theorem ssl_decrypt_bounds_witness:
  "let rd = (\<lambda>(s :: ssl_obj) (n :: nat). case rbio s of
         Some (b # bs) \<Rightarrow> if n = 0 then (- 1 :: int, [], s) else (1, [b], s \<lparr>rbio := Some bs\<rparr>)
       | _ \<Rightarrow> (- 1, [], s))
   in read_contract rd \<and>
      ssl_decrypt rd 3 True (ssl_0 \<lparr>rbio := Some []\<rparr>) [7, 8, 9] = (3, Some [7, 8, 9], ssl_0 \<lparr>rbio := Some []\<rparr>)"
proof -
  define rd where "rd = (\<lambda>(s :: ssl_obj) (n :: nat). case rbio s of
         Some (b # bs) \<Rightarrow> if n = 0 then (- 1 :: int, [], s) else (1, [b], s \<lparr>rbio := Some bs\<rparr>)
       | _ \<Rightarrow> (- 1, [], s))"
  have c: "read_contract rd"
    by (auto simp: read_contract_def rd_def split: option.splits list.splits if_splits)
  have d: "ssl_decrypt rd 3 True (ssl_0 \<lparr>rbio := Some []\<rparr>) [7, 8, 9] = (3, Some [7, 8, 9], ssl_0 \<lparr>rbio := Some []\<rparr>)"
    by (simp add: ssl_decrypt_def rd_def decrypt_loop.simps Let_def)
  from ssl_decrypt_bounds [OF c d] c d show ?thesis by (simp add: rd_def [symmetric])
qed

end
