(* ===== verification/Bronnect.thy ===== *)
theory Bronnect
  imports Tcp_Forge Flow_Blocker Ssl_Api
begin

text \<open>
  The connection manager of the station: \<open>src/telex-station/station/net/bronnect.c\<close> and
  \<open>watchdog.c\<close>, compiled with \<open>WATCHDOG\<close> and \<open>TELEX_LEAK_KEY\<close>. For every flow that Bro hands over, it
  connects to the service, takes over the client's TCP connection, and forwards in both directions.

  A \<open>ConnectionState\<close> is a block of a heap; \<open>live\<close> is the set of blocks that are allocated. An event
  is registered with libevent as long as its flag \<open>ev_added\<close> is set. An event that stays registered
  although its last pointer is overwritten or its memory freed is moved to \<open>orphans\<close>. What the system
  calls, OpenSSL and the other processes return is the argument \<open>e\<close> of the handlers. The results of the
  handlers are states or faults. The contents of the SSL object are not followed after it has been
  created.
\<close>

section \<open>State\<close>

datatype ssl_error =
  SSL_ERROR_NONE | SSL_ERROR_SSL | SSL_ERROR_WANT_READ | SSL_ERROR_WANT_WRITE | SSL_ERROR_WANT_X509_LOOKUP
| SSL_ERROR_SYSCALL | SSL_ERROR_ZERO_RETURN | SSL_ERROR_WANT_CONNECT | SSL_ERROR_WANT_ACCEPT

datatype fault = Assertion | Null_Dereference | Use_After_Free | Out_Of_Bounds | Exit int | Blocked

datatype callback = On_telex_read | On_read_ready | On_write_ready | On_finish_connect

record io_event =
  ev_fd :: int
  ev_cb :: callback
  ev_persist :: bool
  ev_added :: bool

text \<open>\<open>ev_watchdog\<close> is \<open>None\<close> for \<open>NULL\<close>, \<open>Some None\<close> when the timer is not running, and \<open>Some (Some t)\<close>
  when it expires at \<open>t\<close>. The arrays \<open>client_ready\<close> and \<open>service_ready\<close> are split into their members.\<close>

record ConnectionState =
  cnum :: int
  telex_conn :: int
  service_conn :: int
  client_conn :: int
  first_telex_record :: int
  flow_state :: flow
  ev_telex_read :: "io_event option"
  ev_service_read :: "io_event option"
  ev_service_write :: "io_event option"
  ev_client_read :: "io_event option"
  ev_client_write :: "io_event option"
  ev_watchdog :: "nat option option"
  ssl :: "ssl_obj option"
  client_ready_read :: bool
  client_ready_write :: bool
  service_ready_read :: bool
  service_ready_write :: bool
  cleanup_waiting :: ssl_error
  state :: int
  key_port :: int
  t_created :: nat
  t_last_data :: nat
  t_cleanup :: nat
  t_watchdog :: nat

text \<open>The argument of the \<open>ioctl\<close> that creates the forged socket (\<open>linuxmod/tcp_sk_forge.h\<close>).\<close>

record sock_state =
  sk_sport :: u16
  sk_dport :: u16
  sk_saddr :: u32
  sk_daddr :: u32
  sk_mss_clamp :: u32
  sk_rcv_nxt :: u32
  sk_rcv_wup :: u32
  sk_snd_nxt :: u32
  sk_snd_una :: u32
  sk_rcv_tstamp :: u32
  sk_snd_wnd :: u32
  sk_mss_cache :: u32
  sk_advmss :: u16
  sk_ts_recent :: u32
  sk_ts_val :: u32
  sk_tstamp_ok :: byte
  sk_sack_ok :: byte
  sk_wscale_ok :: byte
  sk_snd_wscale :: byte
  sk_rcv_wscale :: byte
  sk_ecn_ok :: byte
  sk_rcv_wnd :: u32

text \<open>The members of the init record that are read. The length members of \<open>dh_params\<close> are the lengths of
  the lists.\<close>

record dh_params =
  dh_p :: bytes
  dh_pub_key :: bytes
  dh_client_random :: bytes
  dh_server_random :: bytes
  dh_client_iv :: bytes
  dh_server_iv :: bytes

record bro_init_data =
  init_flow :: flow
  shared_secret :: bytes
  init_port :: u16
  dh :: dh_params

record bron =
  heap :: "nat \<Rightarrow> ConnectionState"
  live :: "nat set"
  connections :: "nat set"
  orphans :: "(nat \<times> io_event) list"
  open_fds :: "int set"
  requests :: "bytes list"
  forged :: "sock_state list"
  to_service :: "(nat \<times> bytes) list"
  to_client :: "(nat \<times> bytes) list"
  logged :: "string list"
  stale :: "nat list"
  nclients :: int
  up_bytes :: u64
  down_bytes :: u64
  active_connections :: u32
  total_connections :: u32

text \<open>What one run of a handler receives from outside. \<open>shutdown1\<close> and \<open>shutdown2\<close> are the results of the
  two calls of \<open>SSL_shutdown\<close> during a cleanup, \<open>shutdown_err\<close> the error of the second.\<close>

record bron_env =
  now :: nat
  ssl_read_data :: bytes
  ssl_read_err :: ssl_error
  service_sends :: "int list"
  local_port :: int
  service_recv :: int
  service_data :: bytes
  recv_again :: bool
  ssl_write_err :: ssl_error
  shutdown1 :: int
  shutdown2 :: int
  shutdown_err :: ssl_error
  unblock_sends :: "int list"
  hdr_status :: int
  rec_type :: u16
  rec_len :: u16
  init_status :: int
  init_data :: bro_init_data
  svc_resolved :: bool
  svc_sock :: int
  svc_connect :: int
  svc_inprogress :: bool
  raw_received :: int
  raw_pkt :: bytes
  fake_listen :: int
  fake_bind :: int
  fake_conn :: int
  client_sends :: "int list"
  sockopt_ret :: int
  sockopt_val :: int
  hmac :: "bytes \<Rightarrow> bytes \<Rightarrow> bytes"
  dh_new :: bool
  dh_compute :: "int \<Rightarrow> int \<Rightarrow> int \<Rightarrow> bytes option"
  ossl :: openssl

type_synonym result = "fault + bron"

section \<open>Memory and events\<close>

definition upd :: "nat \<Rightarrow> (ConnectionState \<Rightarrow> ConnectionState) \<Rightarrow> bron \<Rightarrow> bron" where
  "upd p f w = w \<lparr>heap := (heap w)(p := f (heap w p))\<rparr>"

definition close_fd :: "int \<Rightarrow> bron \<Rightarrow> bron" where
  "close_fd fd w = w \<lparr>open_fds := open_fds w - {fd}\<rparr>"

definition open_fd :: "int \<Rightarrow> bron \<Rightarrow> bron" where
  "open_fd fd w = (if fd < 0 then w else w \<lparr>open_fds := insert fd (open_fds w)\<rparr>)"

definition event_add :: "io_event option \<Rightarrow> io_event option" where
  "event_add ev = map_option (\<lambda>x. x \<lparr>ev_added := True\<rparr>) ev"

definition event_del :: "io_event option \<Rightarrow> io_event option" where
  "event_del ev = map_option (\<lambda>x. x \<lparr>ev_added := False\<rparr>) ev"

text \<open>Losing the pointer to an event.\<close>

definition drop_event :: "nat \<Rightarrow> io_event option \<Rightarrow> bron \<Rightarrow> bron" where
  "drop_event p ev w =
     (case ev of
        None \<Rightarrow> w
      | Some x \<Rightarrow> if ev_added x then w \<lparr>orphans := orphans w @ [(p, x)]\<rparr> else w)"

text \<open>The end of a connection deletes an event, unless it is marked ready, and frees it.\<close>

definition free_event :: "nat \<Rightarrow> bool \<Rightarrow> io_event option \<Rightarrow> bron \<Rightarrow> bron" where
  "free_event p ready ev w = drop_event p (if ready then ev else event_del ev) w"

section \<open>The watchdog\<close>

definition WATCHDOG_TIMEOUT :: nat where "WATCHDOG_TIMEOUT = 3600"

definition WATCHDOG_S0_TIMEOUT :: nat where "WATCHDOG_S0_TIMEOUT = 120"

text \<open>\<open>pet_watchdog\<close> is also called on states that have just been freed. The access is recorded; it finds
  the null pointer that \<open>cleanup_connection_after_ssl\<close> has left in \<open>ev_watchdog\<close>.\<close>

definition pet_watchdog :: "bron_env \<Rightarrow> nat \<Rightarrow> bron \<Rightarrow> bron" where
  "pet_watchdog e p w =
     (let w = (if p \<in> live w then w else w \<lparr>stale := stale w @ [p]\<rparr>)
      in if ev_watchdog (heap w p) \<noteq> None
         then upd p (\<lambda>st. st \<lparr>ev_watchdog := Some (Some (now e + WATCHDOG_TIMEOUT))\<rparr>) w
         else w)"

definition initialize_watchdog :: "bron_env \<Rightarrow> nat \<Rightarrow> bron \<Rightarrow> bron" where
  "initialize_watchdog e p w =
     (let timeout = (if state (heap w p) = 0 then WATCHDOG_S0_TIMEOUT else WATCHDOG_TIMEOUT)
      in upd p (\<lambda>st. st \<lparr>ev_watchdog := Some (Some (now e + timeout))\<rparr>) w)"

section \<open>The end of a connection\<close>

definition close_telex_connection :: "nat \<Rightarrow> bron \<Rightarrow> bron" where
  "close_telex_connection p w =
     (let st = heap w p;
          w = (if telex_conn st \<ge> 0
               then upd p (\<lambda>st. st \<lparr>telex_conn := - 2\<rparr>) (close_fd (telex_conn st) w) else w)
      in upd p (\<lambda>st. st \<lparr>ev_telex_read := None\<rparr>) w)"

definition unblock_request :: "flow \<Rightarrow> flow4" where
  "unblock_request fl = \<lparr>addr1 = orig_h fl, port1 = orig_p fl, addr2 = resp_h fl, port2 = resp_p fl\<rparr>"

definition unblock :: "bron_env \<Rightarrow> nat \<Rightarrow> bron \<Rightarrow> result" where
  "unblock e p w =
     (case telex_remote_mod_flow (unblock_sends e) (unblock_request (flow_state (heap w p))) 0 of
        None \<Rightarrow> Inl Blocked
      | Some (r, out) \<Rightarrow> Inr (w \<lparr>requests := requests w @ [out]\<rparr>))"

definition free_state :: "nat \<Rightarrow> bron \<Rightarrow> bron" where
  "free_state p w =
     (let w = upd p (\<lambda>st. st \<lparr>ev_watchdog := None\<rparr>) w;
          st = heap w p;
          w = free_event p False (ev_telex_read st) w;
          w = free_event p (service_ready_read st) (ev_service_read st) w;
          w = free_event p (service_ready_write st) (ev_service_write st) w;
          w = free_event p (client_ready_read st) (ev_client_read st) w;
          w = free_event p (client_ready_write st) (ev_client_write st) w;
          w = (if telex_conn st \<ge> 0 then close_fd (telex_conn st) w else w);
          w = (if service_conn st \<ge> 0 then close_fd (service_conn st) w else w)
      in w \<lparr>live := live w - {p}, active_connections := active_connections w - 1\<rparr>)"

definition detach :: "nat \<Rightarrow> bron \<Rightarrow> bron" where
  "detach p w =
     (let w = upd p (\<lambda>st. st \<lparr>state := 6, ssl := None\<rparr>) w;
          w = w \<lparr>connections := connections w - {p}\<rparr>;
          fd = client_conn (heap w p)
      in if fd \<ge> 0 then upd p (\<lambda>st. st \<lparr>client_conn := - 1\<rparr>) (close_fd fd w) else w)"

definition cleanup_connection_after_ssl :: "bron_env \<Rightarrow> nat \<Rightarrow> bool \<Rightarrow> bron \<Rightarrow> result" where
  "cleanup_connection_after_ssl e p unblk w =
     and_then (if unblk then unblock e p (detach p w) else Inr (detach p w)) (\<lambda>w. Inr (free_state p w))"

definition cleanup_connection_ssl_try_shutdown :: "bron_env \<Rightarrow> nat \<Rightarrow> bron \<Rightarrow> result" where
  "cleanup_connection_ssl_try_shutdown e p w =
     (if ssl (heap w p) = None then cleanup_connection_after_ssl e p True w
      else let w = upd p (\<lambda>st. st \<lparr>state := 5\<rparr>) w
           in if shutdown2 e < 0
              then let w = upd p (\<lambda>st. st \<lparr>cleanup_waiting := shutdown_err e\<rparr>) w
                   in if shutdown_err e = SSL_ERROR_WANT_READ \<or> shutdown_err e = SSL_ERROR_WANT_WRITE then Inr w
                      else cleanup_connection_after_ssl e p True w
              else cleanup_connection_after_ssl e p True w)"

definition cleanup_connection_ssl :: "bron_env \<Rightarrow> nat \<Rightarrow> bron \<Rightarrow> result" where
  "cleanup_connection_ssl e p w =
     (let w = upd p (\<lambda>st. st \<lparr>t_cleanup := now e\<rparr>) w;
          w = close_telex_connection p w
      in if ssl (heap w p) \<noteq> None
         then if shutdown1 e = 0 then cleanup_connection_ssl_try_shutdown e p w
              else cleanup_connection_after_ssl e p True (upd p (\<lambda>st. st \<lparr>ssl := None\<rparr>) w)
         else cleanup_connection_after_ssl e p (state (heap w p) > 0) w)"

definition cleanup_connection :: "bron_env \<Rightarrow> nat \<Rightarrow> bron \<Rightarrow> result" where
  "cleanup_connection e p w = cleanup_connection_ssl e p w"

definition on_watchdog :: "bron_env \<Rightarrow> nat \<Rightarrow> bron \<Rightarrow> result" where
  "on_watchdog e p w =
     (let w = upd p (\<lambda>st. st \<lparr>t_watchdog := now e\<rparr>) w
      in if state (heap w p) \<ge> 1 then cleanup_connection e p w
         else if state (heap w p) \<ge> 0 then cleanup_connection_after_ssl e p False w
         else Inr w)"

section \<open>Logging\<close>

text \<open>The part of the first line that is logged: the last byte of the buffer is overwritten with a
  terminator, the line ends at the first line feed before any terminator, and after 99 bytes.\<close>

definition log_line_len :: "bytes \<Rightarrow> nat" where
  "log_line_len buf =
     (let str = takeWhile (\<lambda>b. b \<noteq> 0) (butlast buf);
          line_len = (if 10 \<in> set str then length (takeWhile (\<lambda>b. b \<noteq> 10) str) else length buf - 1)
      in if line_len > 99 then 99 else line_len)"

definition log_text :: "ConnectionState \<Rightarrow> int \<Rightarrow> bytes \<Rightarrow> string" where
  "log_text st port line =
     inet_ntop (orig_h (flow_state st)) @ '':'' @ show_nat (unat (ntohs (orig_p (flow_state st)))) @ '' -> '' @
     show_int port @ '' key '' @ show_int (key_port st) @ '' '' @ map (\<lambda>b. char_of (unat b)) line"

definition log_data :: "bron_env \<Rightarrow> nat \<Rightarrow> bytes \<Rightarrow> bron \<Rightarrow> result" where
  "log_data e p buf w =
     (if state (heap w p) = 3 then Inr w
      else let w = upd p (\<lambda>st. st \<lparr>state := 3\<rparr>) w
           in if buf = [] then Inl Assertion
              else let line_len = log_line_len buf
                   in if \<not> line_len < length buf then Inl Assertion
                      else Inr (w \<lparr>logged := logged w @
                        [log_text (heap w p) (local_port e) (takeWhile (\<lambda>b. b \<noteq> 0) (take line_len (butlast buf)))]\<rparr>))"

section \<open>Forwarding\<close>

text \<open>The two forwarding functions return whether the connection is still to be served.\<close>

definition forward_client_to_service :: "bron_env \<Rightarrow> nat \<Rightarrow> bron \<Rightarrow> fault + bool \<times> bron" where
  "forward_client_to_service e p w =
     (if ssl (heap w p) = None then Inl Null_Dereference
      else if ssl_read_err e = SSL_ERROR_NONE
      then if ssl_read_data e = [] then Inl Assertion
           else let w = w \<lparr>up_bytes := up_bytes w + word_of_nat (length (ssl_read_data e))\<rparr>
                in case sendall (service_sends e) (ssl_read_data e) of
                     None \<Rightarrow> Inl Blocked
                   | Some (status, out) \<Rightarrow>
                       and_then (log_data e p (ssl_read_data e) (w \<lparr>to_service := to_service w @ [(p, out)]\<rparr>))
                         (\<lambda>w. if status < 0 then and_then (cleanup_connection e p w) (\<lambda>w. Inr (False, w))
                              else Inr (True, w))
      else if ssl_read_err e = SSL_ERROR_WANT_READ \<or> ssl_read_err e = SSL_ERROR_WANT_WRITE then Inr (True, w)
      else if ssl_read_err e = SSL_ERROR_SYSCALL
           then and_then (cleanup_connection_after_ssl e p True w) (\<lambda>w. Inr (False, w))
      else and_then (cleanup_connection e p w) (\<lambda>w. Inr (False, w)))"

definition forward_service_to_client :: "bron_env \<Rightarrow> nat \<Rightarrow> bron \<Rightarrow> fault + bool \<times> bron" where
  "forward_service_to_client e p w =
     (if client_conn (heap w p) < 0 then Inl Assertion
      else if service_recv e < 0
      then if recv_again e then Inr (True, w)
           else and_then (cleanup_connection e p w) (\<lambda>w. Inr (False, w))
      else if service_recv e = 0 then and_then (cleanup_connection e p w) (\<lambda>w. Inr (False, w))
      else let w = w \<lparr>down_bytes := down_bytes w + word_of_int (service_recv e)\<rparr>
           in if ssl (heap w p) = None then Inl Null_Dereference
              else if ssl_write_err e = SSL_ERROR_NONE
              then Inr (True, w \<lparr>to_client := to_client w @ [(p, service_data e)]\<rparr>)
              else if ssl_write_err e = SSL_ERROR_WANT_WRITE \<or> ssl_write_err e = SSL_ERROR_WANT_READ
              then Inr (True, w)
              else and_then (cleanup_connection e p w) (\<lambda>w. Inr (False, w)))"

definition rearm_down :: "nat \<Rightarrow> bron \<Rightarrow> result" where
  "rearm_down p w =
     (if ev_service_read (heap w p) = None \<or> ev_client_write (heap w p) = None then Inl Null_Dereference
      else Inr (upd p (\<lambda>st. st \<lparr>service_ready_read := False, client_ready_write := False,
             ev_service_read := event_add (ev_service_read st), ev_client_write := event_add (ev_client_write st)\<rparr>) w))"

definition rearm_up :: "nat \<Rightarrow> bron \<Rightarrow> result" where
  "rearm_up p w =
     (if ev_service_write (heap w p) = None \<or> ev_client_read (heap w p) = None then Inl Null_Dereference
      else Inr (upd p (\<lambda>st. st \<lparr>service_ready_write := False, client_ready_read := False,
             ev_service_write := event_add (ev_service_write st), ev_client_read := event_add (ev_client_read st)\<rparr>) w))"

definition try_forward_up :: "bron_env \<Rightarrow> nat \<Rightarrow> bron \<Rightarrow> result" where
  "try_forward_up e p w =
     (if service_ready_write (heap w p) \<and> client_ready_read (heap w p)
      then and_then (forward_client_to_service e p w)
             (\<lambda>(r, w). if r then rearm_up p w else Inr w)
      else Inr w)"

definition try_to_forward :: "bron_env \<Rightarrow> nat \<Rightarrow> bron \<Rightarrow> result" where
  "try_to_forward e p w =
     (let w = upd p (\<lambda>st. st \<lparr>t_last_data := now e\<rparr>) w
      in if service_ready_read (heap w p) \<and> client_ready_write (heap w p)
         then and_then (forward_service_to_client e p w)
                (\<lambda>(r, w). if r then and_then (rearm_down p w) (try_forward_up e p) else Inr w)
         else try_forward_up e p w)"

definition forward_and_pet :: "bron_env \<Rightarrow> nat \<Rightarrow> bron \<Rightarrow> result" where
  "forward_and_pet e p w = and_then (try_to_forward e p w) (\<lambda>w. Inr (pet_watchdog e p w))"

definition on_read_ready :: "bron_env \<Rightarrow> int \<Rightarrow> nat \<Rightarrow> bron \<Rightarrow> result" where
  "on_read_ready e fd p w =
     (if client_conn (heap w p) = fd
      then let w = upd p (\<lambda>st. st \<lparr>client_ready_read := True, ev_client_read := event_del (ev_client_read st)\<rparr>) w
           in if cleanup_waiting (heap w p) = SSL_ERROR_WANT_READ
              then cleanup_connection_ssl_try_shutdown e p w
              else forward_and_pet e p w
      else if service_conn (heap w p) = fd
      then forward_and_pet e p
             (upd p (\<lambda>st. st \<lparr>service_ready_read := True, ev_service_read := event_del (ev_service_read st)\<rparr>) w)
      else cleanup_connection e p w)"

definition on_write_ready :: "bron_env \<Rightarrow> int \<Rightarrow> nat \<Rightarrow> bron \<Rightarrow> result" where
  "on_write_ready e fd p w =
     (if client_conn (heap w p) = fd
      then if cleanup_waiting (heap w p) = SSL_ERROR_WANT_WRITE
           then cleanup_connection_ssl_try_shutdown e p w
           else forward_and_pet e p
                  (upd p (\<lambda>st. st \<lparr>client_ready_write := True, ev_client_write := event_del (ev_client_write st)\<rparr>) w)
      else if service_conn (heap w p) = fd
      then forward_and_pet e p
             (upd p (\<lambda>st. st \<lparr>service_ready_write := True, ev_service_write := event_del (ev_service_write st)\<rparr>) w)
      else cleanup_connection e p w)"

section \<open>Setting up a connection\<close>

definition setup_service_read :: "nat \<Rightarrow> bron \<Rightarrow> bron" where
  "setup_service_read p w =
     upd p (\<lambda>st. st \<lparr>ev_service_read := Some \<lparr>ev_fd = service_conn st, ev_cb = On_read_ready, ev_persist = True,
         ev_added = True\<rparr>, service_ready_read := False\<rparr>) w"

definition fake_sock_state :: "flow \<Rightarrow> sock_state" where
  "fake_sock_state fl = \<lparr>sk_sport = orig_p fl, sk_dport = resp_p fl, sk_saddr = orig_h fl, sk_daddr = resp_h fl,
     sk_mss_clamp = 1460, sk_rcv_nxt = ack (tcp fl), sk_rcv_wup = 0, sk_snd_nxt = seq (tcp fl),
     sk_snd_una = seq (tcp fl) + 1, sk_rcv_tstamp = 0, sk_snd_wnd = ucast (snd_window (tcp fl)), sk_mss_cache = 0,
     sk_advmss = 0, sk_ts_recent = tsecr (cur_ts (tcp fl)), sk_ts_val = tsval (cur_ts (tcp fl)),
     sk_tstamp_ok = (if option_ts (tcp fl) \<noteq> 0 then 1 else 0),
     sk_sack_ok = (if option_sack (tcp fl) \<noteq> 0 then 1 else 0), sk_wscale_ok = 1,
     sk_snd_wscale = ucast (snd_window_scale (tcp fl)), sk_rcv_wscale = ucast (rcv_window_scale (tcp fl)),
     sk_ecn_ok = 0, sk_rcv_wnd = ucast (rcv_window (tcp fl))\<rparr>"

definition setup_fake_socket :: "bron_env \<Rightarrow> nat \<Rightarrow> bron \<Rightarrow> result" where
  "setup_fake_socket e p w =
     (if fake_listen e = - 1 then cleanup_connection e p w
      else if fake_bind e < 0 then cleanup_connection e p w
      else let w = w \<lparr>forged := forged w @ [fake_sock_state (flow_state (heap w p))]\<rparr>;
               w = open_fd (fake_conn e) (upd p (\<lambda>st. st \<lparr>client_conn := fake_conn e\<rparr>) w)
           in if fake_conn e < 0 then cleanup_connection e p w
              else if ssl (heap w p) = None then Inl Null_Dereference
              else if ev_client_read (heap w p) \<noteq> None then Inl Assertion
              else let w = upd p (\<lambda>st. st \<lparr>ev_client_read := Some \<lparr>ev_fd = client_conn st, ev_cb = On_read_ready,
                             ev_persist = True, ev_added = True\<rparr>\<rparr>) w
                   in if ev_client_write (heap w p) \<noteq> None then Inl Assertion
                      else Inr (upd p (\<lambda>st. st \<lparr>ev_client_write := Some \<lparr>ev_fd = client_conn st, ev_cb = On_write_ready,
                             ev_persist = True, ev_added = True\<rparr>\<rparr>) w))"

text \<open>\<open>init_service_connection\<close> overwrites \<open>ev_service_write\<close>.\<close>

definition init_service_connection :: "bron_env \<Rightarrow> nat \<Rightarrow> bron \<Rightarrow> fault + int \<times> bron" where
  "init_service_connection e p w =
     (case start_tcp_connect (svc_resolved e) (svc_sock e) (svc_connect e) (svc_inprogress e) False of
        Connect_Exit \<Rightarrow> Inl (Exit 1)
      | Connect conn need_finish \<Rightarrow>
          (let w = open_fd (svc_sock e) w
           in if conn < 0 then Inr (conn, w)
              else let w = drop_event p (ev_service_write (heap w p)) w
                   in Inr (conn, upd p (\<lambda>st. st \<lparr>ev_service_write :=
                        (if need_finish then Some \<lparr>ev_fd = conn, ev_cb = On_finish_connect, ev_persist = False,
                             ev_added = True\<rparr> else None)\<rparr>) w)))"

definition RECORD_TYPE_INIT :: u16 where "RECORD_TYPE_INIT = 0x0000"

definition RECORD_TYPE_RAW_PKT :: u16 where "RECORD_TYPE_RAW_PKT = 0x0002"

text \<open>The sizes of the packed structures \<open>bro_record_hdr\<close> and \<open>bro_init_data\<close>.\<close>

definition hdr_size :: int where "hdr_size = 4"

definition init_size :: nat where
  "init_size = (4 + 4 + 2 + 2 + 1 + 2 + (4 + 4 + 4 * 2 + 2 * (16 + 4 + 4) + 3)) + 16 + 2 +
     (3 * (2 + 128) + 32 + 32 + 16 + 16 + 1)"

definition recv_msg_header :: "bron_env \<Rightarrow> bool" where
  "recv_msg_header e \<longleftrightarrow> \<not> hdr_status e < hdr_size"

definition recv_init_data :: "bron_env \<Rightarrow> bool" where
  "recv_init_data e \<longleftrightarrow> \<not> init_status e < int init_size"

text \<open>The SSL object for the leaked session key, with the working initialisation vectors in place.\<close>

definition leaked_ssl :: "bron_env \<Rightarrow> bytes \<Rightarrow> fault + ssl_obj" where
  "leaked_ssl e secret =
     (case get_live_ssl_obj (ossl e) secret (dh_client_random (dh (init_data e))) (dh_server_random (dh (init_data e))) 1 of
        Live s wiped \<Rightarrow> Inr (s \<lparr>enc_read_iv := take 16 (dh_client_iv (dh (init_data e))),
                              enc_write_iv := take 16 (dh_server_iv (dh (init_data e)))\<rparr>)
      | Assert_Failure \<Rightarrow> Inl Assertion
      | _ \<Rightarrow> Inl (Exit (- 1)))"

definition leak_key :: "bron_env \<Rightarrow> nat \<Rightarrow> bron \<Rightarrow> result" where
  "leak_key e p w =
     (case telex_ssl_get_dh_key (hmac e) (shared_secret (init_data e)) of
        None \<Rightarrow> Inl Assertion
      | Some client_priv \<Rightarrow>
          (case telex_get_shared_secret (dh_new e) (dh_compute e) client_priv (be_val (dh_p (dh (init_data e))))
                  (be_val (dh_pub_key (dh (init_data e)))) of
             (leaked_len, leaked_shared_secret) \<Rightarrow>
               if leaked_len < 0 then cleanup_connection e p w
               else and_then (leaked_ssl e leaked_shared_secret)
                      (\<lambda>s. Inr (pet_watchdog e p (upd p (\<lambda>st. st \<lparr>ssl := Some s\<rparr>) w)))))"

definition telex_init :: "bron_env \<Rightarrow> nat \<Rightarrow> bron \<Rightarrow> result" where
  "telex_init e p w =
     (if unat (rec_len e) \<noteq> init_size then Inl Assertion
      else if \<not> recv_init_data e then cleanup_connection e p w
      else let w = initialize_watchdog e p (upd p (\<lambda>st. st \<lparr>state := 1\<rparr>) w)
           in if client_conn (heap w p) \<ge> 0 then Inr w
              else let w = upd p (\<lambda>st. st \<lparr>key_port := uint (init_port (init_data e))\<rparr>) w
                   in if \<not> key_port (heap w p) > 0 then Inl Assertion
                      else and_then (init_service_connection e p w)
                        (\<lambda>(conn, w).
                           let w = upd p (\<lambda>st. st \<lparr>service_conn := conn\<rparr>) w
                           in if conn < 0 then cleanup_connection e p w
                              else leak_key e p (upd p (\<lambda>st. st \<lparr>flow_state := init_flow (init_data e)\<rparr>) w)))"

text \<open>The TCP payload of a raw packet; \<open>None\<close> when the header lengths lead out of it.\<close>

definition raw_payload :: "bytes \<Rightarrow> bytes option" where
  "raw_payload pkt =
     (let tcph = 4 * ihl pkt
      in if pkt = [] \<or> length pkt \<le> tcph + 12 then None
         else let off = tcph + 4 * (unat (pkt ! (tcph + 12)) div 16)
              in if length pkt < off then None else Some (drop off pkt))"

definition telex_raw_pkt :: "bron_env \<Rightarrow> nat \<Rightarrow> bron \<Rightarrow> result" where
  "telex_raw_pkt e p w =
     (if state (heap w p) \<noteq> 1 then cleanup_connection e p w
      else let w = upd p (\<lambda>st. st \<lparr>state := 2\<rparr>) w
           in if raw_received e \<noteq> uint (rec_len e) then cleanup_connection e p w
              else and_then (setup_fake_socket e p w)
                (\<lambda>w. case raw_payload (raw_pkt e) of
                       None \<Rightarrow> Inl Out_Of_Bounds
                     | Some pkt_data \<Rightarrow>
                         if p \<notin> live w then Inl Use_After_Free
                         else case sendall (client_sends e) pkt_data of
                           None \<Rightarrow> Inl Blocked
                         | Some (status, out) \<Rightarrow>
                             Inr (pet_watchdog e p (close_telex_connection p (w \<lparr>to_client := to_client w @ [(p, out)]\<rparr>)))))"

definition on_telex_read :: "bron_env \<Rightarrow> int \<Rightarrow> nat \<Rightarrow> bron \<Rightarrow> result" where
  "on_telex_read e conn p w =
     (if state (heap w p) > 2 then Inr w
      else if \<not> recv_msg_header e
      then cleanup_connection_after_ssl e p True (upd p (\<lambda>st. st \<lparr>ssl := None\<rparr>) w)
      else if rec_type e = RECORD_TYPE_INIT then telex_init e p w
      else if rec_type e = RECORD_TYPE_RAW_PKT then telex_raw_pkt e p w
      else Inr w)"

definition on_finish_connect :: "bron_env \<Rightarrow> int \<Rightarrow> nat \<Rightarrow> bron \<Rightarrow> result" where
  "on_finish_connect e conn p w =
     (if conn \<noteq> service_conn (heap w p) then Inl Assertion
      else if sockopt_ret e \<noteq> 0 then Inl (Exit 1)
      else if sockopt_val e \<noteq> 0 then cleanup_connection e p w
      else let w = setup_service_read p w
           in if ev_service_write (heap w p) = None then Inl Null_Dereference
              else Inr (pet_watchdog e p (upd p (\<lambda>st. st \<lparr>ev_service_write :=
                     Some \<lparr>ev_fd = service_conn st, ev_cb = On_write_ready, ev_persist = True, ev_added = True\<rparr>\<rparr>) w)))"

section \<open>The event loop\<close>

text \<open>Zero bytes, as \<open>memset\<close> leaves them in a new state.\<close>

definition zero_ts :: telex_tcp_ts where
  "zero_ts = \<lparr>tv = \<lparr>tv_sec = 0, tv_usec = 0\<rparr>, tsval = 0, tsecr = 0\<rparr>"

definition zero_flow :: flow where
  "zero_flow = \<lparr>orig_h = 0, resp_h = 0, orig_p = 0, resp_p = 0, last_ttl = 0, last_ip_id = 0,
     tcp = \<lparr>seq = 0, ack = 0, rcv_window = 0, rcv_window_scale = 0, snd_window = 0, snd_window_scale = 0,
       last_ts = zero_ts, cur_ts = zero_ts, option_ts = 0, option_sack = 0, flags = 0\<rparr>\<rparr>"

definition new_state :: "int \<Rightarrow> int \<Rightarrow> ConnectionState" where
  "new_state n conn = \<lparr>cnum = n, telex_conn = conn, service_conn = - 1, client_conn = - 1, first_telex_record = 1,
     flow_state = zero_flow,
     ev_telex_read = Some \<lparr>ev_fd = conn, ev_cb = On_telex_read, ev_persist = True, ev_added = True\<rparr>,
     ev_service_read = None, ev_service_write = None, ev_client_read = None, ev_client_write = None,
     ev_watchdog = None, ssl = None, client_ready_read = False, client_ready_write = False,
     service_ready_read = False, service_ready_write = False, cleanup_waiting = SSL_ERROR_NONE, state = 0,
     key_port = - 1, t_created = 0, t_last_data = 0, t_cleanup = 0, t_watchdog = 0\<rparr>"

definition handle_bro_connection :: "bron_env \<Rightarrow> nat \<Rightarrow> int \<Rightarrow> bron \<Rightarrow> bron" where
  "handle_bro_connection e p conn w =
     (let w = w \<lparr>live := insert p (live w), connections := insert p (connections w), nclients := nclients w + 1\<rparr>;
          w = upd p (\<lambda>st. new_state (nclients w - 1) conn) w;
          w = initialize_watchdog e p w;
          w = upd p (\<lambda>st. st \<lparr>t_created := now e\<rparr>) w
      in w \<lparr>active_connections := active_connections w + 1, total_connections := total_connections w + 1\<rparr>)"

definition on_accept_ready :: "bron_env \<Rightarrow> nat \<Rightarrow> int \<Rightarrow> bron \<Rightarrow> bron" where
  "on_accept_ready e p conn w =
     (if conn = - 1 then w else handle_bro_connection e p conn (open_fd conn w))"

text \<open>\<open>main\<close> up to the event loop: its exit code, or the port of the status server.\<close>

definition bronnect_main ::
  "nat \<Rightarrow> int \<Rightarrow> int \<Rightarrow> bool \<Rightarrow> int \<Rightarrow> int \<Rightarrow> int \<Rightarrow> bool \<Rightarrow> int + int" where
  "bronnect_main argc arg_port sock log_ok r_bind r_listen blocker err =
     (if argc < 2 \<or> argc > 4 then Inl 1
      else let httpd_port = (if argc = 4 then arg_port else 8080)
           in if sock = - 1 then Inl 2
              else if \<not> log_ok then Inl 2
              else if r_bind = - 1 then Inl 2
              else if r_listen = - 1 then Inl 2
              else if blocker < 0 \<or> err then Inl 3
              else Inr httpd_port)"

definition bron_0 :: bron where
  "bron_0 = \<lparr>heap = (\<lambda>p. new_state 0 0), live = {}, connections = {}, orphans = [], open_fds = {}, requests = [],
     forged = [], to_service = [], to_client = [], logged = [], stale = [], nclients = 0, up_bytes = 0, down_bytes = 0,
     active_connections = 0, total_connections = 0\<rparr>"

text \<open>Calling the handler of an event on a state.\<close>

definition dispatch :: "bron_env \<Rightarrow> io_event \<Rightarrow> nat \<Rightarrow> bron \<Rightarrow> result" where
  "dispatch e ev p w =
     (if p \<notin> live w then Inl Use_After_Free
      else case ev_cb ev of
        On_telex_read \<Rightarrow> on_telex_read e (ev_fd ev) p w
      | On_read_ready \<Rightarrow> on_read_ready e (ev_fd ev) p w
      | On_write_ready \<Rightarrow> on_write_ready e (ev_fd ev) p w
      | On_finish_connect \<Rightarrow> on_finish_connect e (ev_fd ev) p w)"

datatype slot = Telex_Read | Service_Read | Service_Write | Client_Read | Client_Write

fun slot_event :: "slot \<Rightarrow> ConnectionState \<Rightarrow> io_event option" where
  "slot_event Telex_Read st = ev_telex_read st"
| "slot_event Service_Read st = ev_service_read st"
| "slot_event Service_Write st = ev_service_write st"
| "slot_event Client_Read st = ev_client_read st"
| "slot_event Client_Write st = ev_client_write st"

text \<open>libevent removes an event that is not persistent before it calls the handler.\<close>

fun slot_fired :: "slot \<Rightarrow> ConnectionState \<Rightarrow> ConnectionState" where
  "slot_fired Service_Write st =
     (case ev_service_write st of
        Some x \<Rightarrow> if ev_persist x then st else st \<lparr>ev_service_write := event_del (Some x)\<rparr>
      | None \<Rightarrow> st)"
| "slot_fired s st = st"

text \<open>The event loop. \<open>C e st\<close> says which results the environment can produce for a connection in state
  \<open>st\<close>.\<close>

inductive bron_step :: "(bron_env \<Rightarrow> ConnectionState \<Rightarrow> bool) \<Rightarrow> result \<Rightarrow> result \<Rightarrow> bool" for C where
  step_accept: "p \<notin> live w \<Longrightarrow> conn = - 1 \<or> 0 \<le> conn \<and> conn \<notin> open_fds w \<Longrightarrow>
    bron_step C (Inr w) (Inr (on_accept_ready e p conn w))"
| step_event: "p \<in> live w \<Longrightarrow> slot_event s (heap w p) = Some ev \<Longrightarrow> ev_added ev \<Longrightarrow> C e (heap w p) \<Longrightarrow>
    bron_step C (Inr w) (dispatch e ev p (upd p (slot_fired s) w))"
| step_orphan: "(p, ev) \<in> set (orphans w) \<Longrightarrow> bron_step C (Inr w) (dispatch e ev p w)"
| step_watchdog: "p \<in> live w \<Longrightarrow> ev_watchdog (heap w p) = Some (Some t) \<Longrightarrow> t \<le> now e \<Longrightarrow> C e (heap w p) \<Longrightarrow>
    bron_step C (Inr w) (on_watchdog e p (upd p (\<lambda>st. st \<lparr>ev_watchdog := Some None\<rparr>) w))"

end
