(* ===== verification/Bronnect_Props.thy ===== *)
theory Bronnect_Props
  imports Bronnect
begin

text \<open>
  Invariants of the connection manager. \<open>conn_ok\<close> is what holds of every allocated connection between
  two events: among it the comment in \<open>setup_service_read\<close> that an event is registered only while the
  direction is not marked ready, which makes the end of a connection free no registered event.
  \<open>bron_ok\<close> adds the hash table, the counter of active connections and the absence of orphaned events.
  Each handler keeps a connection or ends it (\<open>kept\<close>, \<open>ended\<close>), without faults, as long as the
  environment behaves as \<open>bron_env_ok\<close> says.
\<close>

section \<open>The invariant\<close>

definition idle :: "bool \<Rightarrow> io_event option \<Rightarrow> bool" where
  "idle ready ev \<longleftrightarrow> ready \<longrightarrow> (\<exists>x. ev = Some x \<and> \<not> ev_added x)"

definition ev_is :: "io_event option \<Rightarrow> int \<Rightarrow> callback \<Rightarrow> bool" where
  "ev_is ev fd cb \<longleftrightarrow> (\<forall>x. ev = Some x \<longrightarrow> ev_fd x = fd \<and> 0 \<le> fd \<and> ev_cb x = cb \<and> ev_persist x)"

definition conn_ok :: "ConnectionState \<Rightarrow> bool" where
  "conn_ok st \<longleftrightarrow>
     idle (client_ready_read st) (ev_client_read st) \<and> idle (client_ready_write st) (ev_client_write st) \<and>
     idle (service_ready_read st) (ev_service_read st) \<and> idle (service_ready_write st) (ev_service_write st) \<and>
     ev_is (ev_telex_read st) (telex_conn st) On_telex_read \<and>
     ev_is (ev_client_read st) (client_conn st) On_read_ready \<and>
     ev_is (ev_client_write st) (client_conn st) On_write_ready \<and>
     ev_is (ev_service_read st) (service_conn st) On_read_ready \<and>
     (\<forall>x. ev_service_write st = Some x \<longrightarrow> ev_fd x = service_conn st \<and> 0 \<le> service_conn st \<and>
        (ev_cb x = On_write_ready \<and> ev_persist x \<or> ev_cb x = On_finish_connect \<and> \<not> ev_persist x)) \<and>
     (0 \<le> client_conn st \<longrightarrow> client_conn st \<noteq> service_conn st \<and> ssl st \<noteq> None) \<and>
     (ev_telex_read st \<noteq> None \<longrightarrow> state st \<in> {0, 1}) \<and>
     (state st = 0 \<longrightarrow> ssl st = None \<and> client_conn st = - 1 \<and> ev_service_read st = None \<and> ev_service_write st = None) \<and>
     (state st = 1 \<longrightarrow> ssl st \<noteq> None \<and> client_conn st = - 1) \<and>
     0 \<le> state st"

definition bron_ok :: "bron \<Rightarrow> bool" where
  "bron_ok w \<longleftrightarrow> finite (live w) \<and> connections w = live w \<and> orphans w = [] \<and>
     active_connections w = word_of_nat (card (live w)) \<and> (\<forall>p\<in>live w. conn_ok (heap w p))"

text \<open>What the environment of a connection in state \<open>st\<close> is relied on for: the calls of \<open>send\<close> return;
  \<open>SSL_read\<close> without an error delivers data; Bro sends one init record of the right size with a
  non-zero port, and well-formed packets; the service's name resolves; the derivation of the session
  key and the creation of the SSL object succeed; the forged socket can be created and has a
  descriptor of its own.\<close>

definition bron_env_ok :: "bron_env \<Rightarrow> ConnectionState \<Rightarrow> bool" where
  "bron_env_ok e st \<longleftrightarrow>
     sendall (service_sends e) (ssl_read_data e) \<noteq> None \<and>
     (\<forall>f. sendall (unblock_sends e) (block_flow_msg f 0) \<noteq> None) \<and>
     (\<exists>data. raw_payload (raw_pkt e) = Some data \<and> sendall (client_sends e) data \<noteq> None) \<and>
     (ssl_read_err e = SSL_ERROR_NONE \<longrightarrow> ssl_read_data e \<noteq> []) \<and>
     (rec_type e = RECORD_TYPE_INIT \<longrightarrow> unat (rec_len e) = init_size \<and> state st = 0 \<and> init_port (init_data e) \<noteq> 0) \<and>
     svc_resolved e \<and> sockopt_ret e = 0 \<and>
     telex_ssl_get_dh_key (hmac e) (shared_secret (init_data e)) \<noteq> None \<and>
     (\<forall>secret. \<exists>s. leaked_ssl e secret = Inr s) \<and>
     fake_listen e \<noteq> - 1 \<and> 0 \<le> fake_bind e \<and> 0 \<le> fake_conn e \<and> fake_conn e \<noteq> service_conn st"

text \<open>Two results of a handler on the connection \<open>p\<close>.\<close>

definition kept :: "nat \<Rightarrow> bron \<Rightarrow> bron \<Rightarrow> bool" where
  "kept p w w' \<longleftrightarrow> live w' = live w \<and> connections w' = connections w \<and> orphans w' = orphans w \<and>
     active_connections w' = active_connections w \<and> (\<forall>q. q \<noteq> p \<longrightarrow> heap w' q = heap w q)"

definition ended :: "nat \<Rightarrow> bron \<Rightarrow> bron \<Rightarrow> bool" where
  "ended p w w' \<longleftrightarrow> live w' = live w - {p} \<and> connections w' = connections w - {p} \<and> orphans w' = orphans w \<and>
     active_connections w' = active_connections w - 1 \<and> ev_watchdog (heap w' p) = None \<and>
     (\<forall>q. q \<noteq> p \<longrightarrow> heap w' q = heap w q)"

text \<open>A handler served the connection: it stays, and is in order, or it is gone.\<close>

definition served :: "nat \<Rightarrow> bron \<Rightarrow> bron \<Rightarrow> bool" where
  "served p w w' \<longleftrightarrow> kept p w w' \<and> conn_ok (heap w' p) \<or> ended p w w'"

lemma heap_upd [simp]: "heap (upd p f w) = (heap w)(p := f (heap w p))"
  by (simp add: upd_def)

lemma upd_fields [simp]:
  "live (upd p f w) = live w" "connections (upd p f w) = connections w" "orphans (upd p f w) = orphans w"
  "active_connections (upd p f w) = active_connections w" "open_fds (upd p f w) = open_fds w"
  "requests (upd p f w) = requests w" "to_client (upd p f w) = to_client w" "to_service (upd p f w) = to_service w"
  "stale (upd p f w) = stale w"
  by (simp_all add: upd_def)

lemma close_fd_fields [simp]:
  "heap (close_fd fd w) = heap w" "live (close_fd fd w) = live w" "connections (close_fd fd w) = connections w"
  "orphans (close_fd fd w) = orphans w" "active_connections (close_fd fd w) = active_connections w"
  "open_fds (close_fd fd w) = open_fds w - {fd}" "requests (close_fd fd w) = requests w"
  by (simp_all add: close_fd_def)

lemma open_fd_fields [simp]:
  "heap (open_fd fd w) = heap w" "live (open_fd fd w) = live w" "connections (open_fd fd w) = connections w"
  "orphans (open_fd fd w) = orphans w" "active_connections (open_fd fd w) = active_connections w"
  by (simp_all add: open_fd_def)

lemma kept_refl [simp]: "kept p w w"
  by (simp add: kept_def)

lemma kept_upd [simp]: "kept p w (upd p f w') \<longleftrightarrow> kept p w w'"
  by (auto simp: kept_def)

lemma kept_trans: "kept p w w1 \<Longrightarrow> kept p w1 w2 \<Longrightarrow> kept p w w2"
  by (simp add: kept_def)

lemma kept_ended: "kept p w w1 \<Longrightarrow> ended p w1 w2 \<Longrightarrow> ended p w w2"
  by (simp add: kept_def ended_def)

lemma kept_served: "kept p w w1 \<Longrightarrow> served p w1 w2 \<Longrightarrow> served p w w2"
  by (auto simp: served_def dest: kept_trans kept_ended)

lemma free_event_idle: "idle ready ev \<Longrightarrow> free_event p ready ev w = w"
  by (auto simp: free_event_def drop_event_def event_del_def idle_def split: option.splits)

lemma free_event_False [simp]: "free_event p False ev w = w"
  by (simp add: free_event_idle idle_def)

section \<open>The end of a connection\<close>

lemma free_state_ended:
  assumes "idle (client_ready_read (heap w p)) (ev_client_read (heap w p))"
    "idle (client_ready_write (heap w p)) (ev_client_write (heap w p))"
    "idle (service_ready_read (heap w p)) (ev_service_read (heap w p))"
    "idle (service_ready_write (heap w p)) (ev_service_write (heap w p))"
  shows "ended p w (free_state p w \<lparr>connections := connections w - {p}\<rparr>)"
  by (simp add: free_state_def Let_def free_event_idle assms ended_def)


lemma unblock_some:
  assumes "\<forall>f. sendall (unblock_sends e) (block_flow_msg f 0) \<noteq> None"
  shows "\<exists>out. unblock e p w = Inr (w \<lparr>requests := requests w @ [out]\<rparr>)"
proof -
  obtain r out where "sendall (unblock_sends e) (block_flow_msg (unblock_request (flow_state (heap w p))) 0) = Some (r, out)"
    using assms by fastforce
  then show ?thesis by (auto simp: unblock_def telex_remote_mod_flow_def)
qed

definition all_idle :: "ConnectionState \<Rightarrow> bool" where
  "all_idle st \<longleftrightarrow> idle (client_ready_read st) (ev_client_read st) \<and> idle (client_ready_write st) (ev_client_write st) \<and>
     idle (service_ready_read st) (ev_service_read st) \<and> idle (service_ready_write st) (ev_service_write st)"

lemma conn_ok_idle: "conn_ok st \<Longrightarrow> all_idle st"
  by (simp add: conn_ok_def all_idle_def)

lemma after_ssl_ended:
  assumes "all_idle (heap w p)" "\<forall>f. sendall (unblock_sends e) (block_flow_msg f 0) \<noteq> None"
  shows "\<exists>w'. cleanup_connection_after_ssl e p u w = Inr w' \<and> ended p w w'"
proof -
  obtain w3 where w3: "(if u then unblock e p (detach p w) else Inr (detach p w)) = Inr w3" "heap w3 = heap (detach p w)"
    "live w3 = live (detach p w)" "connections w3 = connections (detach p w)" "orphans w3 = orphans (detach p w)"
    "active_connections w3 = active_connections (detach p w)"
    using unblock_some [OF assms(2), of p "detach p w"] by (cases u) auto
  have "cleanup_connection_after_ssl e p u w = Inr (free_state p w3)"
    unfolding cleanup_connection_after_ssl_def w3(1) by simp
  moreover have "ended p w (free_state p w3)"
    using assms(1) w3(2-) unfolding all_idle_def
    by (simp add: free_state_def Let_def free_event_idle ended_def detach_def)
  ultimately show ?thesis by blast
qed

lemma kept_after_ssl:
  assumes "kept p w v" "all_idle (heap v p)" "\<forall>f. sendall (unblock_sends e) (block_flow_msg f 0) \<noteq> None"
  shows "\<exists>w'. cleanup_connection_after_ssl e p u v = Inr w' \<and> served p w w'"
  using after_ssl_ended [OF assms(2,3)] assms(1) by (metis kept_ended served_def)

lemma conn_ok_waiting:
  "conn_ok st \<Longrightarrow> ev_telex_read st = None \<Longrightarrow> ssl st \<noteq> None \<Longrightarrow> conn_ok (st \<lparr>state := 5, cleanup_waiting := x\<rparr>)"
  by (simp add: conn_ok_def)

lemma try_shutdown_served:
  assumes "kept p w v" "conn_ok (heap v p)" "ev_telex_read (heap v p) = None"
    "\<forall>f. sendall (unblock_sends e) (block_flow_msg f 0) \<noteq> None"
  shows "\<exists>w'. cleanup_connection_ssl_try_shutdown e p v = Inr w' \<and> served p w w'"
proof -
  have i: "all_idle (heap v p)" by (rule conn_ok_idle [OF assms(2)])
  show ?thesis
  proof (cases "ssl (heap v p) = None")
    case True
    then show ?thesis
      using kept_after_ssl [OF assms(1) i assms(4)] by (simp add: cleanup_connection_ssl_try_shutdown_def)
  next
    case False
    define w1 where "w1 = upd p (\<lambda>st. st \<lparr>state := 5\<rparr>) v"
    define w2 where "w2 = upd p (\<lambda>st. st \<lparr>cleanup_waiting := shutdown_err e\<rparr>) w1"
    have k: "kept p w w1" "kept p w w2" using assms(1) by (simp_all add: w1_def w2_def)
    have "all_idle (heap w1 p)" "all_idle (heap w2 p)" using i by (simp_all add: w1_def w2_def all_idle_def)
    note e = kept_after_ssl [OF k(1) this(1) assms(4)] kept_after_ssl [OF k(2) this(2) assms(4)]
    have "conn_ok (heap w2 p)"
      using conn_ok_waiting [OF assms(2,3) False] by (simp add: w2_def w1_def)
    then have "served p w w2" using k(2) by (simp add: served_def)
    then show ?thesis
      using e False unfolding cleanup_connection_ssl_try_shutdown_def w1_def [symmetric] Let_def w2_def [symmetric]
      by auto
  qed
qed

lemma close_telex_kept: "kept p w v \<Longrightarrow> kept p w (close_telex_connection p v)"
  by (auto simp: close_telex_connection_def kept_def Let_def)

lemma close_telex_st:
  "heap (close_telex_connection p w) p =
     (heap w p) \<lparr>telex_conn := (if telex_conn (heap w p) \<ge> 0 then - 2 else telex_conn (heap w p)), ev_telex_read := None\<rparr>"
  by (simp add: close_telex_connection_def Let_def)

lemma conn_ok_no_telex:
  "conn_ok (st \<lparr>ev_telex_read := None\<rparr>) \<Longrightarrow> conn_ok (st \<lparr>telex_conn := n, ev_telex_read := None, t_cleanup := t\<rparr>)"
  by (simp add: conn_ok_def ev_is_def)

lemma conn_ok_drop_telex: "conn_ok st \<Longrightarrow> conn_ok (st \<lparr>ev_telex_read := None\<rparr>)"
  by (simp add: conn_ok_def ev_is_def)

text \<open>The cleanup is entered with connections whose events are idle; only one that has an SSL object need
  be in order otherwise.\<close>

lemma cleanup_served_idle:
  assumes "kept p w v" "all_idle (heap v p)" "ssl (heap v p) \<noteq> None \<Longrightarrow> conn_ok (heap v p \<lparr>ev_telex_read := None\<rparr>)"
    "\<forall>f. sendall (unblock_sends e) (block_flow_msg f 0) \<noteq> None"
  shows "\<exists>w'. cleanup_connection e p v = Inr w' \<and> served p w w'"
proof -
  define w1 where "w1 = close_telex_connection p (upd p (\<lambda>st. st \<lparr>t_cleanup := now e\<rparr>) v)"
  define w2 where "w2 = upd p (\<lambda>st. st \<lparr>ssl := None\<rparr>) w1"
  have st: "heap w1 p = (heap v p) \<lparr>telex_conn := (if telex_conn (heap v p) \<ge> 0 then - 2 else telex_conn (heap v p)),
      ev_telex_read := None, t_cleanup := now e\<rparr>"
    by (simp add: w1_def close_telex_st)
  have k: "kept p w w1" "kept p w w2" using assms(1) by (simp_all add: w1_def w2_def close_telex_kept)
  have i: "all_idle (heap w1 p)" "all_idle (heap w2 p)" using assms(2) by (simp_all add: w2_def st all_idle_def)
  note a = kept_after_ssl [OF k(1) i(1) assms(4)] kept_after_ssl [OF k(2) i(2) assms(4)]
  have t: "\<exists>w'. cleanup_connection_ssl_try_shutdown e p w1 = Inr w' \<and> served p w w'" if "ssl (heap w1 p) \<noteq> None"
    using that assms(3) by (intro try_shutdown_served [OF k(1) _ _ assms(4)]) (simp_all add: st conn_ok_no_telex)
  show ?thesis
    unfolding cleanup_connection_def cleanup_connection_ssl_def Let_def w1_def [symmetric] w2_def [symmetric]
    using a t by simp
qed

lemma cleanup_served:
  assumes "kept p w v" "conn_ok (heap v p)" "\<forall>f. sendall (unblock_sends e) (block_flow_msg f 0) \<noteq> None"
  shows "\<exists>w'. cleanup_connection e p v = Inr w' \<and> served p w w'"
  by (rule cleanup_served_idle [OF assms(1) conn_ok_idle [OF assms(2)] conn_ok_drop_telex [OF assms(2)] assms(3)])

section \<open>Forwarding\<close>

lemma log_line_len_less: "buf \<noteq> [] \<Longrightarrow> log_line_len buf < length buf"
proof -
  assume "buf \<noteq> []"
  moreover have "length (takeWhile (\<lambda>b. b \<noteq> 10) (takeWhile (\<lambda>b. b \<noteq> 0) (butlast buf))) \<le> length (butlast buf)"
    by (metis length_takeWhile_le order_trans)
  ultimately show ?thesis by (cases buf) (auto simp: log_line_len_def Let_def)
qed

lemma log_data_kept:
  assumes "kept p w v" "buf \<noteq> []"
  shows "\<exists>w'. log_data e p buf v = Inr w' \<and> kept p w w' \<and>
    (heap w' p = heap v p \<or> heap w' p = (heap v p) \<lparr>state := 3\<rparr>)"
proof (cases "state (heap v p) = 3")
  case True
  with assms(1) show ?thesis by (simp add: log_data_def)
next
  case False
  define v1 where "v1 = upd p (\<lambda>st. st \<lparr>state := 3\<rparr>) v"
  define t where "t = log_text (heap v1 p) (local_port e) (takeWhile (\<lambda>b. b \<noteq> 0) (take (log_line_len buf) (butlast buf)))"
  have "log_data e p buf v = Inr (v1 \<lparr>logged := logged v1 @ [t]\<rparr>)"
    unfolding log_data_def Let_def v1_def [symmetric] t_def [symmetric]
    using False assms(2) log_line_len_less [OF assms(2)] by (simp only: if_False if_True not_True_eq_False)
  moreover have "kept p w (v1 \<lparr>logged := logged v1 @ [t]\<rparr>)"
    using assms(1) by (simp add: kept_def v1_def)
  moreover have "heap (v1 \<lparr>logged := logged v1 @ [t]\<rparr>) p = (heap v p) \<lparr>state := 3\<rparr>" by (simp add: v1_def)
  ultimately show ?thesis by blast
qed

lemma conn_ok_D:
  assumes "conn_ok st"
  shows "0 \<le> client_conn st \<Longrightarrow> client_conn st \<noteq> service_conn st \<and> ssl st \<noteq> None"
    and "ev_telex_read st \<noteq> None \<Longrightarrow> state st = 0 \<or> state st = 1"
    and "state st = 0 \<Longrightarrow> ssl st = None \<and> client_conn st = - 1 \<and> ev_service_read st = None \<and> ev_service_write st = None"
    and "state st = 1 \<Longrightarrow> ssl st \<noteq> None \<and> client_conn st = - 1"
    and "ev_is (ev_telex_read st) (telex_conn st) On_telex_read"
    and "ev_is (ev_client_read st) (client_conn st) On_read_ready"
    and "ev_is (ev_client_write st) (client_conn st) On_write_ready"
    and "ev_is (ev_service_read st) (service_conn st) On_read_ready"
    and "ev_service_write st = Some x \<Longrightarrow> ev_fd x = service_conn st \<and> 0 \<le> service_conn st \<and>
        (ev_cb x = On_write_ready \<and> ev_persist x \<or> ev_cb x = On_finish_connect \<and> \<not> ev_persist x)"
    and "0 \<le> state st"
  using assms unfolding conn_ok_def by blast+

text \<open>A connection with a client: it has an SSL object and is past the phase in which Bro is heard.\<close>

lemma conn_ok_client:
  assumes "conn_ok st" "0 \<le> client_conn st"
  shows "ssl st \<noteq> None" "ev_telex_read st = None" "state st \<noteq> 0" "state st \<noteq> 1"
proof -
  show ssl: "ssl st \<noteq> None" by (rule conn_ok_D(1) [OF assms, THEN conjunct2])
  show "state st \<noteq> 0" "state st \<noteq> 1" using conn_ok_D(3,4) [OF assms(1)] assms(2) by auto
  then show "ev_telex_read st = None" using conn_ok_D(2) [OF assms(1)] by blast
qed

lemma conn_ok_state3:
  assumes "conn_ok st" "0 \<le> client_conn st"
  shows "conn_ok (st \<lparr>state := 3\<rparr>)"
  using conn_ok_client(2) [OF assms] assms(1) unfolding conn_ok_def by simp

definition forwarded :: "nat \<Rightarrow> bron \<Rightarrow> bron \<Rightarrow> bool \<Rightarrow> bron \<Rightarrow> bool" where
  "forwarded p w0 v r w' \<longleftrightarrow>
     (if r then kept p w0 w' \<and> (heap w' p = heap v p \<or> heap w' p = (heap v p) \<lparr>state := 3\<rparr>) else served p w0 w')"

lemma forward_client_to_service_ok:
  assumes k: "kept p w v" and ok: "conn_ok (heap v p)" "0 \<le> client_conn (heap v p)" and env: "bron_env_ok e st"
  shows "\<exists>r w'. forward_client_to_service e p v = Inr (r, w') \<and> forwarded p w v r w'"
proof -
  have u: "\<forall>f. sendall (unblock_sends e) (block_flow_msg f 0) \<noteq> None" using env by (simp add: bron_env_ok_def)
  have ssl: "ssl (heap v p) \<noteq> None" by (rule conn_ok_client(1) [OF ok])
  have i: "all_idle (heap v p)" by (rule conn_ok_idle [OF ok(1)])
  show ?thesis
  proof (cases "ssl_read_err e = SSL_ERROR_NONE")
    case True
    then have data: "ssl_read_data e \<noteq> []" using env by (simp add: bron_env_ok_def)
    obtain status out where send: "sendall (service_sends e) (ssl_read_data e) = Some (status, out)"
      using env by (auto simp: bron_env_ok_def)
    define v1 where "v1 = v \<lparr>up_bytes := up_bytes v + word_of_nat (length (ssl_read_data e)), to_service := to_service v @ [(p, out)]\<rparr>"
    have "kept p w v1" using k by (simp add: v1_def kept_def)
    from log_data_kept [OF this data] obtain v2 where v2: "log_data e p (ssl_read_data e) v1 = Inr v2" "kept p w v2"
      "heap v2 p = heap v p \<or> heap v2 p = (heap v p) \<lparr>state := 3\<rparr>"
      by (auto simp: v1_def)
    have ok2: "conn_ok (heap v2 p)" using v2(3) ok conn_ok_state3 by auto
    obtain w' where c: "cleanup_connection e p v2 = Inr w'" "served p w w'"
      using cleanup_served [OF v2(2) ok2 u] by blast
    have "forward_client_to_service e p v = (if status < 0 then Inr (False, w') else Inr (True, v2))"
      using True data send ssl v2(1) c(1) by (simp add: forward_client_to_service_def v1_def)
    then show ?thesis using v2 c by (auto simp: forwarded_def)
  next
    case False
    obtain w1 where "cleanup_connection_after_ssl e p True v = Inr w1" "served p w w1"
      using kept_after_ssl [OF k i u] by blast
    moreover obtain w2 where "cleanup_connection e p v = Inr w2" "served p w w2"
      using cleanup_served [OF k ok(1) u] by blast
    ultimately show ?thesis using False ssl k by (auto simp: forward_client_to_service_def forwarded_def)
  qed
qed

lemma forward_service_to_client_ok:
  assumes k: "kept p w v" and ok: "conn_ok (heap v p)" "0 \<le> client_conn (heap v p)" and env: "bron_env_ok e st"
  shows "\<exists>r w'. forward_service_to_client e p v = Inr (r, w') \<and> forwarded p w v r w'"
proof -
  have u: "\<forall>f. sendall (unblock_sends e) (block_flow_msg f 0) \<noteq> None" using env by (simp add: bron_env_ok_def)
  have ssl: "ssl (heap v p) \<noteq> None" by (rule conn_ok_client(1) [OF ok])
  have i: "all_idle (heap v p)" by (rule conn_ok_idle [OF ok(1)])
  have c: "\<exists>w'. cleanup_connection e p (v \<lparr>down_bytes := x\<rparr>) = Inr w' \<and> served p w w'" for x
    using k ok by (intro cleanup_served [OF _ _ u]) (simp_all add: kept_def)
  from c [of "down_bytes v"] obtain w1 where w1: "cleanup_connection e p v = Inr w1" "served p w w1" by auto
  from c obtain w2 where w2: "cleanup_connection e p (v \<lparr>down_bytes := down_bytes v + word_of_int (service_recv e)\<rparr>) = Inr w2"
    "served p w w2" by blast
  have k': "kept p w (v \<lparr>down_bytes := x\<rparr>)" "kept p w (v \<lparr>down_bytes := x, to_client := y\<rparr>)" for x y
    using k by (simp_all add: kept_def)
  show ?thesis
    using w1 w2 k k' ok(2) ssl by (auto simp: forward_service_to_client_def forwarded_def Let_def)
qed

lemma conn_ok_times [simp]:
  "conn_ok (st \<lparr>ev_watchdog := x\<rparr>) = conn_ok st" "conn_ok (st \<lparr>t_last_data := t\<rparr>) = conn_ok st"
  "conn_ok (st \<lparr>t_watchdog := t\<rparr>) = conn_ok st" "conn_ok (st \<lparr>t_created := t\<rparr>) = conn_ok st"
  by (simp_all add: conn_ok_def)

text \<open>Petting the watchdog of a connection that has just ended touches freed memory but changes nothing.\<close>

lemma pet_served:
  assumes "served p w v" "p \<in> live w"
  shows "served p w (pet_watchdog e p v)"
proof (cases "ended p w v")
  case True
  then have "pet_watchdog e p v = v \<lparr>stale := stale v @ [p]\<rparr>"
    by (simp add: ended_def pet_watchdog_def)
  with True show ?thesis by (simp add: served_def ended_def)
next
  case False
  with assms(1) have k: "kept p w v" "conn_ok (heap v p)" by (simp_all add: served_def)
  then have "p \<in> live v" using assms(2) by (simp add: kept_def)
  with k show ?thesis by (simp add: pet_watchdog_def served_def)
qed

lemma idle_add [simp]: "idle False ev"
  by (simp add: idle_def)

lemma ev_is_event [simp]:
  "ev_is (event_add ev) fd cb = ev_is ev fd cb" "ev_is (event_del ev) fd cb = ev_is ev fd cb"
  by (auto simp: ev_is_def event_add_def event_del_def)

lemma event_map [simp]:
  "event_add ev = None \<longleftrightarrow> ev = None" "event_del ev = None \<longleftrightarrow> ev = None"
  by (simp_all add: event_add_def event_del_def)

lemma idle_event_del: "ev \<noteq> None \<Longrightarrow> idle ready (event_del ev)"
  by (auto simp: idle_def event_del_def)

lemma idle_SomeD: "idle True ev \<Longrightarrow> ev \<noteq> None"
  by (auto simp: idle_def)

lemma conn_ok_rearm:
  assumes "conn_ok st"
  shows "conn_ok (st \<lparr>service_ready_read := False, client_ready_write := False,
      ev_service_read := event_add (ev_service_read st), ev_client_write := event_add (ev_client_write st)\<rparr>)"
    and "conn_ok (st \<lparr>service_ready_write := False, client_ready_read := False,
      ev_service_write := event_add (ev_service_write st), ev_client_read := event_add (ev_client_read st)\<rparr>)"
proof -
  have "\<forall>x. event_add (ev_service_write st) = Some x \<longrightarrow> ev_fd x = service_conn st \<and> 0 \<le> service_conn st \<and>
      (ev_cb x = On_write_ready \<and> ev_persist x \<or> ev_cb x = On_finish_connect \<and> \<not> ev_persist x)"
    using conn_ok_D(9) [OF assms] by (auto simp: event_add_def)
  with assms show "conn_ok (st \<lparr>service_ready_read := False, client_ready_write := False,
      ev_service_read := event_add (ev_service_read st), ev_client_write := event_add (ev_client_write st)\<rparr>)"
    "conn_ok (st \<lparr>service_ready_write := False, client_ready_read := False,
      ev_service_write := event_add (ev_service_write st), ev_client_read := event_add (ev_client_read st)\<rparr>)"
    unfolding conn_ok_def by simp_all
qed

text \<open>A direction that is marked ready has a client.\<close>

lemma conn_ok_ready_client:
  assumes "conn_ok st" "client_ready_read st \<or> client_ready_write st"
  shows "0 \<le> client_conn st"
proof -
  have "ev_client_read st \<noteq> None \<or> ev_client_write st \<noteq> None"
    using assms idle_SomeD by (fastforce simp: conn_ok_def)
  then show ?thesis using conn_ok_D(6,7) [OF assms(1)] by (auto simp: ev_is_def)
qed

lemma conn_ok_ready_event:
  assumes "conn_ok st"
  shows "client_ready_read st \<Longrightarrow> ev_client_read st \<noteq> None" "client_ready_write st \<Longrightarrow> ev_client_write st \<noteq> None"
    "service_ready_read st \<Longrightarrow> ev_service_read st \<noteq> None" "service_ready_write st \<Longrightarrow> ev_service_write st \<noteq> None"
  using assms unfolding conn_ok_def idle_def by blast+

lemma try_forward_up_served:
  assumes k: "kept p w v" and ok: "conn_ok (heap v p)" and env: "bron_env_ok e st"
  shows "\<exists>w'. try_forward_up e p v = Inr w' \<and> served p w w'"
proof (cases "service_ready_write (heap v p) \<and> client_ready_read (heap v p)")
  case True
  have c: "0 \<le> client_conn (heap v p)" using conn_ok_ready_client [OF ok] True by blast
  obtain r v1 where f: "forward_client_to_service e p v = Inr (r, v1)" "forwarded p w v r v1"
    using forward_client_to_service_ok [OF k ok c env] by blast
  show ?thesis
  proof (cases r)
    case False
    with f True show ?thesis by (simp add: try_forward_up_def forwarded_def)
  next
    case r: True
    with f(2) have v1: "kept p w v1" "heap v1 p = heap v p \<or> heap v1 p = (heap v p) \<lparr>state := 3\<rparr>"
      by (simp_all add: forwarded_def)
    have ok1: "conn_ok (heap v1 p)" using v1(2) ok conn_ok_state3 [OF ok c] by auto
    have "ev_service_write (heap v1 p) \<noteq> None" "ev_client_read (heap v1 p) \<noteq> None"
      using v1(2) conn_ok_ready_event [OF ok] True by auto
    then have "try_forward_up e p v = Inr (upd p (\<lambda>st. st \<lparr>service_ready_write := False, client_ready_read := False,
             ev_service_write := event_add (ev_service_write st), ev_client_read := event_add (ev_client_read st)\<rparr>) v1)"
      using True f(1) r by (simp add: try_forward_up_def rearm_up_def)
    then show ?thesis using v1(1) conn_ok_rearm(2) [OF ok1] by (simp add: served_def)
  qed
next
  case False
  with k ok show ?thesis by (auto simp: try_forward_up_def served_def)
qed

lemma try_to_forward_served:
  assumes k: "kept p w v" and ok: "conn_ok (heap v p)" and env: "bron_env_ok e st"
  shows "\<exists>w'. try_to_forward e p v = Inr w' \<and> served p w w'"
proof -
  define v0 where "v0 = upd p (\<lambda>st. st \<lparr>t_last_data := now e\<rparr>) v"
  have k0: "kept p w v0" and ok0: "conn_ok (heap v0 p)" using k ok by (simp_all add: v0_def)
  show ?thesis
  proof (cases "service_ready_read (heap v0 p) \<and> client_ready_write (heap v0 p)")
    case True
    have c: "0 \<le> client_conn (heap v0 p)" using conn_ok_ready_client [OF ok0] True by blast
    obtain r v1 where f: "forward_service_to_client e p v0 = Inr (r, v1)" "forwarded p w v0 r v1"
      using forward_service_to_client_ok [OF k0 ok0 c env] by blast
    show ?thesis
    proof (cases r)
      case False
      with f True show ?thesis by (simp add: try_to_forward_def v0_def [symmetric] forwarded_def Let_def)
    next
      case r: True
      with f(2) have v1: "kept p w v1" "heap v1 p = heap v0 p \<or> heap v1 p = (heap v0 p) \<lparr>state := 3\<rparr>"
        by (simp_all add: forwarded_def)
      have ok1: "conn_ok (heap v1 p)" using v1(2) ok0 conn_ok_state3 [OF ok0 c] by auto
      have ne: "ev_service_read (heap v1 p) \<noteq> None" "ev_client_write (heap v1 p) \<noteq> None"
        using v1(2) conn_ok_ready_event [OF ok0] True by auto
      define v2 where "v2 = upd p (\<lambda>st. st \<lparr>service_ready_read := False, client_ready_write := False,
             ev_service_read := event_add (ev_service_read st), ev_client_write := event_add (ev_client_write st)\<rparr>) v1"
      have "kept p w v2" "conn_ok (heap v2 p)" using v1(1) conn_ok_rearm(1) [OF ok1] by (simp_all add: v2_def)
      from try_forward_up_served [OF this env] show ?thesis
        using True f(1) r ne by (simp add: try_to_forward_def v0_def [symmetric] Let_def rearm_down_def v2_def)
    qed
  next
    case False
    with try_forward_up_served [OF k0 ok0 env] show ?thesis
      by (auto simp: try_to_forward_def v0_def [symmetric] Let_def)
  qed
qed

lemma forward_and_pet_served:
  assumes "kept p w v" "conn_ok (heap v p)" "bron_env_ok e st" "p \<in> live w"
  shows "\<exists>w'. forward_and_pet e p v = Inr w' \<and> served p w w'"
  using try_to_forward_served [OF assms(1-3)] pet_served [OF _ assms(4)] by (auto simp: forward_and_pet_def)

section \<open>The handlers\<close>

lemma ev_isD: "ev_is (Some x) fd cb \<Longrightarrow> ev_fd x = fd \<and> 0 \<le> fd \<and> ev_cb x = cb \<and> ev_persist x"
  by (simp add: ev_is_def)

lemma conn_ok_fired:
  assumes "conn_ok st"
  shows "ev_client_read st \<noteq> None \<Longrightarrow> conn_ok (st \<lparr>client_ready_read := True, ev_client_read := event_del (ev_client_read st)\<rparr>)"
    and "ev_client_write st \<noteq> None \<Longrightarrow> conn_ok (st \<lparr>client_ready_write := True, ev_client_write := event_del (ev_client_write st)\<rparr>)"
    and "ev_service_read st \<noteq> None \<Longrightarrow> conn_ok (st \<lparr>service_ready_read := True, ev_service_read := event_del (ev_service_read st)\<rparr>)"
    and "ev_service_write st \<noteq> None \<Longrightarrow> conn_ok (st \<lparr>service_ready_write := True, ev_service_write := event_del (ev_service_write st)\<rparr>)"
proof -
  have "\<forall>x. event_del (ev_service_write st) = Some x \<longrightarrow> ev_fd x = service_conn st \<and> 0 \<le> service_conn st \<and>
      (ev_cb x = On_write_ready \<and> ev_persist x \<or> ev_cb x = On_finish_connect \<and> \<not> ev_persist x)"
    using conn_ok_D(9) [OF assms] by (auto simp: event_del_def)
  with assms show "ev_client_read st \<noteq> None \<Longrightarrow> conn_ok (st \<lparr>client_ready_read := True, ev_client_read := event_del (ev_client_read st)\<rparr>)"
    "ev_client_write st \<noteq> None \<Longrightarrow> conn_ok (st \<lparr>client_ready_write := True, ev_client_write := event_del (ev_client_write st)\<rparr>)"
    "ev_service_read st \<noteq> None \<Longrightarrow> conn_ok (st \<lparr>service_ready_read := True, ev_service_read := event_del (ev_service_read st)\<rparr>)"
    "ev_service_write st \<noteq> None \<Longrightarrow> conn_ok (st \<lparr>service_ready_write := True, ev_service_write := event_del (ev_service_write st)\<rparr>)"
    unfolding conn_ok_def by (simp_all add: idle_event_del)
qed

lemma on_read_ready_served:
  assumes ok: "conn_ok (heap w p)" and env: "bron_env_ok e st" and p: "p \<in> live w"
    and ev: "ev_client_read (heap w p) = Some x \<or> ev_service_read (heap w p) = Some x"
  shows "\<exists>w'. on_read_ready e (ev_fd x) p w = Inr w' \<and> served p w w'"
proof -
  have u: "\<forall>f. sendall (unblock_sends e) (block_flow_msg f 0) \<noteq> None" using env by (simp add: bron_env_ok_def)
  show ?thesis
  proof (cases "client_conn (heap w p) = ev_fd x")
    case True
    have ne: "ev_client_read (heap w p) = Some x" and c: "0 \<le> client_conn (heap w p)"
      using ev conn_ok_D(1,6,8) [OF ok] True by (auto dest!: ev_isD)
    define v where "v = upd p (\<lambda>st. st \<lparr>client_ready_read := True, ev_client_read := event_del (ev_client_read st)\<rparr>) w"
    have k: "kept p w v" "conn_ok (heap v p)" using conn_ok_fired(1) [OF ok] ne by (simp_all add: v_def)
    have "ev_telex_read (heap v p) = None" using conn_ok_client(2) [OF ok c] by (simp add: v_def)
    from try_shutdown_served [OF k this u] forward_and_pet_served [OF k env p] show ?thesis
      using True by (simp add: on_read_ready_def v_def [symmetric] Let_def)
  next
    case False
    then have ne: "ev_service_read (heap w p) = Some x" using ev conn_ok_D(6) [OF ok] by (auto dest!: ev_isD)
    then have s: "service_conn (heap w p) = ev_fd x" using conn_ok_D(8) [OF ok] by (auto dest!: ev_isD)
    define v where "v = upd p (\<lambda>st. st \<lparr>service_ready_read := True, ev_service_read := event_del (ev_service_read st)\<rparr>) w"
    have k: "kept p w v" "conn_ok (heap v p)" using conn_ok_fired(3) [OF ok] ne by (simp_all add: v_def)
    from forward_and_pet_served [OF this env p] show ?thesis
      using False s by (simp add: on_read_ready_def v_def)
  qed
qed

lemma on_write_ready_served:
  assumes ok: "conn_ok (heap w p)" and env: "bron_env_ok e st" and p: "p \<in> live w"
    and ev: "ev_client_write (heap w p) = Some x \<or> ev_service_write (heap w p) = Some x"
  shows "\<exists>w'. on_write_ready e (ev_fd x) p w = Inr w' \<and> served p w w'"
proof -
  have u: "\<forall>f. sendall (unblock_sends e) (block_flow_msg f 0) \<noteq> None" using env by (simp add: bron_env_ok_def)
  show ?thesis
  proof (cases "client_conn (heap w p) = ev_fd x")
    case True
    have ne: "ev_client_write (heap w p) = Some x" and c: "0 \<le> client_conn (heap w p)"
      using ev conn_ok_D(1,7,9) [OF ok] True by (auto dest!: ev_isD)
    define v where "v = upd p (\<lambda>st. st \<lparr>client_ready_write := True, ev_client_write := event_del (ev_client_write st)\<rparr>) w"
    have k: "kept p w v" "conn_ok (heap v p)" using conn_ok_fired(2) [OF ok] ne by (simp_all add: v_def)
    have "ev_telex_read (heap w p) = None" by (rule conn_ok_client(2) [OF ok c])
    from try_shutdown_served [OF kept_refl ok this u] forward_and_pet_served [OF k env p] show ?thesis
      using True by (simp add: on_write_ready_def v_def)
  next
    case False
    then have ne: "ev_service_write (heap w p) = Some x" using ev conn_ok_D(7) [OF ok] by (auto dest!: ev_isD)
    then have s: "service_conn (heap w p) = ev_fd x" using conn_ok_D(9) [OF ok] by auto
    define v where "v = upd p (\<lambda>st. st \<lparr>service_ready_write := True, ev_service_write := event_del (ev_service_write st)\<rparr>) w"
    have k: "kept p w v" "conn_ok (heap v p)" using conn_ok_fired(4) [OF ok] ne by (simp_all add: v_def)
    from forward_and_pet_served [OF this env p] show ?thesis
      using False s by (simp add: on_write_ready_def v_def)
  qed
qed

definition connected :: "ConnectionState \<Rightarrow> ConnectionState" where
  "connected st = st \<lparr>ev_service_read := Some \<lparr>ev_fd = service_conn st, ev_cb = On_read_ready, ev_persist = True,
      ev_added = True\<rparr>, service_ready_read := False, ev_service_write := Some \<lparr>ev_fd = service_conn st,
      ev_cb = On_write_ready, ev_persist = True, ev_added = True\<rparr>\<rparr>"

lemma conn_ok_connected:
  assumes "conn_ok st" "ev_service_write st \<noteq> None" "\<not> service_ready_write st"
  shows "conn_ok (connected st)"
proof -
  have "0 \<le> service_conn st" "state st \<noteq> 0" using assms(2) conn_ok_D(3,9) [OF assms(1)] by auto
  with assms(1,3) show ?thesis unfolding conn_ok_def connected_def by (simp add: ev_is_def)
qed

lemma on_finish_connect_served:
  assumes ok: "conn_ok (heap w p)" and env: "bron_env_ok e st" and p: "p \<in> live w"
    and ev: "ev_service_write (heap w p) = Some x" "\<not> service_ready_write (heap w p)"
  shows "\<exists>w'. on_finish_connect e (ev_fd x) p w = Inr w' \<and> served p w w'"
proof -
  have u: "\<forall>f. sendall (unblock_sends e) (block_flow_msg f 0) \<noteq> None" "sockopt_ret e = 0"
    using env by (simp_all add: bron_env_ok_def)
  have s: "ev_fd x = service_conn (heap w p)" using conn_ok_D(9) [OF ok ev(1)] by blast
  show ?thesis
  proof (cases "sockopt_val e = 0")
    case False
    with cleanup_served [OF kept_refl ok u(1)] s u(2) show ?thesis
      by (simp add: on_finish_connect_def)
  next
    case True
    have "on_finish_connect e (ev_fd x) p w = Inr (pet_watchdog e p (upd p connected w))"
      using s u(2) True ev(1) by (simp add: on_finish_connect_def setup_service_read_def upd_def connected_def fun_upd_def cong: if_cong)
    moreover have "served p w (upd p connected w)"
      using conn_ok_connected [OF ok] ev by (simp add: served_def)
    ultimately show ?thesis using pet_served [OF _ p] by blast
  qed
qed

lemma on_watchdog_served:
  assumes k: "kept p w v" and ok: "conn_ok (heap v p)" and env: "bron_env_ok e st"
  shows "\<exists>w'. on_watchdog e p v = Inr w' \<and> served p w w'"
proof -
  have u: "\<forall>f. sendall (unblock_sends e) (block_flow_msg f 0) \<noteq> None" using env by (simp add: bron_env_ok_def)
  define v1 where "v1 = upd p (\<lambda>st. st \<lparr>t_watchdog := now e\<rparr>) v"
  have k1: "kept p w v1" "conn_ok (heap v1 p)" using k ok by (simp_all add: v1_def)
  note i = conn_ok_idle [OF k1(2)]
  from cleanup_served [OF k1(1,2) u] kept_after_ssl [OF k1(1) i u] conn_ok_D(10) [OF k1(2)] show ?thesis
    unfolding on_watchdog_def Let_def v1_def [symmetric] by simp
qed

section \<open>Records from Bro\<close>

lemma setup_fake_socket_kept:
  assumes k: "kept p w v" and env: "bron_env_ok e st" and sv: "service_conn (heap v p) = service_conn st"
    and ssl: "ssl (heap v p) \<noteq> None" and ev: "ev_client_read (heap v p) = None" "ev_client_write (heap v p) = None"
  shows "\<exists>w'. setup_fake_socket e p v = Inr w' \<and> kept p w w' \<and>
    heap w' p = (heap v p) \<lparr>client_conn := fake_conn e,
      ev_client_read := Some \<lparr>ev_fd = fake_conn e, ev_cb = On_read_ready, ev_persist = True, ev_added = True\<rparr>,
      ev_client_write := Some \<lparr>ev_fd = fake_conn e, ev_cb = On_write_ready, ev_persist = True, ev_added = True\<rparr>\<rparr>"
proof -
  have f: "fake_listen e \<noteq> - 1" "0 \<le> fake_bind e" "0 \<le> fake_conn e" using env by (simp_all add: bron_env_ok_def)
  then have n: "\<not> fake_bind e < 0" "\<not> fake_conn e < 0" by simp_all
  have "kept p w (open_fd fd (v' \<lparr>forged := l\<rparr>))" if "kept p w v'" for v' l fd
    using that by (simp add: kept_def)
  then show ?thesis
    using k f n ssl ev by (simp add: setup_fake_socket_def Let_def kept_def)
qed

lemma conn_ok_no_client:
  assumes "conn_ok st" "client_conn st = - 1"
  shows "ev_client_read st = None" "ev_client_write st = None" "\<not> client_ready_read st" "\<not> client_ready_write st"
proof -
  show "ev_client_read st = None" "ev_client_write st = None"
    using conn_ok_D(6,7) [OF assms(1)] assms(2) by (auto simp: ev_is_def)
  then show "\<not> client_ready_read st" "\<not> client_ready_write st" using conn_ok_ready_event [OF assms(1)] by auto
qed

lemma telex_raw_pkt_served:
  assumes ok: "conn_ok (heap w p)" and env: "bron_env_ok e (heap w p)" and p: "p \<in> live w"
  shows "\<exists>w'. telex_raw_pkt e p w = Inr w' \<and> served p w w'"
proof -
  have u: "\<forall>f. sendall (unblock_sends e) (block_flow_msg f 0) \<noteq> None" using env by (simp add: bron_env_ok_def)
  show ?thesis
  proof (cases "state (heap w p) = 1")
    case False
    with cleanup_served [OF kept_refl ok u] show ?thesis by (simp add: telex_raw_pkt_def)
  next
    case st: True
    have n: "ssl (heap w p) \<noteq> None" "client_conn (heap w p) = - 1" using conn_ok_D(4) [OF ok st] by auto
    note c = conn_ok_no_client [OF ok n(2)]
    define v where "v = upd p (\<lambda>st. st \<lparr>state := 2\<rparr>) w"
    have k: "kept p w v" by (simp add: v_def)
    have ok2: "conn_ok (heap v p \<lparr>ev_telex_read := None\<rparr>)"
      using ok n st c unfolding conn_ok_def by (simp add: v_def ev_is_def)
    have "all_idle (heap v p)" using conn_ok_idle [OF ok] by (simp add: v_def all_idle_def)
    then obtain w1 where w1: "cleanup_connection e p v = Inr w1" "served p w w1"
      using cleanup_served_idle [OF k _ _ u] ok2 by blast
    have "service_conn (heap v p) = service_conn (heap w p)" "ssl (heap v p) \<noteq> None"
      "ev_client_read (heap v p) = None" "ev_client_write (heap v p) = None" using n c by (simp_all add: v_def)
    from setup_fake_socket_kept [OF k env this] obtain w2 where w2: "setup_fake_socket e p v = Inr w2" "kept p w w2"
      "heap w2 p = (heap v p) \<lparr>client_conn := fake_conn e,
        ev_client_read := Some \<lparr>ev_fd = fake_conn e, ev_cb = On_read_ready, ev_persist = True, ev_added = True\<rparr>,
        ev_client_write := Some \<lparr>ev_fd = fake_conn e, ev_cb = On_write_ready, ev_persist = True, ev_added = True\<rparr>\<rparr>"
      by blast
    obtain data r out where d: "raw_payload (raw_pkt e) = Some data" "sendall (client_sends e) data = Some (r, out)"
      using env by (auto simp: bron_env_ok_def)
    define w3 where "w3 = close_telex_connection p (w2 \<lparr>to_client := to_client w2 @ [(p, out)]\<rparr>)"
    have "kept p w w3" unfolding w3_def using w2(2) by (intro close_telex_kept) (simp add: kept_def)
    moreover have "conn_ok (heap w3 p)"
      using ok2 n c env unfolding conn_ok_def
      by (simp add: w3_def close_telex_st w2(3) v_def ev_is_def bron_env_ok_def)
    ultimately have "served p w (pet_watchdog e p w3)" by (intro pet_served [OF _ p]) (simp add: served_def)
    moreover have "p \<in> live w2" using w2(2) p by (simp add: kept_def)
    ultimately show ?thesis
      using w1 w2(1) d st by (auto simp: telex_raw_pkt_def v_def [symmetric] Let_def w3_def)
  qed
qed

text \<open>The connection between the two halves of an init record: the event for the service is fresh.\<close>

lemma init_service_kept:
  assumes k: "kept p w v" and ev: "ev_service_write (heap v p) = None" and r: "svc_resolved e"
  shows "\<exists>conn v'. init_service_connection e p v = Inr (conn, v') \<and> kept p w v' \<and>
    (conn < 0 \<and> heap v' p = heap v p \<or>
     0 \<le> conn \<and> (\<exists>ev. heap v' p = (heap v p) \<lparr>ev_service_write := ev\<rparr> \<and>
       (\<forall>x. ev = Some x \<longrightarrow> ev_fd x = conn \<and> ev_cb x = On_finish_connect \<and> \<not> ev_persist x)))"
proof -
  have "start_tcp_connect (svc_resolved e) (svc_sock e) (svc_connect e) (svc_inprogress e) False \<noteq> Connect_Exit"
    using r by (simp add: start_tcp_connect_def)
  then obtain conn nf where s: "start_tcp_connect (svc_resolved e) (svc_sock e) (svc_connect e) (svc_inprogress e) False = Connect conn nf"
    by (cases "start_tcp_connect (svc_resolved e) (svc_sock e) (svc_connect e) (svc_inprogress e) False") auto
  have o: "kept p w (open_fd fd v)" for fd using k by (simp add: kept_def)
  show ?thesis
  proof (cases "conn < 0")
    case True
    with s o show ?thesis by (simp add: init_service_connection_def)
  next
    case False
    define ev where "ev = (if nf then Some \<lparr>ev_fd = conn, ev_cb = On_finish_connect, ev_persist = False, ev_added = True\<rparr> else None)"
    have "init_service_connection e p v = Inr (conn, upd p (\<lambda>st. st \<lparr>ev_service_write := ev\<rparr>) (open_fd (svc_sock e) v))"
      using False s assms(2) by (simp add: init_service_connection_def drop_event_def ev_def)
    moreover have "\<forall>x. ev = Some x \<longrightarrow> ev_fd x = conn \<and> ev_cb x = On_finish_connect \<and> \<not> ev_persist x"
      by (simp add: ev_def)
    ultimately show ?thesis using False o by auto
  qed
qed

lemma leak_key_served:
  assumes k: "kept p w v" and i: "all_idle (heap v p)" and n: "ssl (heap v p) = None"
    and ok: "\<And>s. conn_ok (heap v p \<lparr>ssl := Some s\<rparr>)" and env: "bron_env_ok e st" and p: "p \<in> live w"
  shows "\<exists>w'. leak_key e p v = Inr w' \<and> served p w w'"
proof -
  have u: "\<forall>f. sendall (unblock_sends e) (block_flow_msg f 0) \<noteq> None" using env by (simp add: bron_env_ok_def)
  obtain w1 where w1: "cleanup_connection e p v = Inr w1" "served p w w1"
    using cleanup_served_idle [OF k i _ u] n by blast
  obtain key where key: "telex_ssl_get_dh_key (hmac e) (shared_secret (init_data e)) = Some key"
    using env by (auto simp: bron_env_ok_def)
  obtain l secret where l: "telex_get_shared_secret (dh_new e) (dh_compute e) key (be_val (dh_p (dh (init_data e))))
      (be_val (dh_pub_key (dh (init_data e)))) = (l, secret)" by fastforce
  obtain s where s: "leaked_ssl e secret = Inr s" using env by (auto simp: bron_env_ok_def)
  have "served p w (pet_watchdog e p (upd p (\<lambda>st. st \<lparr>ssl := Some s\<rparr>) v))"
    using k ok by (intro pet_served [OF _ p]) (simp add: served_def)
  with w1 show ?thesis by (simp add: leak_key_def key l s)
qed

definition inited :: "nat option option \<Rightarrow> int \<Rightarrow> io_event option \<Rightarrow> int \<Rightarrow> flow \<Rightarrow> ConnectionState \<Rightarrow> ConnectionState" where
  "inited wd kp ev conn fl st =
     st \<lparr>state := 1, ev_watchdog := wd, key_port := kp, ev_service_write := ev, service_conn := conn, flow_state := fl\<rparr>"

lemma conn_ok_init:
  assumes ok: "conn_ok st" "state st = 0" and conn: "0 \<le> conn"
    and ev: "\<forall>x. ev = Some x \<longrightarrow> ev_fd x = conn \<and> ev_cb x = On_finish_connect \<and> \<not> ev_persist x"
  shows "conn_ok (inited wd kp ev conn fl st \<lparr>ssl := Some s\<rparr>)" "all_idle (inited wd kp ev conn fl st)"
    "ssl (inited wd kp ev conn fl st) = None"
proof -
  have n: "ssl st = None" "client_conn st = - 1" "ev_service_read st = None" "ev_service_write st = None"
    using conn_ok_D(3) [OF ok] by auto
  note c = conn_ok_no_client [OF ok(1) n(2)]
  have r: "\<not> service_ready_read st" "\<not> service_ready_write st" using conn_ok_ready_event(3,4) [OF ok(1)] n by auto
  show "conn_ok (inited wd kp ev conn fl st \<lparr>ssl := Some s\<rparr>)"
    using ok(1) n c r conn ev unfolding conn_ok_def inited_def by (simp add: ev_is_def)
  show "all_idle (inited wd kp ev conn fl st)" "ssl (inited wd kp ev conn fl st) = None"
    using c r n by (simp_all add: all_idle_def inited_def)
qed

lemma telex_init_served:
  assumes ok: "conn_ok (heap w p)" and env: "bron_env_ok e (heap w p)" and p: "p \<in> live w"
    and ty: "rec_type e = RECORD_TYPE_INIT"
  shows "\<exists>w'. telex_init e p w = Inr w' \<and> served p w w'"
proof -
  have u: "\<forall>f. sendall (unblock_sends e) (block_flow_msg f 0) \<noteq> None" using env by (simp add: bron_env_ok_def)
  have i: "unat (rec_len e) = init_size" "state (heap w p) = 0" "init_port (init_data e) \<noteq> 0" "svc_resolved e"
    using env ty by (simp_all add: bron_env_ok_def)
  have n: "ssl (heap w p) = None" "client_conn (heap w p) = - 1" "ev_service_write (heap w p) = None"
    using conn_ok_D(3) [OF ok i(2)] by auto
  have port: "0 < uint (init_port (init_data e))"
    using i(3) by (metis linorder_not_le uint_0_iff unsigned_greater_eq verit_la_disequality)
  show ?thesis
  proof (cases "recv_init_data e")
    case False
    with cleanup_served [OF kept_refl ok u] i(1) show ?thesis by (simp add: telex_init_def)
  next
    case True
    define v where "v = upd p (\<lambda>st. st \<lparr>key_port := uint (init_port (init_data e))\<rparr>)
      (initialize_watchdog e p (upd p (\<lambda>st. st \<lparr>state := 1\<rparr>) w))"
    define wd where "wd = Some (Some (now e + WATCHDOG_TIMEOUT))"
    have v: "heap v p = (heap w p) \<lparr>state := 1, ev_watchdog := wd, key_port := uint (init_port (init_data e))\<rparr>"
      by (simp add: v_def initialize_watchdog_def Let_def wd_def)
    have k: "kept p w v" by (simp add: v_def initialize_watchdog_def Let_def)
    have unf: "telex_init e p w = and_then (init_service_connection e p v)
        (\<lambda>(conn, w). let w = upd p (\<lambda>st. st \<lparr>service_conn := conn\<rparr>) w
           in if conn < 0 then cleanup_connection e p w
              else leak_key e p (upd p (\<lambda>st. st \<lparr>flow_state := init_flow (init_data e)\<rparr>) w))"
      using True i(1) n(2) port v unfolding telex_init_def Let_def v_def [symmetric]
      by (simp add: initialize_watchdog_def Let_def)
    have "ev_service_write (heap v p) = None" using n by (simp add: v)
    from init_service_kept [OF k this i(4)] obtain conn v1 where
      v1: "init_service_connection e p v = Inr (conn, v1)" "kept p w v1"
      "conn < 0 \<and> heap v1 p = heap v p \<or>
       0 \<le> conn \<and> (\<exists>ev. heap v1 p = (heap v p) \<lparr>ev_service_write := ev\<rparr> \<and>
         (\<forall>x. ev = Some x \<longrightarrow> ev_fd x = conn \<and> ev_cb x = On_finish_connect \<and> \<not> ev_persist x))" by blast
    define v2 where "v2 = upd p (\<lambda>st. st \<lparr>service_conn := conn\<rparr>) v1"
    define v3 where "v3 = upd p (\<lambda>st. st \<lparr>flow_state := init_flow (init_data e)\<rparr>) v2"
    have k2: "kept p w v2" "kept p w v3" using v1(2) by (simp_all add: v2_def v3_def)
    from v1(3) show ?thesis
    proof
      assume c: "conn < 0 \<and> heap v1 p = heap v p"
      then have "all_idle (heap v2 p)" "ssl (heap v2 p) = None"
        using conn_ok_idle [OF ok] n by (simp_all add: v2_def v all_idle_def)
      with cleanup_served_idle [OF k2(1) _ _ u] c v1(1) show ?thesis by (simp add: unf v2_def)
    next
      assume "0 \<le> conn \<and> (\<exists>ev. heap v1 p = (heap v p) \<lparr>ev_service_write := ev\<rparr> \<and>
         (\<forall>x. ev = Some x \<longrightarrow> ev_fd x = conn \<and> ev_cb x = On_finish_connect \<and> \<not> ev_persist x))"
      then obtain ev where c: "0 \<le> conn" "heap v1 p = (heap v p) \<lparr>ev_service_write := ev\<rparr>"
        "\<forall>x. ev = Some x \<longrightarrow> ev_fd x = conn \<and> ev_cb x = On_finish_connect \<and> \<not> ev_persist x" by blast
      have h: "heap v3 p = inited wd (uint (init_port (init_data e))) ev conn (init_flow (init_data e)) (heap w p)"
        by (simp add: v3_def v2_def c(2) v inited_def)
      note o = conn_ok_init [OF ok i(2) c(1,3), where wd = wd and kp = "uint (init_port (init_data e))"
          and fl = "init_flow (init_data e)", folded h]
      from leak_key_served [OF k2(2) o(2,3,1) env p] c(1) v1(1) show ?thesis
        by (simp add: unf v2_def v3_def)
    qed
  qed
qed

lemma on_telex_read_served:
  assumes ok: "conn_ok (heap w p)" and env: "bron_env_ok e (heap w p)" and p: "p \<in> live w"
  shows "\<exists>w'. on_telex_read e fd p w = Inr w' \<and> served p w w'"
proof -
  have u: "\<forall>f. sendall (unblock_sends e) (block_flow_msg f 0) \<noteq> None" using env by (simp add: bron_env_ok_def)
  have "served p w w" using ok by (simp add: served_def)
  moreover have "\<exists>w'. cleanup_connection_after_ssl e p True (upd p (\<lambda>st. st \<lparr>ssl := None\<rparr>) w) = Inr w' \<and> served p w w'"
    using conn_ok_idle [OF ok] by (intro kept_after_ssl [OF _ _ u]) (simp_all add: all_idle_def)
  ultimately show ?thesis
    using telex_init_served [OF ok env p] telex_raw_pkt_served [OF ok env p] by (simp add: on_telex_read_def)
qed

section \<open>The system\<close>

lemma kept_slot_fired: "kept p w (upd p (slot_fired s) w)"
  by simp

lemma slot_fired_persist:
  "conn_ok st \<Longrightarrow> slot_event s st = Some ev \<Longrightarrow> ev_cb ev \<noteq> On_finish_connect \<Longrightarrow> slot_fired s st = st"
  using conn_ok_D(9) [of st] by (cases s) (auto split: option.splits)

lemma conn_ok_slot_fired:
  assumes "conn_ok st"
  shows "conn_ok (slot_fired s st)"
proof (cases "slot_fired s st = st")
  case False
  then obtain x where x: "s = Service_Write" "ev_service_write st = Some x" "\<not> ev_persist x"
    by (cases s) (auto split: option.splits if_splits)
  then have f: "slot_fired s st = st \<lparr>ev_service_write := event_del (Some x)\<rparr>" by simp
  have "idle b (event_del (Some x))" for b by (simp add: idle_event_del)
  with assms x show ?thesis unfolding f conn_ok_def by (auto simp: event_del_def)
qed (simp add: assms)

text \<open>Every slot holds events of the kind it is for.\<close>

lemma slot_kind:
  assumes "conn_ok st" "slot_event s st = Some ev"
  shows "ev_cb ev = On_telex_read \<and> s = Telex_Read \<or>
    ev_cb ev = On_read_ready \<and> (s = Client_Read \<or> s = Service_Read) \<or>
    ev_cb ev = On_write_ready \<and> (s = Client_Write \<or> s = Service_Write) \<or>
    ev_cb ev = On_finish_connect \<and> s = Service_Write"
  using conn_ok_D(5-9) [OF assms(1)] assms(2) by (cases s) (auto dest: ev_isD)

lemma dispatch_served:
  assumes ok: "conn_ok (heap w p)" and p: "p \<in> live w" and env: "bron_env_ok e (heap w p)"
    and ev: "slot_event s (heap w p) = Some ev" "ev_added ev"
  shows "\<exists>w'. dispatch e ev p (upd p (slot_fired s) w) = Inr w' \<and> served p w w'"
proof (cases "ev_cb ev = On_finish_connect")
  case False
  then have "upd p (slot_fired s) w = w" using slot_fired_persist [OF ok ev(1)] by (simp add: upd_def)
  with slot_kind [OF ok ev(1)] False ev(1) p show ?thesis
    using on_telex_read_served [OF ok env p] on_read_ready_served [OF ok env p] on_write_ready_served [OF ok env p]
    by (auto simp: dispatch_def)
next
  case True
  then have s: "s = Service_Write" using slot_kind [OF ok ev(1)] by auto
  define v where "v = upd p (slot_fired s) w"
  have "\<not> ev_persist ev" using conn_ok_D(9) [OF ok, of ev] ev(1) s True by auto
  then have x: "heap v p = (heap w p) \<lparr>ev_service_write := event_del (Some ev)\<rparr>" using ev(1) s by (simp add: v_def)
  have "\<not> service_ready_write (heap w p)" using ok ev s by (auto simp: conn_ok_def idle_def)
  then have "\<not> service_ready_write (heap v p)" by (simp add: x)
  moreover have "ev_service_write (heap v p) = Some (ev \<lparr>ev_added := False\<rparr>)" by (simp add: x event_del_def)
  moreover have "conn_ok (heap v p)" using conn_ok_slot_fired [OF ok] by (simp add: v_def)
  moreover have pv: "p \<in> live v" using p by (simp add: v_def)
  ultimately have "\<exists>w'. on_finish_connect e (ev_fd ev) p v = Inr w' \<and> served p v w'"
    using on_finish_connect_served [OF _ env, of v p "ev \<lparr>ev_added := False\<rparr>"] by simp
  with True pv kept_slot_fired [of p w s] show ?thesis
    by (auto simp: dispatch_def v_def [symmetric] intro: kept_served)
qed

lemma served_bron_ok:
  assumes "bron_ok w" "p \<in> live w" "served p w w'"
  shows "bron_ok w'"
proof (cases "ended p w w'")
  case True
  have "card (live w) = Suc (card (live w - {p}))"
    using assms(1,2) by (metis bron_ok_def card.remove)
  with True assms(1) show ?thesis by (auto simp: ended_def bron_ok_def)
next
  case False
  with assms show ?thesis by (auto simp: served_def kept_def bron_ok_def)
qed

lemma conn_ok_new: "0 \<le> conn \<Longrightarrow> conn_ok (new_state n conn)"
  by (simp add: conn_ok_def new_state_def idle_def ev_is_def)

lemma accept_bron_ok:
  assumes "bron_ok w" "p \<notin> live w" "conn = - 1 \<or> 0 \<le> conn"
  shows "bron_ok (on_accept_ready e p conn w)"
proof (cases "conn = - 1")
  case False
  define w' where "w' = on_accept_ready e p conn w"
  have "live w' = insert p (live w)" "connections w' = insert p (connections w)" "orphans w' = orphans w"
    "active_connections w' = active_connections w + 1" "\<forall>q\<in>live w. heap w' q = heap w q"
    "heap w' p = (new_state (nclients w) conn) \<lparr>ev_watchdog := Some (Some (now e + WATCHDOG_S0_TIMEOUT)), t_created := now e\<rparr>"
    using False assms(2) by (simp_all add: w'_def on_accept_ready_def handle_bro_connection_def initialize_watchdog_def Let_def
        new_state_def open_fd_def)
  with assms False conn_ok_new [of conn] show ?thesis
    by (auto simp: bron_ok_def w'_def [symmetric])
qed (simp add: assms on_accept_ready_def)

definition bron_init :: "result \<Rightarrow> bool" where
  "bron_init r \<longleftrightarrow> r = Inr bron_0"

definition bron_inv :: "result \<Rightarrow> bool" where
  "bron_inv r \<longleftrightarrow> (\<exists>w. r = Inr w \<and> bron_ok w)"

interpretation bronnect: invariant_system bron_init "bron_step bron_env_ok" bron_inv
proof
  show "bron_inv s" if "bron_init s" for s
    using that by (simp add: bron_init_def bron_inv_def bron_ok_def bron_0_def)
  show "bron_inv t" if "bron_inv s" "bron_step bron_env_ok s t" for s t
    using that(2,1)
  proof (cases rule: bron_step.cases)
    case (step_accept p w conn e)
    with that(1) accept_bron_ok show ?thesis by (auto simp: bron_inv_def)
  next
    case (step_event p w s' ev e)
    with that(1) have "bron_ok w" "conn_ok (heap w p)" by (auto simp: bron_inv_def bron_ok_def)
    with dispatch_served [of w p e s' ev] step_event served_bron_ok show ?thesis by (auto simp: bron_inv_def)
  next
    case (step_orphan p ev w e)
    with that(1) show ?thesis by (auto simp: bron_inv_def bron_ok_def)
  next
    case (step_watchdog p w t' e)
    with that(1) have ok: "bron_ok w" "conn_ok (heap w p)" by (auto simp: bron_inv_def bron_ok_def)
    have "\<exists>w'. on_watchdog e p (upd p (\<lambda>st. st \<lparr>ev_watchdog := Some None\<rparr>) w) = Inr w' \<and> served p w w'"
      using ok(2) step_watchdog by (intro on_watchdog_served) simp_all
    with step_watchdog ok(1) served_bron_ok show ?thesis by (auto simp: bron_inv_def)
  qed
qed

section \<open>What the end of a connection does\<close>

lemma free_event_fields [simp]:
  "requests (free_event p b ev w) = requests w" "open_fds (free_event p b ev w) = open_fds w"
  by (simp_all add: free_event_def drop_event_def split: option.splits)

lemma free_state_fds:
  "open_fds (free_state p w) =
     open_fds w - {fd. 0 \<le> fd \<and> (fd = telex_conn (heap w p) \<or> fd = service_conn (heap w p))}"
  by (cases "0 \<le> telex_conn (heap w p)"; cases "0 \<le> service_conn (heap w p)") (auto simp: free_state_def Let_def)

lemma free_state_requests: "requests (free_state p w) = requests w"
  by (simp add: free_state_def Let_def)

lemma detach_fields [simp]:
  "flow_state (heap (detach p w) p) = flow_state (heap w p)" "requests (detach p w) = requests w"
  "telex_conn (heap (detach p w) p) = telex_conn (heap w p)"
  "service_conn (heap (detach p w) p) = service_conn (heap w p)"
  "open_fds (detach p w) = open_fds w - {fd. 0 \<le> fd \<and> fd = client_conn (heap w p)}"
  by (auto simp: detach_def Let_def)

lemma unblock_sent:
  assumes "sendall (unblock_sends e) (block_flow_msg (unblock_request (flow_state (heap w p))) 0) = Some (0, out)"
  shows "unblock e p w = Inr (w \<lparr>requests := requests w @ [block_flow_msg (unblock_request (flow_state (heap w p))) 0]\<rparr>)"
  using assms sendall_prefix [OF assms] by (simp add: unblock_def telex_remote_mod_flow_def)

lemma after_ssl_result:
  assumes "sendall (unblock_sends e) (block_flow_msg (unblock_request (flow_state (heap w p))) 0) = Some (0, out)"
  shows "\<exists>w'. cleanup_connection_after_ssl e p True w = Inr w' \<and>
    requests w' = requests w @ [block_flow_msg (unblock_request (flow_state (heap w p))) 0] \<and>
    open_fds w' = open_fds w - {fd. 0 \<le> fd \<and>
      (fd = client_conn (heap w p) \<or> fd = telex_conn (heap w p) \<or> fd = service_conn (heap w p))}"
proof -
  have "unblock e p (detach p w) =
      Inr (detach p w \<lparr>requests := requests w @ [block_flow_msg (unblock_request (flow_state (heap w p))) 0]\<rparr>)"
    using unblock_sent [of e "detach p w" p out] assms by simp
  then show ?thesis
    by (auto simp: cleanup_connection_after_ssl_def free_state_fds free_state_requests)
qed

section \<open>Properties\<close>


definition bron_env_0 :: bron_env where
  "bron_env_0 = \<lparr>now = 0, ssl_read_data = [1], ssl_read_err = SSL_ERROR_NONE, service_sends = [1], local_port = 0,
     service_recv = 0, service_data = [], recv_again = False, ssl_write_err = SSL_ERROR_NONE, shutdown1 = 1,
     shutdown2 = 1, shutdown_err = SSL_ERROR_NONE, unblock_sends = [13], hdr_status = 0, rec_type = 2, rec_len = 0,
     init_status = 0, init_data = \<lparr>init_flow = zero_flow, shared_secret = [], init_port = 1, dh = \<lparr>dh_p = [],
       dh_pub_key = [], dh_client_random = [], dh_server_random = [], dh_client_iv = [], dh_server_iv = []\<rparr>\<rparr>,
     svc_resolved = True, svc_sock = 5, svc_connect = 0, svc_inprogress = True, raw_received = 0,
     raw_pkt = [0x40, 0, 0, 0, 0, 0, 0, 0, 0, 0, 0, 0, 0, 9], fake_listen = 6, fake_bind = 0, fake_conn = 7,
     client_sends = [40], sockopt_ret = 0, sockopt_val = 0, hmac = (\<lambda>k m. take 32 (m @ replicate 32 0)), dh_new = True,
     dh_compute = (\<lambda>p x y. Some []), ossl = openssl_0\<rparr>"

text \<open>The example environment keeps the promises for a connection whose service has no descriptor 7.\<close>

lemma bron_env_0_ok: "service_conn st \<noteq> 7 \<Longrightarrow> bron_env_ok bron_env_0 st"
proof -
  assume s: "service_conn st \<noteq> 7"
  have b: "sendall [13] (block_flow_msg f 0) \<noteq> None" for f
    by (simp add: block_flow_msg_def le_bytes_numeral)
  have d: "raw_payload [0x40, 0, 0, 0, 0, 0, 0, 0, 0, 0, 0, 0, 0, 9] =
      Some [0x40, 0, 0, 0, 0, 0, 0, 0, 0, 0, 0, 0, 0, 9]"
    by (simp add: raw_payload_def ihl_def)
  have h: "\<forall>k m. length (take 32 (m @ replicate 32 0)) = SHA256_DIGEST_LENGTH"
    by (auto simp: SHA256_DIGEST_LENGTH_def min_def)
  obtain n where k: "telex_ssl_get_dh_key (\<lambda>k m. take 32 (m @ replicate 32 0)) [] = Some n"
    using dh_key_some [OF h] by blast
  have l: "\<exists>s. leaked_ssl bron_env_0 secret = Inr s" for secret
    using openssl_0_live [of secret "[]" "[]" 1] by (auto simp: leaked_ssl_def bron_env_0_def)
  show ?thesis
    using s b d k l by (simp add: bron_env_ok_def bron_env_0_def RECORD_TYPE_INIT_def)
qed

lemma reach_accepted: "reachable bron_init (bron_step bron_env_ok) (Inr (on_accept_ready bron_env_0 2 4 bron_0))"
proof (rule reachable_step)
  show "reachable bron_init (bron_step bron_env_ok) (Inr bron_0)"
    by (rule reachable_init) (simp add: bron_init_def)
  show "bron_step bron_env_ok (Inr bron_0) (Inr (on_accept_ready bron_env_0 2 4 bron_0))"
    by (rule step_accept) (simp_all add: bron_0_def)
qed


text \<open>C10: ending a connection closes exactly its descriptors and, when the flow blocker takes the message,
  sends it the request to unblock the connection's flow.\<close>

theorem cleanup_closes_and_unblocks:
  assumes "sendall (unblock_sends e) (block_flow_msg (unblock_request (flow_state (heap w p))) 0) = Some (0, out)"
  shows "\<exists>w'. cleanup_connection_after_ssl e p True w = Inr w' \<and>
    requests w' = requests w @ [block_flow_msg (unblock_request (flow_state (heap w p))) 0] \<and>
    open_fds w' = open_fds w - {fd. 0 \<le> fd \<and>
      (fd = client_conn (heap w p) \<or> fd = telex_conn (heap w p) \<or> fd = service_conn (heap w p))}"
  by (rule after_ssl_result [OF assms])

theorem cleanup_closes_and_unblocks_witness:
  "\<exists>w'. cleanup_connection_after_ssl bron_env_0 2 True (on_accept_ready bron_env_0 2 4 bron_0) = Inr w' \<and>
     open_fds w' = {} \<and> requests w' = [replicate 13 0]"
proof -
  define w where "w = on_accept_ready bron_env_0 2 4 bron_0"
  have st: "flow_state (heap w 2) = zero_flow" "client_conn (heap w 2) = - 1" "telex_conn (heap w 2) = 4"
    "service_conn (heap w 2) = - 1" "open_fds w = {4}" "requests w = []"
    by (simp_all add: w_def on_accept_ready_def handle_bro_connection_def initialize_watchdog_def new_state_def Let_def
        open_fd_def bron_0_def upd_def)
  have m: "block_flow_msg (unblock_request zero_flow) 0 = replicate 13 0"
    by (simp add: block_flow_msg_def unblock_request_def zero_flow_def le_bytes_numeral numeral_eq_Suc)
  have "sendall (unblock_sends bron_env_0) (block_flow_msg (unblock_request (flow_state (heap w 2))) 0) =
      Some (0, replicate 13 0)"
    unfolding st m by (simp add: bron_env_0_def numeral_eq_Suc)
  from cleanup_closes_and_unblocks [OF this] show ?thesis
    unfolding w_def [symmetric] by (auto simp: st m)
qed




text \<open>A connection that has received its init record.\<close>

definition conn_1 :: ConnectionState where
  "conn_1 = (new_state 0 4) \<lparr>state := 1, ssl := Some ssl_0\<rparr>"

definition bron_1 :: bron where
  "bron_1 = bron_0 \<lparr>heap := (\<lambda>p. conn_1), live := {2}, connections := {2}, open_fds := {4}, active_connections := 1\<rparr>"

lemma conn_1_ok: "conn_ok conn_1"
  by (simp add: conn_1_def conn_ok_def new_state_def idle_def ev_is_def)


text \<open>When the service cannot be reached, the flow blocker is asked to unblock the flow with all
  addresses and ports zero, not the flow of the init record, which stays blocked.\<close>

lemma service_failure_unblocks_wrong_flow:
  assumes "state (heap w p) = 0" "client_conn (heap w p) = - 1" "ssl (heap w p) = None" "flow_state (heap w p) = zero_flow"
    and "unat (rec_len e) = init_size" "recv_init_data e" "0 < uint (init_port (init_data e))"
    and "svc_resolved e" "svc_sock e < 0" "sendall (unblock_sends e) (replicate 13 0) = Some (0, out)"
  shows "\<exists>w'. telex_init e p w = Inr w' \<and> requests w' = requests w @ [replicate 13 0]"
proof -
  have m: "block_flow_msg (unblock_request zero_flow) 0 = replicate 13 0"
    by (simp add: block_flow_msg_def unblock_request_def zero_flow_def le_bytes_numeral numeral_eq_Suc)
  define v where "v = upd p (\<lambda>st. st \<lparr>key_port := uint (init_port (init_data e))\<rparr>)
    (initialize_watchdog e p (upd p (\<lambda>st. st \<lparr>state := 1\<rparr>) w))"
  define v1 where "v1 = upd p (\<lambda>st. st \<lparr>service_conn := svc_sock e\<rparr>) v"
  define v2 where "v2 = close_telex_connection p (upd p (\<lambda>st. st \<lparr>t_cleanup := now e\<rparr>) v1)"
  have st: "flow_state (heap v2 p) = zero_flow" "ssl (heap v2 p) = None" "0 < state (heap v2 p)" "requests v2 = requests w"
    using assms(3,4)
    by (simp_all add: v2_def v1_def v_def close_telex_st close_telex_connection_def initialize_watchdog_def Let_def)
  have "init_service_connection e p v = Inr (svc_sock e, v)"
    using assms(8,9) by (simp add: init_service_connection_def start_tcp_connect_def open_fd_def)
  then have "telex_init e p w = cleanup_connection e p v1"
    using assms(2,5-7,9) unfolding telex_init_def Let_def v_def [symmetric]
    by (simp add: v1_def v_def initialize_watchdog_def Let_def)
  also have "\<dots> = cleanup_connection_after_ssl e p True v2"
    using st(2,3) by (simp add: cleanup_connection_def cleanup_connection_ssl_def Let_def v2_def)
  finally show ?thesis
    using after_ssl_result [of e v2 p out] assms(10) by (auto simp: st m)
qed

text \<open>The same connection before the init record, and an init record for a service that gets no socket.\<close>

definition bron_2 :: bron where
  "bron_2 = bron_1 \<lparr>heap := (\<lambda>p. new_state 0 4)\<rparr>"

text \<open>C36: a shutdown can wait for an event that is not registered. When the cleanup starts while the
  client is marked readable and \<open>SSL_shutdown\<close> wants to read, the connection is kept, waiting for the
  client to become readable, but its read event stays deleted.\<close>

theorem shutdown_waits_unregistered:
  assumes "conn_ok (heap w p)" "client_ready_read (heap w p)" "shutdown1 e = 0" "shutdown2 e < 0"
    "shutdown_err e = SSL_ERROR_WANT_READ"
  shows "\<exists>w'. cleanup_connection e p w = Inr w' \<and> live w' = live w \<and> cleanup_waiting (heap w' p) = SSL_ERROR_WANT_READ \<and>
    (\<exists>x. ev_client_read (heap w' p) = Some x \<and> \<not> ev_added x)"
proof -
  have c: "0 \<le> client_conn (heap w p)" using conn_ok_ready_client [OF assms(1)] assms(2) by blast
  have s: "ssl (heap w p) \<noteq> None" by (rule conn_ok_client(1) [OF assms(1) c])
  obtain x where "ev_client_read (heap w p) = Some x" "\<not> ev_added x"
    using assms(1,2) by (auto simp: conn_ok_def idle_def)
  moreover define w1 where "w1 = close_telex_connection p (upd p (\<lambda>st. st \<lparr>t_cleanup := now e\<rparr>) w)"
  define w2 where "w2 = upd p (\<lambda>st. st \<lparr>cleanup_waiting := SSL_ERROR_WANT_READ\<rparr>) (upd p (\<lambda>st. st \<lparr>state := 5\<rparr>) w1)"
  have "ssl (heap w1 p) \<noteq> None" using s by (simp add: w1_def close_telex_st)
  then have "cleanup_connection e p w = Inr w2"
    unfolding cleanup_connection_def cleanup_connection_ssl_def cleanup_connection_ssl_try_shutdown_def Let_def
      w1_def [symmetric] w2_def using assms(3-5) by auto
  moreover have "live w2 = live w" using close_telex_kept [of p w w] by (simp add: w2_def w1_def close_telex_connection_def Let_def)
  ultimately show ?thesis by (simp add: w2_def w1_def close_telex_st)
qed

definition conn_3 :: ConnectionState where
  "conn_3 = (new_state 0 4) \<lparr>telex_conn := - 2, ev_telex_read := None, state := 3, ssl := Some ssl_0, client_conn := 7,
     client_ready_read := True,
     ev_client_read := Some \<lparr>ev_fd = 7, ev_cb = On_read_ready, ev_persist = True, ev_added = False\<rparr>\<rparr>"

lemma conn_3_ok: "conn_ok conn_3"
  by (simp add: conn_3_def conn_ok_def new_state_def idle_def ev_is_def)

theorem shutdown_waits_unregistered_witness:
  "\<exists>w'. cleanup_connection (bron_env_0 \<lparr>shutdown1 := 0, shutdown2 := - 1, shutdown_err := SSL_ERROR_WANT_READ\<rparr>) 2
       (bron_1 \<lparr>heap := (\<lambda>p. conn_3)\<rparr>) = Inr w' \<and> live w' = {2} \<and>
     cleanup_waiting (heap w' 2) = SSL_ERROR_WANT_READ \<and> (\<exists>x. ev_client_read (heap w' 2) = Some x \<and> \<not> ev_added x)"
proof -
  have "conn_ok (heap (bron_1 \<lparr>heap := (\<lambda>p. conn_3)\<rparr>) 2)" "client_ready_read (heap (bron_1 \<lparr>heap := (\<lambda>p. conn_3)\<rparr>) 2)"
    using conn_3_ok by (simp_all add: conn_3_def)
  from shutdown_waits_unregistered [OF this,
      of "bron_env_0 \<lparr>shutdown1 := 0, shutdown2 := - 1, shutdown_err := SSL_ERROR_WANT_READ\<rparr>"]
  show ?thesis by (simp add: bron_1_def)
qed

text \<open>Data read from the service is dropped when \<open>SSL_write\<close> would block: it is counted, the direction
  counts as served, and nothing is kept to be written later.\<close>

lemma want_write_drops_data:
  assumes "0 \<le> client_conn (heap w p)" "ssl (heap w p) \<noteq> None" "0 < service_recv e" "ssl_write_err e = SSL_ERROR_WANT_WRITE"
  shows "forward_service_to_client e p w = Inr (True, w \<lparr>down_bytes := down_bytes w + word_of_int (service_recv e)\<rparr>)"
  using assms by (simp add: forward_service_to_client_def Let_def)

end
