(* ===== verification/Sk_Forge.thy ===== *)
theory Sk_Forge
  imports Bronnect
begin

text \<open>
  The kernel part of the station (\<open>src/telex-station/station/linuxmod/tcp_sk_forge.c\<close>): a system call that makes an
  established TCP socket out of the state of somebody else's connection. A socket is the nest of records that the
  structures of Linux 2.6.37 form, with the members that the file reads or assigns; the record \<open>kernel\<close> holds the
  functions of the kernel that it calls, the clock and the outcome of what may fail. Undefined behaviour and \<open>BUG_ON\<close>
  are faults.
\<close>

section \<open>Sockets\<close>

datatype tcp_state = TCP_ESTABLISHED | TCP_SYN_RECV | TCP_CLOSE | TCP_LISTEN

text \<open>The flags and window scales of \<open>tcp_options_received\<close> are bit fields of 1 bit, and of 4 bits for the last three.\<close>

record tcp_options_received =
  rx_ts_recent :: u32
  rx_ts_recent_stamp :: int
  rx_ts_offset :: u32
  rx_saw_tstamp :: u16
  rx_tstamp_ok :: u16
  rx_dsack :: u16
  rx_wscale_ok :: u16
  rx_sack_ok :: u16
  rx_snd_wscale :: u16
  rx_rcv_wscale :: u16
  rx_num_sacks :: byte
  rx_user_mss :: u16
  rx_mss_clamp :: u16

record tcp_sock =
  rx_opt :: tcp_options_received
  tp_cookie_values :: bool
  tp_header_len :: u16
  tp_pred_flags :: u32
  tp_rcv_nxt :: u32
  tp_copied_seq :: u32
  tp_rcv_wup :: u32
  tp_snd_nxt :: u32
  tp_snd_una :: u32
  tp_snd_sml :: u32
  tp_snd_up :: u32
  tp_write_seq :: u32
  tp_pushed_seq :: u32
  tp_window_clamp :: u32
  tp_rcv_ssthresh :: u32
  tp_rcv_wnd :: u32
  tp_snd_wnd :: u32
  tp_max_window :: u32
  tp_advmss :: u16
  tp_srtt :: u32
  tp_mdev :: u32
  tp_packets_out :: u32
  tp_retrans_out :: u32
  tp_sacked_out :: u32
  tp_fackets_out :: u32
  tp_snd_ssthresh :: u32
  tp_snd_cwnd :: u32
  tp_snd_cwnd_cnt :: u32
  tp_bytes_acked :: u32
  tp_frto_counter :: byte
  tp_frto_highmark :: u32
  tp_lsndtime :: u32
  tp_ecn_flags :: byte
  tp_urg_data :: u16

record inet_sock =
  inet_daddr :: u32
  inet_rcv_saddr :: u32
  inet_saddr :: u32
  inet_dport :: u16
  inet_sport :: u16
  inet_num :: u16
  inet_opt :: bool
  inet_id :: u16
  mc_index :: int
  mc_ttl :: byte

record inet_connection_sock =
  icsk_retransmits :: byte
  icsk_backoff :: byte
  icsk_probes_out :: byte
  icsk_rto :: u32
  icsk_ext_hdr_len :: u16
  icsk_accept_queue :: bool
  icsk_init_congestion_ops :: bool

record sock =
  sk_state :: tcp_state
  sk_refcnt :: int
  sk_bh_locked :: bool
  sk_bound_dev_if :: int
  sk_mark :: u32
  sk_protocol :: byte
  sk_keepopen :: bool
  sk_stream_write_space :: bool
  sk_gso_tcpv4 :: bool
  inet :: inet_sock
  icsk :: inet_connection_sock
  tp :: tcp_sock

definition on_tp :: "(tcp_sock \<Rightarrow> tcp_sock) \<Rightarrow> sock \<Rightarrow> sock" where
  "on_tp f s = s \<lparr>tp := f (tp s)\<rparr>"

definition on_rx :: "(tcp_options_received \<Rightarrow> tcp_options_received) \<Rightarrow> sock \<Rightarrow> sock" where
  "on_rx f = on_tp (\<lambda>t. t \<lparr>rx_opt := f (rx_opt t)\<rparr>)"

definition on_inet :: "(inet_sock \<Rightarrow> inet_sock) \<Rightarrow> sock \<Rightarrow> sock" where
  "on_inet f s = s \<lparr>inet := f (inet s)\<rparr>"

definition on_icsk :: "(inet_connection_sock \<Rightarrow> inet_connection_sock) \<Rightarrow> sock \<Rightarrow> sock" where
  "on_icsk f s = s \<lparr>icsk := f (icsk s)\<rparr>"

record flowi =
  fl_oif :: int
  fl_mark :: u32
  fl_daddr :: u32
  fl_saddr :: u32
  fl_proto :: byte
  fl_flags :: byte
  fl_sport :: u16
  fl_dport :: u16

record rtable =
  rt_iif :: int
  dst_mtu :: u32
  dst_advmss :: u16

section \<open>The kernel below\<close>

record kernel =
  k_sk_clone :: "sock \<Rightarrow> sock option"
  k_flowi_flags :: "sock \<Rightarrow> byte"
  k_route :: "flowi \<Rightarrow> rtable option"
  k_prequeue_init :: "sock \<Rightarrow> sock"
  k_set_ca_open :: "sock \<Rightarrow> sock"
  k_init_xmit_timers :: "sock \<Rightarrow> sock"
  k_ooo_queue_init :: "sock \<Rightarrow> sock"
  k_reset_keepalive :: "sock \<Rightarrow> sock"
  k_setup_caps :: "rtable \<Rightarrow> sock \<Rightarrow> sock"
  k_mtup_init :: "sock \<Rightarrow> sock"
  k_sync_mss :: "u32 \<Rightarrow> sock \<Rightarrow> sock"
  k_initialize_rcv_mss :: "sock \<Rightarrow> sock"
  k_state_change :: "sock \<Rightarrow> sock"
  k_init_wl :: "u32 \<Rightarrow> sock \<Rightarrow> sock"
  k_valid_rtt_meas :: "sock \<Rightarrow> sock"
  k_rebuild_header :: "sock \<Rightarrow> sock"
  k_init_metrics :: "sock \<Rightarrow> sock"
  k_init_congestion_control :: "sock \<Rightarrow> sock"
  k_init_buffer_space :: "sock \<Rightarrow> sock"
  k_fast_path_on :: "sock \<Rightarrow> sock"
  k_inherit_port :: "sock \<Rightarrow> sock \<Rightarrow> int \<times> sock"
  k_hash_nolisten :: "sock \<Rightarrow> sock"
  k_enable_fack :: "u16 \<Rightarrow> u16"
  k_sysctl_tcp_fack :: bool
  k_hz :: u32
  k_seconds :: int
  k_time_stamp :: u32
  k_ack_time_stamp :: u32
  k_jiffies :: u64
  k_create_lite :: int
  k_map_fd :: int

datatype kernel_fault = BUG | Uninitialised_dst | Shift_overflow

section \<open>Forging\<close>

definition inet_csk_forge :: "kernel \<Rightarrow> u16 \<Rightarrow> u16 \<Rightarrow> sock \<Rightarrow> sock option" where
  "inet_csk_forge K sport dport sk =
     map_option (\<lambda>newsk.
       let newsk = newsk \<lparr>sk_state := TCP_SYN_RECV\<rparr>;
           newsk = on_inet (\<lambda>i. i \<lparr>inet_dport := sport, inet_num := le_word (rev (le_bytes 2 dport)), inet_sport := dport\<rparr>) newsk;
           newsk = newsk \<lparr>sk_stream_write_space := True\<rparr>
       in on_icsk (\<lambda>c. c \<lparr>icsk_retransmits := 0, icsk_backoff := 0, icsk_probes_out := 0, icsk_accept_queue := False\<rparr>) newsk)
     (k_sk_clone K sk)"

definition TCP_TIMEOUT_INIT :: "kernel \<Rightarrow> u32" where
  "TCP_TIMEOUT_INIT K = 3 * k_hz K"

text \<open>\<open>tcp_forge_openreq_child\<close> in three parts: the sequence numbers and counters, the options and windows, and the
  timestamps.\<close>

definition child_sequence :: "kernel \<Rightarrow> sock_state \<Rightarrow> sock \<Rightarrow> sock" where
  "child_sequence K st s =
     (let s = on_tp (\<lambda>t. t \<lparr>tp_pred_flags := 0, tp_rcv_wup := sk_rcv_nxt st, tp_copied_seq := sk_rcv_nxt st,
                tp_rcv_nxt := sk_rcv_nxt st, tp_snd_sml := sk_snd_nxt st, tp_snd_nxt := sk_snd_nxt st,
                tp_snd_up := sk_snd_nxt st\<rparr>) s;
          s = k_prequeue_init K s;
          s = on_tp (\<lambda>t. t \<lparr>tp_srtt := 0, tp_mdev := TCP_TIMEOUT_INIT K\<rparr>) s;
          s = on_icsk (\<lambda>c. c \<lparr>icsk_rto := TCP_TIMEOUT_INIT K\<rparr>) s;
          s = on_tp (\<lambda>t. t \<lparr>tp_packets_out := 0, tp_retrans_out := 0, tp_sacked_out := 0, tp_fackets_out := 0,
                tp_snd_ssthresh := 0x7fffffff, tp_snd_cwnd := 2, tp_snd_cwnd_cnt := 0, tp_bytes_acked := 0,
                tp_frto_counter := 0, tp_frto_highmark := 0\<rparr>) s;
          s = on_icsk (\<lambda>c. c \<lparr>icsk_init_congestion_ops := True\<rparr>) s;
          s = k_ooo_queue_init K (k_init_xmit_timers K (k_set_ca_open K s));
          s = on_tp (\<lambda>t. t \<lparr>tp_write_seq := tp_snd_nxt t, tp_pushed_seq := tp_snd_nxt t\<rparr>) s;
          s = on_rx (\<lambda>r. r \<lparr>rx_saw_tstamp := 0, rx_dsack := 0, rx_num_sacks := 0\<rparr>) s;
          s = on_tp (\<lambda>t. t \<lparr>tp_urg_data := 0\<rparr>) s
      in if sk_keepopen s then k_reset_keepalive K s else s)"

definition child_options :: "kernel \<Rightarrow> sock_state \<Rightarrow> sock \<Rightarrow> sock" where
  "child_options K st s =
     (let s = on_rx (\<lambda>r. r \<lparr>rx_tstamp_ok := (if sk_tstamp_ok st \<noteq> 0 then 1 else 0), rx_sack_ok := take_bit 4 (ucast (sk_sack_ok st))\<rparr>) s;
          s = (if rx_sack_ok (rx_opt (tp s)) \<noteq> 0 \<and> k_sysctl_tcp_fack K
               then on_rx (\<lambda>r. r \<lparr>rx_sack_ok := k_enable_fack K (rx_sack_ok r)\<rparr>) s else s);
          wnd = push_bit (unat (sk_rcv_wscale st)) (sk_rcv_wnd st);
          s = on_tp (\<lambda>t. t \<lparr>tp_window_clamp := push_bit 14 65535, tp_rcv_ssthresh := wnd, tp_rcv_wnd := wnd\<rparr>) s;
          s = on_rx (\<lambda>r. r \<lparr>rx_wscale_ok := take_bit 1 (ucast (sk_wscale_ok st))\<rparr>) s;
          s = (if rx_wscale_ok (rx_opt (tp s)) \<noteq> 0
               then on_rx (\<lambda>r. r \<lparr>rx_snd_wscale := take_bit 4 (ucast (sk_snd_wscale st)),
                      rx_rcv_wscale := take_bit 4 (ucast (sk_rcv_wscale st))\<rparr>) s
               else on_tp (\<lambda>t. t \<lparr>tp_window_clamp := min (tp_window_clamp t) 65535\<rparr>)
                      (on_rx (\<lambda>r. r \<lparr>rx_snd_wscale := 0, rx_rcv_wscale := 0\<rparr>) s));
          wnd = push_bit (unat (rx_snd_wscale (rx_opt (tp s)))) (sk_snd_wnd st)
      in on_tp (\<lambda>t. t \<lparr>tp_snd_wnd := wnd, tp_max_window := wnd\<rparr>) s)"

definition child_timestamps :: "kernel \<Rightarrow> sock_state \<Rightarrow> sock \<Rightarrow> sock" where
  "child_timestamps K st s =
     (let s = (if rx_tstamp_ok (rx_opt (tp s)) \<noteq> 0
               then on_tp (\<lambda>t. t \<lparr>tp_header_len := 20 + 12\<rparr>)
                      (on_rx (\<lambda>r. r \<lparr>rx_ts_recent := sk_ts_recent st, rx_ts_recent_stamp := k_seconds K,
                         rx_ts_offset := sk_ts_val st - k_time_stamp K\<rparr>) s)
               else on_rx (\<lambda>r. r \<lparr>rx_ts_offset := 0\<rparr>) (on_tp (\<lambda>t. t \<lparr>tp_header_len := 20\<rparr>)
                      (on_rx (\<lambda>r. r \<lparr>rx_ts_recent_stamp := 0\<rparr>) s)));
          s = on_rx (\<lambda>r. r \<lparr>rx_mss_clamp := ucast (sk_mss_clamp st)\<rparr>) s
      in on_tp (\<lambda>t. t \<lparr>tp_ecn_flags := (if sk_ecn_ok st \<noteq> 0 then 1 else 0)\<rparr>) s)"

definition tcp_forge_openreq_child :: "kernel \<Rightarrow> sock \<Rightarrow> sock_state \<Rightarrow> kernel_fault + sock option" where
  "tcp_forge_openreq_child K sk st =
     (case inet_csk_forge K (sk_sport st) (sk_dport st) sk of
        None \<Rightarrow> Inr None
      | Some newsk \<Rightarrow>
          if tp_cookie_values (tp sk) then Inl BUG
          else if unat (sk_rcv_wscale st) \<ge> 32 then Inl Shift_overflow
          else Inr (Some (child_timestamps K st (child_options K st (child_sequence K st newsk)))))"

definition fake_inet_csk_route_req :: "kernel \<Rightarrow> sock \<Rightarrow> sock_state \<Rightarrow> rtable option" where
  "fake_inet_csk_route_req K sk st =
     k_route K \<lparr>fl_oif = sk_bound_dev_if sk, fl_mark = sk_mark sk, fl_daddr = sk_saddr st, fl_saddr = sk_daddr st,
       fl_proto = sk_protocol sk, fl_flags = k_flowi_flags K sk, fl_sport = sk_dport st, fl_dport = sk_sport st\<rparr>"

text \<open>The exit of \<open>tcp_v4_forge_syn_recv_sock\<close> releases \<open>dst\<close>, which has no value when there is no route.\<close>

definition tcp_v4_forge_syn_recv_sock :: "kernel \<Rightarrow> sock \<Rightarrow> sock_state \<Rightarrow> kernel_fault + sock option" where
  "tcp_v4_forge_syn_recv_sock K sk st =
     (case fake_inet_csk_route_req K sk st of
        None \<Rightarrow> Inl Uninitialised_dst
      | Some rt \<Rightarrow>
          and_then (tcp_forge_openreq_child K sk st) (\<lambda>r.
            Inr (map_option (\<lambda>s.
              let s = s \<lparr>sk_gso_tcpv4 := True\<rparr>;
                  s = k_setup_caps K rt s;
                  s = on_inet (\<lambda>i. i \<lparr>inet_daddr := sk_saddr st, inet_rcv_saddr := sk_daddr st, inet_saddr := sk_daddr st,
                        inet_opt := False, mc_index := rt_iif rt, mc_ttl := 1\<rparr>) s;
                  s = on_icsk (\<lambda>c. c \<lparr>icsk_ext_hdr_len := 0\<rparr>) s;
                  s = on_inet (\<lambda>i. i \<lparr>inet_id := ucast (ucast (tp_write_seq (tp s)) XOR k_jiffies K)\<rparr>) s;
                  s = k_sync_mss K (dst_mtu rt) (k_mtup_init K s);
                  s = on_tp (\<lambda>t. t \<lparr>tp_advmss := dst_advmss rt\<rparr>) s;
                  mss = rx_user_mss (rx_opt (tp sk));
                  s = (if mss \<noteq> 0 \<and> mss < tp_advmss (tp s) then on_tp (\<lambda>t. t \<lparr>tp_advmss := mss\<rparr>) s else s)
              in k_initialize_rcv_mss K s) r)))"

definition fake_recved_ack :: "kernel \<Rightarrow> sock_state \<Rightarrow> sock \<Rightarrow> sock" where
  "fake_recved_ack K st s =
     (let s = on_tp (\<lambda>t. t \<lparr>tp_copied_seq := tp_rcv_nxt t\<rparr>) s;
          s = k_state_change K (s \<lparr>sk_state := TCP_ESTABLISHED\<rparr>);
          s = on_tp (\<lambda>t. t \<lparr>tp_snd_una := sk_snd_una st, tp_snd_up := sk_snd_una st\<rparr>) s;
          s = k_valid_rtt_meas K (k_init_wl K (sk_rcv_nxt st) s);
          s = (if rx_tstamp_ok (rx_opt (tp s)) \<noteq> 0 then on_tp (\<lambda>t. t \<lparr>tp_advmss := tp_advmss t - 12\<rparr>) s else s);
          s = k_init_congestion_control K (k_init_metrics K (k_rebuild_header K s));
          s = on_tp (\<lambda>t. t \<lparr>tp_lsndtime := k_ack_time_stamp K\<rparr>) s
      in k_fast_path_on K (k_init_buffer_space K (k_initialize_rcv_mss K (k_mtup_init K s))))"

section \<open>The system call\<close>

text \<open>The lock of the listening socket, the references to the protocol's module, the descriptors of the caller,
  the connected sockets behind them, and the forged sockets that nothing refers to.\<close>

record forge_world =
  listener_locked :: bool
  module_refs :: int
  caller_fds :: "int set"
  connected_sk :: "int \<Rightarrow> sock option"
  leaked_sk :: "sock list"

definition EINVAL :: int where "EINVAL = 22"
definition EFAULT :: int where "EFAULT = 14"

text \<open>The result is the error code and the new socket.\<close>

definition fake_inet_csk_accept :: "kernel \<Rightarrow> sock \<Rightarrow> sock_state \<Rightarrow> int \<Rightarrow> forge_world \<Rightarrow> kernel_fault + (int \<times> sock option) \<times> forge_world" where
  "fake_inet_csk_accept K sk st er w =
     (let w = w \<lparr>listener_locked := True\<rparr>
      in and_then (tcp_v4_forge_syn_recv_sock K sk st) (\<lambda>r.
           case r of
             None \<Rightarrow> Inr ((- EINVAL, None), w)
           | Some newsk \<Rightarrow>
               (case k_inherit_port K sk (fake_recved_ack K st newsk) of
                  (inherited, newsk) \<Rightarrow>
                    if inherited < 0
                    then Inr ((- EINVAL, None), w \<lparr>leaked_sk := newsk \<lparr>sk_refcnt := sk_refcnt newsk - 1\<rparr> # leaked_sk w\<rparr>)
                    else Inr ((er, Some (k_hash_nolisten K newsk)), w \<lparr>listener_locked := False\<rparr>))))"

text \<open>\<open>fake_inet_accept\<close> grafts the new socket onto the one behind the descriptor \<open>fd\<close>.\<close>

definition fake_inet_accept :: "kernel \<Rightarrow> sock \<Rightarrow> sock_state \<Rightarrow> int \<Rightarrow> forge_world \<Rightarrow> kernel_fault + int \<times> forge_world" where
  "fake_inet_accept K sk st fd w =
     and_then (fake_inet_csk_accept K sk st (- EINVAL) w) (\<lambda>((er, sk2), w).
       case sk2 of
         None \<Rightarrow> Inr (er, w)
       | Some sk2 \<Rightarrow>
           if sk_refcnt sk2 < 2 then Inl BUG
           else Inr (0, w \<lparr>connected_sk := (connected_sk w)(fd \<mapsto> sk2 \<lparr>sk_bh_locked := False, sk_refcnt := sk_refcnt sk2 - 1\<rparr>)\<rparr>))"

definition fake_accept_ioctl :: "kernel \<Rightarrow> sock \<Rightarrow> sock_state option \<Rightarrow> forge_world \<Rightarrow> kernel_fault + int \<times> forge_world" where
  "fake_accept_ioctl K sk arg w =
     (case arg of
        None \<Rightarrow> Inr (- EFAULT, w)
      | Some st \<Rightarrow>
          if k_create_lite K < 0 then Inr (k_create_lite K, w)
          else let w = w \<lparr>module_refs := module_refs w + 1\<rparr>; newfd = k_map_fd K
               in if newfd < 0 then Inr (newfd, w \<lparr>module_refs := module_refs w - 1\<rparr>)
                  else let w = w \<lparr>caller_fds := insert newfd (caller_fds w)\<rparr>
                       in and_then (fake_inet_accept K sk st newfd w) (\<lambda>(er, w).
                            if er < 0 then Inr (er, w \<lparr>caller_fds := caller_fds w - {newfd}, module_refs := module_refs w - 1\<rparr>)
                            else Inr (newfd, w)))"

section \<open>What the kernel keeps\<close>

text \<open>The identity of a connection, its sequence numbers, windows and options. The functions of the kernel that are called
  initialise timers, queues, congestion control and caches, and leave all this alone; a clone is locked and has two
  references.\<close>

definition view :: "sock \<Rightarrow> tcp_state \<times> int \<times> bool \<times> u32 \<times> u32 \<times> u32 \<times> u16 \<times> u16 \<times> u16 \<times> u32 \<times> u32 \<times> u32 \<times> u32 \<times> u32 \<times> u32 \<times> u32 \<times> tcp_options_received" where
  "view s = (sk_state s, sk_refcnt s, sk_bh_locked s, inet_daddr (inet s), inet_saddr (inet s), inet_rcv_saddr (inet s), inet_dport (inet s),
     inet_sport (inet s), inet_num (inet s), tp_rcv_nxt (tp s), tp_copied_seq (tp s), tp_snd_nxt (tp s), tp_write_seq (tp s),
     tp_snd_una (tp s), tp_rcv_wnd (tp s), tp_snd_wnd (tp s), rx_opt (tp s))"

definition keeps :: "(sock \<Rightarrow> sock) \<Rightarrow> bool" where
  "keeps f \<longleftrightarrow> (\<forall>s. view (f s) = view s)"

definition kernel_ok :: "kernel \<Rightarrow> bool" where
  "kernel_ok K \<longleftrightarrow>
     keeps (k_prequeue_init K) \<and> keeps (k_set_ca_open K) \<and> keeps (k_init_xmit_timers K) \<and> keeps (k_ooo_queue_init K) \<and>
     keeps (k_reset_keepalive K) \<and> (\<forall>rt. keeps (k_setup_caps K rt)) \<and> keeps (k_mtup_init K) \<and> (\<forall>m. keeps (k_sync_mss K m)) \<and>
     keeps (k_initialize_rcv_mss K) \<and> keeps (k_state_change K) \<and> (\<forall>m. keeps (k_init_wl K m)) \<and> keeps (k_valid_rtt_meas K) \<and>
     keeps (k_rebuild_header K) \<and> keeps (k_init_metrics K) \<and> keeps (k_init_congestion_control K) \<and> keeps (k_init_buffer_space K) \<and>
     keeps (k_fast_path_on K) \<and> keeps (k_hash_nolisten K) \<and>
     (\<forall>sk. keeps (\<lambda>s. snd (k_inherit_port K sk s))) \<and>
     (\<forall>sk s. k_sk_clone K sk = Some s \<longrightarrow> sk_refcnt s = 2 \<and> sk_bh_locked s)"

lemma keeps_fields:
  "keeps f \<Longrightarrow> sk_state (f s) = sk_state s" "keeps f \<Longrightarrow> sk_refcnt (f s) = sk_refcnt s" "keeps f \<Longrightarrow> sk_bh_locked (f s) = sk_bh_locked s"
  "keeps f \<Longrightarrow> inet_daddr (inet (f s)) = inet_daddr (inet s)" "keeps f \<Longrightarrow> inet_saddr (inet (f s)) = inet_saddr (inet s)" "keeps f \<Longrightarrow> inet_rcv_saddr (inet (f s)) = inet_rcv_saddr (inet s)"
  "keeps f \<Longrightarrow> inet_dport (inet (f s)) = inet_dport (inet s)" "keeps f \<Longrightarrow> inet_sport (inet (f s)) = inet_sport (inet s)" "keeps f \<Longrightarrow> inet_num (inet (f s)) = inet_num (inet s)"
  "keeps f \<Longrightarrow> tp_rcv_nxt (tp (f s)) = tp_rcv_nxt (tp s)" "keeps f \<Longrightarrow> tp_copied_seq (tp (f s)) = tp_copied_seq (tp s)" "keeps f \<Longrightarrow> tp_snd_nxt (tp (f s)) = tp_snd_nxt (tp s)"
  "keeps f \<Longrightarrow> tp_write_seq (tp (f s)) = tp_write_seq (tp s)" "keeps f \<Longrightarrow> tp_snd_una (tp (f s)) = tp_snd_una (tp s)" "keeps f \<Longrightarrow> tp_rcv_wnd (tp (f s)) = tp_rcv_wnd (tp s)"
  "keeps f \<Longrightarrow> tp_snd_wnd (tp (f s)) = tp_snd_wnd (tp s)" "keeps f \<Longrightarrow> rx_opt (tp (f s)) = rx_opt (tp s)"
  by (simp_all add: keeps_def view_def)

lemma kernel_keeps:
  "kernel_ok K \<Longrightarrow> keeps (k_prequeue_init K)" "kernel_ok K \<Longrightarrow> keeps (k_set_ca_open K)" "kernel_ok K \<Longrightarrow> keeps (k_init_xmit_timers K)"
  "kernel_ok K \<Longrightarrow> keeps (k_ooo_queue_init K)" "kernel_ok K \<Longrightarrow> keeps (k_reset_keepalive K)" "kernel_ok K \<Longrightarrow> keeps (k_setup_caps K rt)"
  "kernel_ok K \<Longrightarrow> keeps (k_mtup_init K)" "kernel_ok K \<Longrightarrow> keeps (k_sync_mss K m)" "kernel_ok K \<Longrightarrow> keeps (k_initialize_rcv_mss K)"
  "kernel_ok K \<Longrightarrow> keeps (k_state_change K)" "kernel_ok K \<Longrightarrow> keeps (k_init_wl K m)" "kernel_ok K \<Longrightarrow> keeps (k_valid_rtt_meas K)"
  "kernel_ok K \<Longrightarrow> keeps (k_rebuild_header K)" "kernel_ok K \<Longrightarrow> keeps (k_init_metrics K)" "kernel_ok K \<Longrightarrow> keeps (k_init_congestion_control K)"
  "kernel_ok K \<Longrightarrow> keeps (k_init_buffer_space K)" "kernel_ok K \<Longrightarrow> keeps (k_fast_path_on K)" "kernel_ok K \<Longrightarrow> keeps (k_hash_nolisten K)"
  by (simp_all add: kernel_ok_def)

lemmas kernel_fields =
  keeps_fields [OF kernel_keeps(1)] keeps_fields [OF kernel_keeps(2)] keeps_fields [OF kernel_keeps(3)]
  keeps_fields [OF kernel_keeps(4)] keeps_fields [OF kernel_keeps(5)] keeps_fields [OF kernel_keeps(6)]
  keeps_fields [OF kernel_keeps(7)] keeps_fields [OF kernel_keeps(8)] keeps_fields [OF kernel_keeps(9)]
  keeps_fields [OF kernel_keeps(10)] keeps_fields [OF kernel_keeps(11)] keeps_fields [OF kernel_keeps(12)]
  keeps_fields [OF kernel_keeps(13)] keeps_fields [OF kernel_keeps(14)] keeps_fields [OF kernel_keeps(15)]
  keeps_fields [OF kernel_keeps(16)] keeps_fields [OF kernel_keeps(17)] keeps_fields [OF kernel_keeps(18)]

lemmas on_defs = on_tp_def on_rx_def on_inet_def on_icsk_def

section \<open>The forged socket\<close>

lemma child_sequence_fields:
  assumes "kernel_ok K"
  shows "sk_state (child_sequence K st s) = sk_state s" "sk_refcnt (child_sequence K st s) = sk_refcnt s"
    "sk_bh_locked (child_sequence K st s) = sk_bh_locked s"
    "inet_dport (inet (child_sequence K st s)) = inet_dport (inet s)" "inet_sport (inet (child_sequence K st s)) = inet_sport (inet s)"
    "inet_num (inet (child_sequence K st s)) = inet_num (inet s)"
    "tp_rcv_nxt (tp (child_sequence K st s)) = sk_rcv_nxt st" "tp_copied_seq (tp (child_sequence K st s)) = sk_rcv_nxt st"
    "tp_snd_nxt (tp (child_sequence K st s)) = sk_snd_nxt st" "tp_write_seq (tp (child_sequence K st s)) = sk_snd_nxt st"
  using assms by (simp_all add: child_sequence_def Let_def on_defs kernel_fields)

lemma child_options_fields:
  "sk_state (child_options K st s) = sk_state s" "sk_refcnt (child_options K st s) = sk_refcnt s"
  "sk_bh_locked (child_options K st s) = sk_bh_locked s" "inet (child_options K st s) = inet s"
  "tp_rcv_nxt (tp (child_options K st s)) = tp_rcv_nxt (tp s)" "tp_copied_seq (tp (child_options K st s)) = tp_copied_seq (tp s)"
  "tp_snd_nxt (tp (child_options K st s)) = tp_snd_nxt (tp s)" "tp_write_seq (tp (child_options K st s)) = tp_write_seq (tp s)"
  "tp_rcv_wnd (tp (child_options K st s)) = push_bit (unat (sk_rcv_wscale st)) (sk_rcv_wnd st)"
  "rx_tstamp_ok (rx_opt (tp (child_options K st s))) = (if sk_tstamp_ok st \<noteq> 0 then 1 else 0)"
  by (simp_all add: child_options_def Let_def on_defs)

lemma child_options_snd_wnd:
  "sk_wscale_ok st = 1 \<Longrightarrow>
     tp_snd_wnd (tp (child_options K st s)) = push_bit (unat (take_bit 4 (ucast (sk_snd_wscale st) :: u16))) (sk_snd_wnd st)"
  by (simp add: child_options_def Let_def on_defs)

lemma child_timestamps_fields:
  "sk_state (child_timestamps K st s) = sk_state s" "sk_refcnt (child_timestamps K st s) = sk_refcnt s"
  "sk_bh_locked (child_timestamps K st s) = sk_bh_locked s" "inet (child_timestamps K st s) = inet s"
  "tp_rcv_nxt (tp (child_timestamps K st s)) = tp_rcv_nxt (tp s)" "tp_copied_seq (tp (child_timestamps K st s)) = tp_copied_seq (tp s)"
  "tp_snd_nxt (tp (child_timestamps K st s)) = tp_snd_nxt (tp s)" "tp_write_seq (tp (child_timestamps K st s)) = tp_write_seq (tp s)"
  "tp_rcv_wnd (tp (child_timestamps K st s)) = tp_rcv_wnd (tp s)" "tp_snd_wnd (tp (child_timestamps K st s)) = tp_snd_wnd (tp s)"
  "rx_tstamp_ok (rx_opt (tp (child_timestamps K st s))) = rx_tstamp_ok (rx_opt (tp s))"
  "rx_ts_offset (rx_opt (tp (child_timestamps K st s))) =
     (if rx_tstamp_ok (rx_opt (tp s)) \<noteq> 0 then sk_ts_val st - k_time_stamp K else 0)"
  "rx_tstamp_ok (rx_opt (tp s)) \<noteq> 0 \<Longrightarrow> rx_ts_recent (rx_opt (tp (child_timestamps K st s))) = sk_ts_recent st"
  by (simp_all add: child_timestamps_def Let_def on_defs)

lemmas child_fields = child_sequence_fields child_options_fields child_options_snd_wnd child_timestamps_fields

text \<open>What a forged socket takes from the state that it is given.\<close>

definition forged_from :: "kernel \<Rightarrow> sock_state \<Rightarrow> sock \<Rightarrow> bool" where
  "forged_from K st s \<longleftrightarrow>
     inet_dport (inet s) = sk_sport st \<and> inet_sport (inet s) = sk_dport st \<and> inet_num (inet s) = le_word (rev (le_bytes 2 (sk_dport st))) \<and>
     tp_rcv_nxt (tp s) = sk_rcv_nxt st \<and> tp_copied_seq (tp s) = sk_rcv_nxt st \<and> tp_snd_nxt (tp s) = sk_snd_nxt st \<and>
     tp_write_seq (tp s) = sk_snd_nxt st \<and> tp_rcv_wnd (tp s) = push_bit (unat (sk_rcv_wscale st)) (sk_rcv_wnd st) \<and>
     (sk_wscale_ok st = 1 \<longrightarrow> tp_snd_wnd (tp s) = push_bit (unat (take_bit 4 (ucast (sk_snd_wscale st) :: u16))) (sk_snd_wnd st)) \<and>
     rx_tstamp_ok (rx_opt (tp s)) = (if sk_tstamp_ok st \<noteq> 0 then 1 else 0) \<and>
     (sk_tstamp_ok st \<noteq> 0 \<longrightarrow> rx_ts_recent (rx_opt (tp s)) = sk_ts_recent st \<and>
        k_time_stamp K + rx_ts_offset (rx_opt (tp s)) = sk_ts_val st)"

lemma forged_from_keeps: "keeps f \<Longrightarrow> forged_from K st (f s) = forged_from K st s"
  by (simp add: forged_from_def keeps_fields)

lemma openreq_child_forged:
  assumes "kernel_ok K" "tcp_forge_openreq_child K sk st = Inr (Some s)"
  shows "forged_from K st s \<and> sk_state s = TCP_SYN_RECV \<and> sk_refcnt s = 2 \<and> sk_bh_locked s"
proof -
  obtain n where n: "inet_csk_forge K (sk_sport st) (sk_dport st) sk = Some n"
    "s = child_timestamps K st (child_options K st (child_sequence K st n))"
    using assms(2) by (auto simp: tcp_forge_openreq_child_def split: option.splits if_splits)
  then have "sk_refcnt n = 2" "sk_bh_locked n" "sk_state n = TCP_SYN_RECV" "inet_dport (inet n) = sk_sport st"
    "inet_sport (inet n) = sk_dport st" "inet_num (inet n) = le_word (rev (le_bytes 2 (sk_dport st)))"
    using assms(1) by (auto simp: inet_csk_forge_def Let_def on_defs kernel_ok_def)
  then show ?thesis using assms(1) by (simp add: forged_from_def n(2) child_fields)
qed

lemma syn_recv_sock_forged:
  assumes "kernel_ok K" "tcp_v4_forge_syn_recv_sock K sk st = Inr (Some s)"
  shows "forged_from K st s \<and> sk_refcnt s = 2 \<and> sk_bh_locked s \<and> inet_daddr (inet s) = sk_saddr st \<and>
    inet_saddr (inet s) = sk_daddr st \<and> inet_rcv_saddr (inet s) = sk_daddr st"
proof -
  obtain n where n: "tcp_forge_openreq_child K sk st = Inr (Some n)"
    using assms(2) by (auto simp: tcp_v4_forge_syn_recv_sock_def and_then_def split: option.splits sum.splits)
  show ?thesis
    using assms(2) openreq_child_forged [OF assms(1) n] assms(1)
    by (auto simp: tcp_v4_forge_syn_recv_sock_def n Let_def on_defs kernel_fields forged_from_def split: option.splits)
qed

lemma recved_ack_forged:
  assumes "kernel_ok K" "forged_from K st s"
  shows "forged_from K st (fake_recved_ack K st s)" "sk_state (fake_recved_ack K st s) = TCP_ESTABLISHED"
    "sk_refcnt (fake_recved_ack K st s) = sk_refcnt s" "sk_bh_locked (fake_recved_ack K st s) = sk_bh_locked s"
    "inet_daddr (inet (fake_recved_ack K st s)) = inet_daddr (inet s)" "inet_saddr (inet (fake_recved_ack K st s)) = inet_saddr (inet s)"
    "tp_snd_una (tp (fake_recved_ack K st s)) = sk_snd_una st"
  using assms by (simp_all add: fake_recved_ack_def Let_def on_defs kernel_fields forged_from_def)

lemma csk_accept_cases:
  assumes "fake_inet_csk_accept K sk st er w = Inr ((e, r), w')"
  obtains (fail) "r = None" "e = - EINVAL" "listener_locked w'" "module_refs w' = module_refs w" "caller_fds w' = caller_fds w"
  | (forged) n s where "r = Some (k_hash_nolisten K s)" "tcp_v4_forge_syn_recv_sock K sk st = Inr (Some n)"
      "s = snd (k_inherit_port K sk (fake_recved_ack K st n))" "w' = w \<lparr>listener_locked := False\<rparr>"
  using assms unfolding fake_inet_csk_accept_def Let_def and_then_def
  by (auto split: sum.splits option.splits prod.splits if_splits) (metis snd_conv)

lemma inet_accept_cases:
  assumes "fake_inet_accept K sk st fd w = Inr (e, w')"
  obtains (fail) "e = - EINVAL" "listener_locked w'" "module_refs w' = module_refs w" "caller_fds w' = caller_fds w"
  | (forged) n s where "e = 0" "tcp_v4_forge_syn_recv_sock K sk st = Inr (Some n)"
      "s = k_hash_nolisten K (snd (k_inherit_port K sk (fake_recved_ack K st n)))"
      "w' = w \<lparr>listener_locked := False, connected_sk := (connected_sk w)(fd \<mapsto> s \<lparr>sk_bh_locked := False, sk_refcnt := sk_refcnt s - 1\<rparr>)\<rparr>"
proof -
  obtain e1 r w1 where a: "fake_inet_csk_accept K sk st (- EINVAL) w = Inr ((e1, r), w1)"
    "(case r of None \<Rightarrow> Inr (e1, w1) | Some sk2 \<Rightarrow> if sk_refcnt sk2 < 2 then Inl BUG else
        Inr (0, w1 \<lparr>connected_sk := (connected_sk w1)(fd \<mapsto> sk2 \<lparr>sk_bh_locked := False, sk_refcnt := sk_refcnt sk2 - 1\<rparr>)\<rparr>)) = Inr (e, w')"
    using assms unfolding fake_inet_accept_def and_then_def by (auto split: sum.splits)
  from a(1) show thesis
    by (cases rule: csk_accept_cases) (use a(2) that in \<open>auto split: if_splits\<close>)
qed

lemma ioctl_cases:
  assumes "fake_accept_ioctl K sk (Some st) w = Inr (r, w')" "0 \<le> k_create_lite K" "0 \<le> k_map_fd K"
  obtains e w1 where "fake_inet_accept K sk st (k_map_fd K)
      (w \<lparr>module_refs := module_refs w + 1, caller_fds := insert (k_map_fd K) (caller_fds w)\<rparr>) = Inr (e, w1)"
    "(r, w') = (if e < 0 then (e, w1 \<lparr>caller_fds := caller_fds w1 - {k_map_fd K}, module_refs := module_refs w1 - 1\<rparr>) else (k_map_fd K, w1))"
  using assms unfolding fake_accept_ioctl_def Let_def and_then_def by (auto split: sum.splits if_splits)

lemma wscale_bits:
  fixes x :: u16
  assumes "unat x < 16"
  shows "unat (ucast x :: byte) = unat x" "unat (take_bit 4 (ucast (ucast x :: byte) :: u16)) = unat x"
proof -
  show b: "unat (ucast x :: byte) = unat x" using assms by (simp add: unsigned_ucast_eq unsigned_take_bit_eq take_bit_nat_eq_self)
  have "unat (ucast (ucast x :: byte) :: u16) = unat x" using assms b by (simp add: unsigned_ucast_eq unsigned_take_bit_eq take_bit_nat_eq_self)
  then show "unat (take_bit 4 (ucast (ucast x :: byte) :: u16)) = unat x"
    using assms by (simp add: unsigned_take_bit_eq take_bit_nat_eq_self)
qed

text \<open>A system call that returns a descriptor has forged the socket behind it.\<close>

lemma ioctl_forged:
  assumes "kernel_ok K" "fake_accept_ioctl K sk (Some st) w = Inr (fd, w')" "0 \<le> fd"
  shows "\<exists>s. connected_sk w' fd = Some s \<and> fd \<in> caller_fds w' \<and> \<not> listener_locked w' \<and> forged_from K st s \<and>
    sk_state s = TCP_ESTABLISHED \<and> \<not> sk_bh_locked s \<and> sk_refcnt s = 1 \<and> inet_daddr (inet s) = sk_saddr st \<and>
    inet_saddr (inet s) = sk_daddr st \<and> tp_snd_una (tp s) = sk_snd_una st"
proof -
  have pos: "0 \<le> k_create_lite K" "0 \<le> k_map_fd K"
    using assms(2,3) by (auto simp: fake_accept_ioctl_def Let_def split: if_splits)
  obtain e w1 where a: "fake_inet_accept K sk st (k_map_fd K)
      (w \<lparr>module_refs := module_refs w + 1, caller_fds := insert (k_map_fd K) (caller_fds w)\<rparr>) = Inr (e, w1)"
    "(fd, w') = (if e < 0 then (e, w1 \<lparr>caller_fds := caller_fds w1 - {k_map_fd K}, module_refs := module_refs w1 - 1\<rparr>) else (k_map_fd K, w1))"
    by (rule ioctl_cases [OF assms(2) pos])
  then have e: "\<not> e < 0" "fd = k_map_fd K" "w' = w1" using assms(3) by (auto split: if_splits)
  from a(1) show ?thesis
  proof (cases rule: inet_accept_cases)
    case fail
    with e(1) show ?thesis by (simp add: EINVAL_def)
  next
    case (forged n s)
    note n = syn_recv_sock_forged [OF assms(1) forged(2)]
    have k: "keeps (\<lambda>s. k_hash_nolisten K (snd (k_inherit_port K sk s)))"
      using assms(1) by (simp add: kernel_ok_def keeps_def)
    note fields = keeps_fields [OF k] recved_ack_forged [OF assms(1), of st n]
    have "forged_from K st s \<and> sk_state s = TCP_ESTABLISHED \<and> sk_refcnt s = 2 \<and> inet_daddr (inet s) = sk_saddr st \<and> inet_saddr (inet s) = sk_daddr st \<and>
        tp_snd_una (tp s) = sk_snd_una st"
      using n forged_from_keeps [OF k, of K st] by (simp add: forged(3) fields)
    then show ?thesis using forged(4) e by (simp add: forged_from_def)
  qed
qed

section \<open>Properties\<close>



text \<open>A kernel whose functions do nothing, with and without memory for a clone.\<close>

definition kernel_0 :: "bool \<Rightarrow> kernel" where
  "kernel_0 memory = \<lparr>k_sk_clone = (\<lambda>s. if memory then Some (s \<lparr>sk_refcnt := 2, sk_bh_locked := True\<rparr>) else None),
     k_flowi_flags = (\<lambda>s. 0), k_route = (\<lambda>f. Some \<lparr>rt_iif = 2, dst_mtu = 1500, dst_advmss = 1460\<rparr>),
     k_prequeue_init = id, k_set_ca_open = id, k_init_xmit_timers = id, k_ooo_queue_init = id, k_reset_keepalive = id,
     k_setup_caps = (\<lambda>rt. id), k_mtup_init = id, k_sync_mss = (\<lambda>m. id), k_initialize_rcv_mss = id, k_state_change = id,
     k_init_wl = (\<lambda>m. id), k_valid_rtt_meas = id, k_rebuild_header = id, k_init_metrics = id,
     k_init_congestion_control = id, k_init_buffer_space = id, k_fast_path_on = id, k_inherit_port = (\<lambda>sk s. (0, s)),
     k_hash_nolisten = id, k_enable_fack = (\<lambda>x. x OR 2), k_sysctl_tcp_fack = True, k_hz = 100, k_seconds = 7, k_time_stamp = 1000,
     k_ack_time_stamp = 1001, k_jiffies = 1001, k_create_lite = 0, k_map_fd = 9\<rparr>"

lemma kernel_0_ok: "kernel_ok (kernel_0 memory)"
  by (simp add: kernel_ok_def kernel_0_def keeps_def view_def)

definition world_0 :: forge_world where
  "world_0 = \<lparr>listener_locked = False, module_refs = 0, caller_fds = {3}, connected_sk = (\<lambda>fd. None), leaked_sk = []\<rparr>"

definition sock_0 :: sock where
  "sock_0 = \<lparr>sk_state = TCP_CLOSE, sk_refcnt = 1, sk_bh_locked = False, sk_bound_dev_if = 0, sk_mark = 0, sk_protocol = 6,
     sk_keepopen = False, sk_stream_write_space = False, sk_gso_tcpv4 = False,
     inet = \<lparr>inet_daddr = 0, inet_rcv_saddr = 0, inet_saddr = 0, inet_dport = 0, inet_sport = 0, inet_num = 0, inet_opt = False,
       inet_id = 0, mc_index = 0, mc_ttl = 0\<rparr>,
     icsk = \<lparr>icsk_retransmits = 0, icsk_backoff = 0, icsk_probes_out = 0, icsk_rto = 0, icsk_ext_hdr_len = 0,
       icsk_accept_queue = False, icsk_init_congestion_ops = False\<rparr>,
     tp = \<lparr>rx_opt = \<lparr>rx_ts_recent = 0, rx_ts_recent_stamp = 0, rx_ts_offset = 0, rx_saw_tstamp = 0, rx_tstamp_ok = 0, rx_dsack = 0,
         rx_wscale_ok = 0, rx_sack_ok = 0, rx_snd_wscale = 0, rx_rcv_wscale = 0, rx_num_sacks = 0, rx_user_mss = 0, rx_mss_clamp = 0\<rparr>,
       tp_cookie_values = False, tp_header_len = 0, tp_pred_flags = 0, tp_rcv_nxt = 0, tp_copied_seq = 0, tp_rcv_wup = 0,
       tp_snd_nxt = 0, tp_snd_una = 0, tp_snd_sml = 0, tp_snd_up = 0, tp_write_seq = 0, tp_pushed_seq = 0, tp_window_clamp = 0,
       tp_rcv_ssthresh = 0, tp_rcv_wnd = 0, tp_snd_wnd = 0, tp_max_window = 0, tp_advmss = 0, tp_srtt = 0, tp_mdev = 0,
       tp_packets_out = 0, tp_retrans_out = 0, tp_sacked_out = 0, tp_fackets_out = 0, tp_snd_ssthresh = 0, tp_snd_cwnd = 0,
       tp_snd_cwnd_cnt = 0, tp_bytes_acked = 0, tp_frto_counter = 0, tp_frto_highmark = 0, tp_lsndtime = 0, tp_ecn_flags = 0,
       tp_urg_data = 0\<rparr>\<rparr>"

lemma ioctl_0:
  assumes "unat (sk_rcv_wscale st) < 32"
  shows "\<exists>w'. fake_accept_ioctl (kernel_0 memory) sock_0 (Some st) world_0 = Inr (if memory then 9 else - EINVAL, w')"
proof -
  let ?K = "kernel_0 memory" and ?st = st
  have c: "\<not> tp_cookie_values (tp sock_0)" "\<not> 32 \<le> unat (sk_rcv_wscale ?st)" using assms by (simp_all add: sock_0_def)
  have r: "fake_inet_csk_route_req ?K sock_0 ?st = Some \<lparr>rt_iif = 2, dst_mtu = 1500, dst_advmss = 1460\<rparr>"
    by (simp add: fake_inet_csk_route_req_def kernel_0_def)
  have m: "inet_csk_forge ?K p q s = None \<longleftrightarrow> \<not> memory" for p q s by (simp add: inet_csk_forge_def kernel_0_def)
  show ?thesis
  proof (cases memory)
    case False
    then have "tcp_v4_forge_syn_recv_sock ?K sock_0 ?st = Inr None"
      using m [of "sk_sport ?st" "sk_dport ?st" sock_0] r by (simp add: tcp_v4_forge_syn_recv_sock_def tcp_forge_openreq_child_def)
    with False show ?thesis
      by (simp add: fake_accept_ioctl_def fake_inet_accept_def fake_inet_csk_accept_def Let_def EINVAL_def) (simp add: kernel_0_def)
  next
    case True
    then obtain n where "tcp_forge_openreq_child ?K sock_0 ?st = Inr (Some n)"
      using m [of "sk_sport ?st" "sk_dport ?st" sock_0] c by (auto simp: tcp_forge_openreq_child_def)
    then obtain s where s: "tcp_v4_forge_syn_recv_sock ?K sock_0 ?st = Inr (Some s)"
      by (simp add: tcp_v4_forge_syn_recv_sock_def r)
    then have "sk_refcnt (fake_recved_ack ?K ?st s) = 2"
      using syn_recv_sock_forged [OF kernel_0_ok s] recved_ack_forged(3) [OF kernel_0_ok] by simp
    moreover have "k_inherit_port ?K sk x = (0, x)" "k_hash_nolisten ?K x = x" "k_create_lite ?K = 0" "k_map_fd ?K = 9" for sk x
      by (simp_all add: kernel_0_def)
    ultimately show ?thesis
      using True s by (simp add: fake_accept_ioctl_def fake_inet_accept_def fake_inet_csk_accept_def Let_def)
  qed
qed



end
