(* ===== verification/Forge_Module.thy ===== *)
theory Forge_Module
  imports Sk_Forge
begin

text \<open>
  The kernel module for forged sockets (\<open>src/old-telex-station-backup/linuxmod/module/forge_socket.c\<close>, the part outside
  \<open>#if 0\<close>): a socket option that turns a socket into the established socket of a given TCP state, and reads the state of a
  socket. The members of a socket that \<open>Sk_Forge\<close> does not have are added around its record. The functions of the kernel
  are those of \<open>Sk_Forge\<close>; the local variable of \<open>forge_getsockopt\<close>, which it copies to the caller, has the contents \<open>stack\<close>
  at first.
\<close>

section \<open>State\<close>

definition TCP_STATE :: int where "TCP_STATE = 18"
definition TCP_CA_NAME_MAX :: nat where "TCP_CA_NAME_MAX = 16"
definition EACCES :: int where "EACCES = 13"

text \<open>The structure \<open>tcp_state\<close> of \<open>forge_socket.h\<close>.\<close>

record forge_state =
  fs_src_ip :: u32
  fs_dst_ip :: u32
  fs_sport :: u16
  fs_dport :: u16
  fs_seq :: u32
  fs_ack :: u32
  fs_snd_una :: u32
  fs_tstamp_ok :: byte
  fs_sack_ok :: byte
  fs_wscale_ok :: byte
  fs_ecn_ok :: byte
  fs_snd_wscale :: byte
  fs_rcv_wscale :: byte
  fs_snd_wnd :: u32
  fs_rcv_wnd :: u32
  fs_ts_recent :: u32
  fs_ts_val :: u32
  fs_mss_clamp :: u32
  fs_skc_family :: u16
  fs_skc_state :: byte
  fs_skc_refcnt :: int
  fs_skc_bound_dev_if :: int
  fs_ca_ops_default :: bool
  fs_tp_header_len :: u16
  fs_tp_copied_seq :: u32
  fs_tp_rcv_wup :: u32
  fs_tp_snd_sml :: u32
  fs_ca_name :: string
  fs_inet_num :: u16
  fs_has_bind_hash :: bool

text \<open>A socket of the module, with the references to routes that it has taken.\<close>

record mod_sock =
  base_sk :: sock
  rx_rcv_tsval :: u32
  sk_family :: u16
  icsk_bind_hash :: bool
  ss_connected :: bool
  routes_held :: nat

record module_env =
  m_kernel :: kernel
  m_capable :: bool
  m_ca_init :: "(sock \<Rightarrow> sock) option"
  m_ca_name :: "sock \<Rightarrow> string"
  m_put_user :: bool
  m_copy_to_user :: bool
  m_tcp_setsockopt :: "int \<Rightarrow> int \<Rightarrow> mod_sock \<Rightarrow> int \<times> mod_sock"
  m_tcp_getsockopt :: "int \<Rightarrow> int \<Rightarrow> mod_sock \<Rightarrow> int"

text \<open>The numbers of the states.\<close>

fun tcp_state_num :: "tcp_state \<Rightarrow> byte" where
  "tcp_state_num TCP_ESTABLISHED = 1"
| "tcp_state_num TCP_SYN_RECV = 3"
| "tcp_state_num TCP_CLOSE = 7"
| "tcp_state_num TCP_LISTEN = 10"

section \<open>The option\<close>

text \<open>The state is read into \<open>ret\<close>; the members \<open>ts_recent\<close>, \<open>ts_val\<close> and \<open>mss_clamp\<close> are not assigned.\<close>

definition read_state :: "module_env \<Rightarrow> forge_state \<Rightarrow> mod_sock \<Rightarrow> forge_state" where
  "read_state E stack m =
     (let s = base_sk m; r = rx_opt (tp s)
      in stack \<lparr>fs_ack := tp_rcv_nxt (tp s), fs_seq := tp_snd_nxt (tp s), fs_src_ip := inet_rcv_saddr (inet s), fs_dst_ip := inet_daddr (inet s),
           fs_sport := inet_sport (inet s), fs_dport := inet_dport (inet s), fs_snd_una := tp_snd_una (tp s), fs_snd_wnd := tp_snd_wnd (tp s),
           fs_rcv_wnd := tp_rcv_wnd (tp s), fs_tstamp_ok := ucast (rx_tstamp_ok r), fs_ecn_ok := (if tp_ecn_flags (tp s) AND 1 \<noteq> 0 then 1 else 0),
           fs_sack_ok := ucast (rx_sack_ok r), fs_wscale_ok := ucast (rx_wscale_ok r), fs_snd_wscale := ucast (rx_snd_wscale r),
           fs_rcv_wscale := ucast (rx_rcv_wscale r), fs_skc_refcnt := sk_refcnt s, fs_skc_family := sk_family m,
           fs_skc_state := tcp_state_num (sk_state s), fs_skc_bound_dev_if := sk_bound_dev_if s, fs_tp_header_len := tp_header_len (tp s),
           fs_tp_copied_seq := tp_copied_seq (tp s), fs_tp_rcv_wup := tp_rcv_wup (tp s), fs_tp_snd_sml := tp_rcv_wup (tp s),
           fs_ca_ops_default := icsk_init_congestion_ops (icsk s), fs_ca_name := take TCP_CA_NAME_MAX (m_ca_name E s @ replicate TCP_CA_NAME_MAX (CHR 0x00)),
           fs_inet_num := inet_num (inet s), fs_has_bind_hash := icsk_bind_hash m\<rparr>)"

text \<open>The result is the return code and what is copied to the caller.\<close>

definition forge_getsockopt :: "module_env \<Rightarrow> forge_state \<Rightarrow> int \<Rightarrow> int \<Rightarrow> mod_sock \<Rightarrow> int \<times> forge_state option" where
  "forge_getsockopt E stack level optname m =
     (if optname = TCP_STATE then
        if \<not> m_capable E then (- EACCES, None)
        else if \<not> m_put_user E then (- EFAULT, None)
        else if \<not> m_copy_to_user E then (- EFAULT, None)
        else (0, Some (read_state E stack m))
      else (m_tcp_getsockopt E level optname m, None))"

definition mod_route_req :: "kernel \<Rightarrow> sock \<Rightarrow> forge_state \<Rightarrow> rtable option" where
  "mod_route_req K sk st =
     k_route K \<lparr>fl_oif = sk_bound_dev_if sk, fl_mark = sk_mark sk, fl_daddr = fs_dst_ip st, fl_saddr = fs_src_ip st,
       fl_proto = sk_protocol sk, fl_flags = k_flowi_flags K sk, fl_sport = fs_sport st, fl_dport = fs_dport st\<rparr>"

text \<open>\<open>forge_setsockopt\<close> in five parts: the addresses and ports, the sequence numbers and counters, the options and windows, the
  timestamps, and the end of the handshake.\<close>

definition set_address :: "kernel \<Rightarrow> rtable \<Rightarrow> forge_state \<Rightarrow> sock \<Rightarrow> sock" where
  "set_address K rt st s =
     (let s = on_inet (\<lambda>i. i \<lparr>inet_daddr := fs_dst_ip st, inet_rcv_saddr := fs_src_ip st, inet_saddr := fs_src_ip st,
                inet_id := ucast (ucast (tp_write_seq (tp s)) XOR k_jiffies K), inet_opt := False, mc_index := rt_iif rt, mc_ttl := 1\<rparr>) s;
          s = on_icsk (\<lambda>c. c \<lparr>icsk_ext_hdr_len := 0\<rparr>) s;
          s = k_sync_mss K (dst_mtu rt) (k_mtup_init K s);
          s = on_tp (\<lambda>t. t \<lparr>tp_advmss := dst_advmss rt\<rparr>) s;
          mss = rx_user_mss (rx_opt (tp s));
          s = (if mss \<noteq> 0 \<and> mss < tp_advmss (tp s) then on_tp (\<lambda>t. t \<lparr>tp_advmss := mss\<rparr>) s else s);
          s = k_initialize_rcv_mss K s;
          s = on_inet (\<lambda>i. i \<lparr>inet_dport := fs_dport st, inet_num := le_word (rev (le_bytes 2 (fs_sport st))), inet_sport := fs_sport st\<rparr>) s;
          s = s \<lparr>sk_stream_write_space := True\<rparr>
      in on_icsk (\<lambda>c. c \<lparr>icsk_retransmits := 0, icsk_backoff := 0, icsk_probes_out := 0, icsk_accept_queue := False\<rparr>) s)"

definition set_sequence :: "kernel \<Rightarrow> forge_state \<Rightarrow> sock \<Rightarrow> sock" where
  "set_sequence K st s =
     (let s = on_tp (\<lambda>t. t \<lparr>tp_pred_flags := 0, tp_rcv_wup := fs_ack st, tp_copied_seq := fs_ack st, tp_rcv_nxt := fs_ack st,
                tp_snd_sml := fs_seq st, tp_snd_nxt := fs_seq st, tp_snd_up := fs_seq st\<rparr>) s;
          s = k_prequeue_init K s;
          s = on_tp (\<lambda>t. t \<lparr>tp_srtt := 0, tp_mdev := TCP_TIMEOUT_INIT K\<rparr>) s;
          s = on_icsk (\<lambda>c. c \<lparr>icsk_rto := TCP_TIMEOUT_INIT K\<rparr>) s;
          s = on_tp (\<lambda>t. t \<lparr>tp_packets_out := 0, tp_retrans_out := 0, tp_sacked_out := 0, tp_fackets_out := 0,
                tp_snd_ssthresh := 0x7fffffff, tp_snd_cwnd := 2, tp_snd_cwnd_cnt := 0, tp_bytes_acked := 0,
                tp_frto_counter := 0, tp_frto_highmark := 0\<rparr>) s;
          s = on_icsk (\<lambda>c. c \<lparr>icsk_init_congestion_ops := True\<rparr>) s;
          s = k_ooo_queue_init K (k_init_xmit_timers K (k_set_ca_open K s));
          s = on_tp (\<lambda>t. t \<lparr>tp_write_seq := tp_snd_nxt t, tp_pushed_seq := tp_snd_nxt t\<rparr>) s;
          s = on_rx (\<lambda>r. r \<lparr>rx_saw_tstamp := 0, rx_dsack := 0, rx_num_sacks := 0\<rparr>) s
      in on_tp (\<lambda>t. t \<lparr>tp_urg_data := 0\<rparr>) s)"

definition set_options :: "forge_state \<Rightarrow> sock \<Rightarrow> sock" where
  "set_options st s =
     (let s = on_rx (\<lambda>r. r \<lparr>rx_tstamp_ok := (if fs_tstamp_ok st \<noteq> 0 then 1 else 0), rx_sack_ok := take_bit 4 (ucast (fs_sack_ok st))\<rparr>) s;
          wnd = push_bit (unat (fs_rcv_wscale st)) (fs_rcv_wnd st);
          s = on_tp (\<lambda>t. t \<lparr>tp_window_clamp := push_bit 14 65535, tp_rcv_ssthresh := wnd, tp_rcv_wnd := wnd\<rparr>) s;
          s = on_rx (\<lambda>r. r \<lparr>rx_wscale_ok := take_bit 1 (ucast (fs_wscale_ok st))\<rparr>) s;
          s = (if rx_wscale_ok (rx_opt (tp s)) \<noteq> 0
               then on_rx (\<lambda>r. r \<lparr>rx_snd_wscale := take_bit 4 (ucast (fs_snd_wscale st)),
                      rx_rcv_wscale := take_bit 4 (ucast (fs_rcv_wscale st))\<rparr>) s
               else on_tp (\<lambda>t. t \<lparr>tp_window_clamp := min (tp_window_clamp t) 65535\<rparr>)
                      (on_rx (\<lambda>r. r \<lparr>rx_snd_wscale := 0, rx_rcv_wscale := 0\<rparr>) s));
          wnd = push_bit (unat (rx_snd_wscale (rx_opt (tp s)))) (fs_snd_wnd st)
      in on_tp (\<lambda>t. t \<lparr>tp_snd_wnd := wnd, tp_max_window := wnd\<rparr>) s)"

definition set_timestamps :: "kernel \<Rightarrow> forge_state \<Rightarrow> sock \<Rightarrow> sock \<times> u32" where
  "set_timestamps K st s =
     (let (s, v) = (if rx_tstamp_ok (rx_opt (tp s)) \<noteq> 0
               then (on_tp (\<lambda>t. t \<lparr>tp_header_len := 20 + 12\<rparr>)
                      (on_rx (\<lambda>r. r \<lparr>rx_ts_recent := fs_ts_recent st, rx_ts_recent_stamp := k_seconds K\<rparr>) s), fs_ts_val st)
               else (on_tp (\<lambda>t. t \<lparr>tp_header_len := 20\<rparr>) (on_rx (\<lambda>r. r \<lparr>rx_ts_recent_stamp := 0\<rparr>) s), 0));
          s = on_rx (\<lambda>r. r \<lparr>rx_mss_clamp := ucast (fs_mss_clamp st)\<rparr>) s
      in (on_tp (\<lambda>t. t \<lparr>tp_ecn_flags := (if fs_ecn_ok st \<noteq> 0 then 1 else 0)\<rparr>) s, v))"

definition set_established :: "module_env \<Rightarrow> forge_state \<Rightarrow> sock \<Rightarrow> sock" where
  "set_established E st s =
     (let K = m_kernel E;
          s = on_tp (\<lambda>t. t \<lparr>tp_copied_seq := tp_rcv_nxt t\<rparr>) s;
          s = k_state_change K (s \<lparr>sk_state := TCP_ESTABLISHED\<rparr>);
          s = on_tp (\<lambda>t. t \<lparr>tp_snd_una := fs_snd_una st, tp_snd_up := fs_snd_una st\<rparr>) s;
          s = k_init_wl K (fs_ack st) s;
          s = (if rx_tstamp_ok (rx_opt (tp s)) \<noteq> 0 then on_tp (\<lambda>t. t \<lparr>tp_advmss := tp_advmss t - 12\<rparr>) s else s);
          s = k_rebuild_header K s;
          s = (case m_ca_init E of None \<Rightarrow> s | Some init \<Rightarrow> init s);
          s = on_tp (\<lambda>t. t \<lparr>tp_lsndtime := k_ack_time_stamp K\<rparr>) s
      in k_hash_nolisten K (k_fast_path_on K (k_initialize_rcv_mss K (k_mtup_init K s))))"

text \<open>The argument is \<open>None\<close> when it cannot be copied from the caller. The route is neither stored nor released.\<close>

definition forge_setsockopt :: "module_env \<Rightarrow> int \<Rightarrow> int \<Rightarrow> forge_state option \<Rightarrow> mod_sock \<Rightarrow> kernel_fault + int \<times> mod_sock" where
  "forge_setsockopt E level optname optval m =
     (if optname = TCP_STATE then
        if \<not> m_capable E then Inr (- EACCES, m)
        else case optval of
          None \<Rightarrow> Inr (- EFAULT, m)
        | Some st \<Rightarrow>
            (case mod_route_req (m_kernel E) (base_sk m) st of
               None \<Rightarrow> Inr (- EINVAL, m)
             | Some rt \<Rightarrow>
                 if unat (fs_rcv_wscale st) \<ge> 32 then Inl Shift_overflow
                 else let s = set_options st (set_sequence (m_kernel E) st (set_address (m_kernel E) rt st (base_sk m)));
                          (s, v) = set_timestamps (m_kernel E) st s
                      in Inr (0, m \<lparr>base_sk := set_established E st s, rx_rcv_tsval := v, ss_connected := True,
                                routes_held := Suc (routes_held m)\<rparr>))
      else Inr (m_tcp_setsockopt E level optname m))"

section \<open>Loading and unloading\<close>

text \<open>The members of a \<open>proto\<close> that the module copies from \<open>tcp_prot\<close>, by their addresses, and the two registrations.\<close>

record proto =
  pr_init :: "nat option"
  pr_hash :: "nat option"
  pr_unhash :: "nat option"
  pr_get_port :: "nat option"
  pr_orphan_count :: "nat option"
  pr_twsk_prot :: "nat option"
  pr_rsk_prot :: "nat option"

record module_world =
  forge_prot :: proto
  proto_registered :: bool
  forge_sw_registered :: bool
  freed_prots :: "nat set"

definition forge_init :: "proto \<Rightarrow> int \<Rightarrow> module_world \<Rightarrow> int \<times> module_world" where
  "forge_init tcp_prot rc w =
     (let w = w \<lparr>forge_prot := forge_prot w \<lparr>pr_init := pr_init tcp_prot, pr_hash := pr_hash tcp_prot, pr_unhash := pr_unhash tcp_prot,
                pr_get_port := pr_get_port tcp_prot, pr_orphan_count := pr_orphan_count tcp_prot, pr_twsk_prot := pr_twsk_prot tcp_prot,
                pr_rsk_prot := pr_rsk_prot tcp_prot\<rparr>\<rparr>
      in if rc \<noteq> 0 then (rc, w) else (0, w \<lparr>proto_registered := True, forge_sw_registered := True\<rparr>))"

text \<open>\<open>unregister\<close> gives the structures that \<open>proto_unregister\<close> frees: among those the protocol points to.\<close>

definition forge_exit :: "(proto \<Rightarrow> nat set) \<Rightarrow> module_world \<Rightarrow> module_world" where
  "forge_exit unregister w =
     (let w = w \<lparr>forge_prot := forge_prot w \<lparr>pr_rsk_prot := None, pr_twsk_prot := None\<rparr>\<rparr>;
          w = w \<lparr>forge_sw_registered := False\<rparr>
      in w \<lparr>proto_registered := False, freed_prots := freed_prots w \<union> unregister (forge_prot w)\<rparr>)"

text \<open>Unloading gives back what loading took, and frees nothing that belongs to TCP.\<close>

lemma exit_after_init:
  assumes "\<forall>p. unregister p \<subseteq> set_option (pr_twsk_prot p) \<union> set_option (pr_rsk_prot p)" "forge_init tcp_prot rc w = (r, w')"
  shows "freed_prots (forge_exit unregister w') = freed_prots w" "\<not> proto_registered (forge_exit unregister w')"
    "\<not> forge_sw_registered (forge_exit unregister w')"
proof -
  have "unregister p = {}" if "pr_twsk_prot p = None" "pr_rsk_prot p = None" for p using assms(1) that by (metis Un_empty option.set(1) subset_empty)
  then show "freed_prots (forge_exit unregister w') = freed_prots w" "\<not> proto_registered (forge_exit unregister w')"
    "\<not> forge_sw_registered (forge_exit unregister w')"
    using assms(2) by (auto simp: forge_exit_def forge_init_def Let_def split: if_splits)
qed

section \<open>Properties\<close>

lemma set_address_fields:
  assumes "kernel_ok K"
  shows "sk_refcnt (set_address K rt st s) = sk_refcnt s" "inet_dport (inet (set_address K rt st s)) = fs_dport st"
    "inet_sport (inet (set_address K rt st s)) = fs_sport st" "inet_num (inet (set_address K rt st s)) = le_word (rev (le_bytes 2 (fs_sport st)))"
    "inet_daddr (inet (set_address K rt st s)) = fs_dst_ip st" "inet_saddr (inet (set_address K rt st s)) = fs_src_ip st"
    "inet_rcv_saddr (inet (set_address K rt st s)) = fs_src_ip st"
  using assms by (simp_all add: set_address_def Let_def on_defs kernel_fields)

lemma set_sequence_fields:
  assumes "kernel_ok K"
  shows "sk_refcnt (set_sequence K st s) = sk_refcnt s" "inet_dport (inet (set_sequence K st s)) = inet_dport (inet s)"
    "inet_sport (inet (set_sequence K st s)) = inet_sport (inet s)" "inet_num (inet (set_sequence K st s)) = inet_num (inet s)"
    "inet_daddr (inet (set_sequence K st s)) = inet_daddr (inet s)" "inet_saddr (inet (set_sequence K st s)) = inet_saddr (inet s)"
    "inet_rcv_saddr (inet (set_sequence K st s)) = inet_rcv_saddr (inet s)"
    "tp_rcv_nxt (tp (set_sequence K st s)) = fs_ack st" "tp_copied_seq (tp (set_sequence K st s)) = fs_ack st"
    "tp_snd_nxt (tp (set_sequence K st s)) = fs_seq st" "tp_write_seq (tp (set_sequence K st s)) = fs_seq st"
  using assms by (simp_all add: set_sequence_def Let_def on_defs kernel_fields)

lemma set_options_fields:
  "sk_refcnt (set_options st s) = sk_refcnt s" "inet (set_options st s) = inet s"
  "tp_rcv_nxt (tp (set_options st s)) = tp_rcv_nxt (tp s)" "tp_copied_seq (tp (set_options st s)) = tp_copied_seq (tp s)"
  "tp_snd_nxt (tp (set_options st s)) = tp_snd_nxt (tp s)" "tp_write_seq (tp (set_options st s)) = tp_write_seq (tp s)"
  "tp_rcv_wnd (tp (set_options st s)) = push_bit (unat (fs_rcv_wscale st)) (fs_rcv_wnd st)"
  "tp_snd_wnd (tp (set_options st s)) =
     (if take_bit 1 (ucast (fs_wscale_ok st) :: u16) \<noteq> 0 then push_bit (unat (take_bit 4 (ucast (fs_snd_wscale st) :: u16))) (fs_snd_wnd st)
      else fs_snd_wnd st)"
  "rx_tstamp_ok (rx_opt (tp (set_options st s))) = (if fs_tstamp_ok st \<noteq> 0 then 1 else 0)"
  "rx_sack_ok (rx_opt (tp (set_options st s))) = take_bit 4 (ucast (fs_sack_ok st))"
  "rx_wscale_ok (rx_opt (tp (set_options st s))) = take_bit 1 (ucast (fs_wscale_ok st))"
  "rx_snd_wscale (rx_opt (tp (set_options st s))) =
     (if take_bit 1 (ucast (fs_wscale_ok st) :: u16) \<noteq> 0 then take_bit 4 (ucast (fs_snd_wscale st)) else 0)"
  "rx_rcv_wscale (rx_opt (tp (set_options st s))) =
     (if take_bit 1 (ucast (fs_wscale_ok st) :: u16) \<noteq> 0 then take_bit 4 (ucast (fs_rcv_wscale st)) else 0)"
  by (simp_all add: set_options_def Let_def on_defs)

lemma set_timestamps_fields:
  assumes "set_timestamps K st s = (t, v)"
  shows "sk_refcnt t = sk_refcnt s" "inet t = inet s"
    "tp_rcv_nxt (tp t) = tp_rcv_nxt (tp s)" "tp_copied_seq (tp t) = tp_copied_seq (tp s)" "tp_snd_nxt (tp t) = tp_snd_nxt (tp s)"
    "tp_write_seq (tp t) = tp_write_seq (tp s)" "tp_rcv_wnd (tp t) = tp_rcv_wnd (tp s)" "tp_snd_wnd (tp t) = tp_snd_wnd (tp s)"
    "rx_tstamp_ok (rx_opt (tp t)) = rx_tstamp_ok (rx_opt (tp s))" "rx_sack_ok (rx_opt (tp t)) = rx_sack_ok (rx_opt (tp s))"
    "rx_wscale_ok (rx_opt (tp t)) = rx_wscale_ok (rx_opt (tp s))" "rx_snd_wscale (rx_opt (tp t)) = rx_snd_wscale (rx_opt (tp s))"
    "rx_rcv_wscale (rx_opt (tp t)) = rx_rcv_wscale (rx_opt (tp s))" "rx_ts_offset (rx_opt (tp t)) = rx_ts_offset (rx_opt (tp s))"
    "tp_ecn_flags (tp t) = (if fs_ecn_ok st \<noteq> 0 then 1 else 0)"
    "v = (if rx_tstamp_ok (rx_opt (tp s)) \<noteq> 0 then fs_ts_val st else 0)"
    "rx_tstamp_ok (rx_opt (tp s)) \<noteq> 0 \<Longrightarrow> rx_ts_recent (rx_opt (tp t)) = fs_ts_recent st"
  using assms by (auto simp: set_timestamps_def Let_def on_defs split: if_splits)

text \<open>The functions that run after the options are set leave the flag of explicit congestion notification alone.\<close>

definition keeps_ecn :: "(sock \<Rightarrow> sock) \<Rightarrow> bool" where
  "keeps_ecn f \<longleftrightarrow> (\<forall>s. tp_ecn_flags (tp (f s)) = tp_ecn_flags (tp s))"

definition module_ok :: "module_env \<Rightarrow> bool" where
  "module_ok E \<longleftrightarrow>
     (let K = m_kernel E
      in kernel_ok K \<and> (\<forall>f. m_ca_init E = Some f \<longrightarrow> keeps f \<and> keeps_ecn f) \<and> keeps_ecn (k_state_change K) \<and> (\<forall>m. keeps_ecn (k_init_wl K m)) \<and>
         keeps_ecn (k_rebuild_header K) \<and> keeps_ecn (k_mtup_init K) \<and> keeps_ecn (k_initialize_rcv_mss K) \<and> keeps_ecn (k_fast_path_on K) \<and>
         keeps_ecn (k_hash_nolisten K))"

lemma set_established_fields:
  assumes "module_ok E"
  shows "sk_state (set_established E st s) = TCP_ESTABLISHED" "sk_refcnt (set_established E st s) = sk_refcnt s"
    "inet_dport (inet (set_established E st s)) = inet_dport (inet s)"
    "inet_sport (inet (set_established E st s)) = inet_sport (inet s)" "inet_num (inet (set_established E st s)) = inet_num (inet s)"
    "inet_daddr (inet (set_established E st s)) = inet_daddr (inet s)" "inet_saddr (inet (set_established E st s)) = inet_saddr (inet s)"
    "inet_rcv_saddr (inet (set_established E st s)) = inet_rcv_saddr (inet s)"
    "tp_rcv_nxt (tp (set_established E st s)) = tp_rcv_nxt (tp s)" "tp_copied_seq (tp (set_established E st s)) = tp_rcv_nxt (tp s)"
    "tp_snd_nxt (tp (set_established E st s)) = tp_snd_nxt (tp s)" "tp_write_seq (tp (set_established E st s)) = tp_write_seq (tp s)"
    "tp_rcv_wnd (tp (set_established E st s)) = tp_rcv_wnd (tp s)" "tp_snd_wnd (tp (set_established E st s)) = tp_snd_wnd (tp s)"
    "tp_snd_una (tp (set_established E st s)) = fs_snd_una st" "rx_opt (tp (set_established E st s)) = rx_opt (tp s)"
    "tp_ecn_flags (tp (set_established E st s)) = tp_ecn_flags (tp s)"
  using assms by (simp_all add: module_ok_def keeps_ecn_def set_established_def Let_def on_defs kernel_fields keeps_fields split: option.split)

lemmas set_fields = set_address_fields set_sequence_fields set_options_fields

text \<open>A successful call.\<close>

lemma setsockopt_cases:
  assumes "forge_setsockopt E level TCP_STATE (Some st) m = Inr (0, m')"
  obtains rt s v where "m_capable E" "mod_route_req (m_kernel E) (base_sk m) st = Some rt" "unat (fs_rcv_wscale st) < 32"
    "set_timestamps (m_kernel E) st (set_options st (set_sequence (m_kernel E) st (set_address (m_kernel E) rt st (base_sk m)))) = (s, v)"
    "m' = m \<lparr>base_sk := set_established E st s, rx_rcv_tsval := v, ss_connected := True, routes_held := Suc (routes_held m)\<rparr>"
  using assms unfolding forge_setsockopt_def Let_def by (auto simp: EACCES_def EINVAL_def split: if_splits option.splits prod.splits)

lemma getsockopt_read:
  "forge_getsockopt E stack level TCP_STATE m = (0, r) \<Longrightarrow> r = Some (read_state E stack m)"
  by (auto simp: forge_getsockopt_def EACCES_def EFAULT_def split: if_splits)

text \<open>What the socket is after a successful call, through the members that are read.\<close>

lemma set_then_read:
  assumes "module_ok E" "forge_setsockopt E level TCP_STATE (Some st) m = Inr (0, m')"
  shows "sk_state (base_sk m') = TCP_ESTABLISHED \<and> sk_refcnt (base_sk m') = sk_refcnt (base_sk m) \<and>
    inet_daddr (inet (base_sk m')) = fs_dst_ip st \<and> inet_saddr (inet (base_sk m')) = fs_src_ip st \<and> inet_rcv_saddr (inet (base_sk m')) = fs_src_ip st \<and>
    inet_dport (inet (base_sk m')) = fs_dport st \<and> inet_sport (inet (base_sk m')) = fs_sport st \<and>
    inet_num (inet (base_sk m')) = le_word (rev (le_bytes 2 (fs_sport st))) \<and>
    tp_rcv_nxt (tp (base_sk m')) = fs_ack st \<and> tp_copied_seq (tp (base_sk m')) = fs_ack st \<and> tp_snd_nxt (tp (base_sk m')) = fs_seq st \<and>
    tp_write_seq (tp (base_sk m')) = fs_seq st \<and> tp_snd_una (tp (base_sk m')) = fs_snd_una st \<and>
    tp_ecn_flags (tp (base_sk m')) = (if fs_ecn_ok st \<noteq> 0 then 1 else 0) \<and> routes_held m' = Suc (routes_held m) \<and> ss_connected m'"
proof -
  have K: "kernel_ok (m_kernel E)" using assms(1) by (simp add: module_ok_def Let_def)
  from assms(2) show ?thesis
    by (cases rule: setsockopt_cases) (simp add: set_established_fields [OF assms(1)] set_timestamps_fields set_fields K)
qed

lemma set_then_read_options:
  assumes "module_ok E" "forge_setsockopt E level TCP_STATE (Some st) m = Inr (0, m')"
  shows "tp_rcv_wnd (tp (base_sk m')) = push_bit (unat (fs_rcv_wscale st)) (fs_rcv_wnd st) \<and>
    tp_snd_wnd (tp (base_sk m')) = (if take_bit 1 (ucast (fs_wscale_ok st) :: u16) \<noteq> 0
       then push_bit (unat (take_bit 4 (ucast (fs_snd_wscale st) :: u16))) (fs_snd_wnd st) else fs_snd_wnd st) \<and>
    rx_tstamp_ok (rx_opt (tp (base_sk m'))) = (if fs_tstamp_ok st \<noteq> 0 then 1 else 0) \<and>
    rx_sack_ok (rx_opt (tp (base_sk m'))) = take_bit 4 (ucast (fs_sack_ok st)) \<and>
    rx_wscale_ok (rx_opt (tp (base_sk m'))) = take_bit 1 (ucast (fs_wscale_ok st)) \<and>
    rx_snd_wscale (rx_opt (tp (base_sk m'))) = (if take_bit 1 (ucast (fs_wscale_ok st) :: u16) \<noteq> 0 then take_bit 4 (ucast (fs_snd_wscale st)) else 0) \<and>
    rx_rcv_wscale (rx_opt (tp (base_sk m'))) = (if take_bit 1 (ucast (fs_wscale_ok st) :: u16) \<noteq> 0 then take_bit 4 (ucast (fs_rcv_wscale st)) else 0) \<and>
    (fs_tstamp_ok st \<noteq> 0 \<longrightarrow> rx_ts_recent (rx_opt (tp (base_sk m'))) = fs_ts_recent st)"
  using assms(2)
  by (cases rule: setsockopt_cases) (simp add: set_established_fields [OF assms(1)] set_timestamps_fields set_fields)

section \<open>Round trip\<close>

text \<open>The part of a state that describes the connection, without timestamps; the windows as a number of bytes.\<close>

definition conn_part :: "forge_state \<Rightarrow> (u32 \<times> u32 \<times> u16 \<times> u16) \<times> (u32 \<times> u32 \<times> u32) \<times> (byte \<times> byte \<times> byte \<times> byte \<times> byte \<times> byte) \<times> u32 \<times> u32" where
  "conn_part st = ((fs_src_ip st, fs_dst_ip st, fs_sport st, fs_dport st), (fs_seq st, fs_ack st, fs_snd_una st),
     (fs_tstamp_ok st, fs_sack_ok st, fs_wscale_ok st, fs_ecn_ok st, fs_snd_wscale st, fs_rcv_wscale st), fs_snd_wnd st, fs_rcv_wnd st)"

definition scaled :: "forge_state \<Rightarrow> forge_state" where
  "scaled st = st \<lparr>fs_snd_wnd := push_bit (unat (fs_snd_wscale st)) (fs_snd_wnd st), fs_rcv_wnd := push_bit (unat (fs_rcv_wscale st)) (fs_rcv_wnd st)\<rparr>"

text \<open>Flags are 0 or 1, window scales fit their field, and are 0 when the option has not been negotiated.\<close>

definition negotiated :: "forge_state \<Rightarrow> bool" where
  "negotiated st \<longleftrightarrow> fs_tstamp_ok st \<in> {0, 1} \<and> fs_ecn_ok st \<in> {0, 1} \<and> fs_wscale_ok st \<in> {0, 1} \<and> unat (fs_sack_ok st) < 16 \<and>
     unat (fs_snd_wscale st) < 16 \<and> unat (fs_rcv_wscale st) < 16 \<and> (fs_wscale_ok st = 0 \<longrightarrow> fs_snd_wscale st = 0 \<and> fs_rcv_wscale st = 0)"

lemma nibble:
  fixes x :: byte
  assumes "unat x < 16"
  shows "unat (take_bit 4 (ucast x :: u16)) = unat x" "ucast (take_bit 4 (ucast x :: u16)) = x"
proof -
  have "unat (ucast x :: u16) = unat x" using assms by (simp add: unsigned_ucast_eq unsigned_take_bit_eq take_bit_nat_eq_self)
  then show n: "unat (take_bit 4 (ucast x :: u16)) = unat x"
    using assms by (simp add: unsigned_take_bit_eq take_bit_nat_eq_self)
  have "unat (ucast (take_bit 4 (ucast x :: u16)) :: byte) = take_bit 8 (unat (take_bit 4 (ucast x :: u16)))"
    by (simp only: unsigned_ucast_eq unsigned_take_bit_eq) simp
  then show "ucast (take_bit 4 (ucast x :: u16)) = x" using assms n by (simp add: word_unat_eq_iff take_bit_nat_eq_self)
qed

text \<open>C22: a state that is given to a socket is read back from it. After a call of \<open>forge_setsockopt\<close> that succeeds,
  \<open>forge_getsockopt\<close> returns the addresses, ports, sequence numbers and options that were given, as they result from a handshake, and
  the state of an established connection. The windows come back scaled, so that giving the result to a socket scales them once more.
  The timestamps and the maximum segment size come back as whatever the stack held before. Every call takes a
  reference to a route that nothing releases.\<close>

theorem forge_set_get:
  assumes "module_ok E" "negotiated st" "forge_setsockopt E level TCP_STATE (Some st) m = Inr (0, m')"
    and "forge_getsockopt E stack level' TCP_STATE m' = (0, Some r)"
  shows "conn_part r = conn_part (scaled st) \<and> fs_skc_state r = 1 \<and> fs_ts_recent r = fs_ts_recent stack \<and> fs_ts_val r = fs_ts_val stack \<and>
    fs_mss_clamp r = fs_mss_clamp stack \<and> routes_held m' = Suc (routes_held m)"
proof -
  note n = assms(2) [unfolded negotiated_def]
  have r: "r = read_state E stack m'" using getsockopt_read [OF assms(4)] by simp
  have w: "take_bit 1 (ucast (fs_wscale_ok st) :: u16) = ucast (fs_wscale_ok st)" "ucast (ucast (fs_wscale_ok st) :: u16) = fs_wscale_ok st"
    "(ucast (fs_wscale_ok st) :: u16) \<noteq> 0 \<longleftrightarrow> fs_wscale_ok st \<noteq> 0" using n by auto
  show ?thesis
    unfolding r read_state_def conn_part_def scaled_def Let_def
    using set_then_read [OF assms(1,3)] set_then_read_options [OF assms(1,3)] n by (auto simp: w nibble)
qed

text \<open>The state that the system call of \<open>Sk_Forge\<close> takes for the same connection. There the peer's address is the source.\<close>

definition syscall_state :: "forge_state \<Rightarrow> sock_state" where
  "syscall_state st = \<lparr>sk_sport = fs_dport st, sk_dport = fs_sport st, sk_saddr = fs_dst_ip st, sk_daddr = fs_src_ip st, sk_mss_clamp = fs_mss_clamp st,
     sk_rcv_nxt = fs_ack st, sk_rcv_wup = 0, sk_snd_nxt = fs_seq st, sk_snd_una = fs_snd_una st, sk_rcv_tstamp = 0, sk_snd_wnd = fs_snd_wnd st,
     sk_mss_cache = 0, sk_advmss = 0, sk_ts_recent = fs_ts_recent st, sk_ts_val = fs_ts_val st, sk_tstamp_ok = fs_tstamp_ok st,
     sk_sack_ok = fs_sack_ok st, sk_wscale_ok = fs_wscale_ok st, sk_snd_wscale = fs_snd_wscale st, sk_rcv_wscale = fs_rcv_wscale st,
     sk_ecn_ok = fs_ecn_ok st, sk_rcv_wnd = fs_rcv_wnd st\<rparr>"

text \<open>What determines the segments that a socket accepts and sends, but for the timestamp of its next segment.\<close>

definition wire :: "sock \<Rightarrow> tcp_state \<times> (u32 \<times> u32 \<times> u16 \<times> u16 \<times> u16) \<times> (u32 \<times> u32 \<times> u32 \<times> u32 \<times> u32) \<times> (u32 \<times> u32) \<times> u16 \<times> u32 option" where
  "wire s = (sk_state s, (inet_daddr (inet s), inet_saddr (inet s), inet_dport (inet s), inet_sport (inet s), inet_num (inet s)),
     (tp_rcv_nxt (tp s), tp_copied_seq (tp s), tp_snd_nxt (tp s), tp_write_seq (tp s), tp_snd_una (tp s)), (tp_rcv_wnd (tp s), tp_snd_wnd (tp s)),
     rx_tstamp_ok (rx_opt (tp s)), if rx_tstamp_ok (rx_opt (tp s)) \<noteq> 0 then Some (rx_ts_recent (rx_opt (tp s))) else None)"

text \<open>C21: the two ways to forge a socket agree. The socket that the system call makes of a state with window scaling and the one that the
  module makes of the same state have the same addresses, ports, sequence numbers, windows and timestamp to
  echo, and both are established.\<close>

theorem module_agrees_with_syscall:
  assumes "module_ok E" "fake_accept_ioctl (m_kernel E) sk (Some (syscall_state st)) w = Inr (fd, w')" "0 \<le> fd" "fs_wscale_ok st = 1"
    and "forge_setsockopt E level TCP_STATE (Some st) m = Inr (0, m')"
  shows "map_option wire (connected_sk w' fd) = Some (wire (base_sk m'))"
proof -
  have "kernel_ok (m_kernel E)" using assms(1) by (simp add: module_ok_def Let_def)
  from ioctl_forged [OF this assms(2,3)] obtain s where s: "connected_sk w' fd = Some s" "forged_from (m_kernel E) (syscall_state st) s"
    "sk_state s = TCP_ESTABLISHED" "inet_daddr (inet s) = fs_dst_ip st" "inet_saddr (inet s) = fs_src_ip st" "tp_snd_una (tp s) = fs_snd_una st"
    by (auto simp: syscall_state_def)
  then show ?thesis
    using set_then_read [OF assms(1,5)] set_then_read_options [OF assms(1,5)] assms(4)
    by (simp add: wire_def forged_from_def syscall_state_def)
qed

section \<open>An example\<close>

definition module_env_0 :: module_env where
  "module_env_0 = \<lparr>m_kernel = kernel_0 True, m_capable = True, m_ca_init = None, m_ca_name = (\<lambda>s. []), m_put_user = True, m_copy_to_user = True,
     m_tcp_setsockopt = (\<lambda>level optname m. (0, m)), m_tcp_getsockopt = (\<lambda>level optname m. 0)\<rparr>"

definition mod_sock_0 :: mod_sock where
  "mod_sock_0 = \<lparr>base_sk = sock_0, rx_rcv_tsval = 0, sk_family = 2, icsk_bind_hash = False, ss_connected = False, routes_held = 0\<rparr>"

definition forge_state_0 :: forge_state where
  "forge_state_0 = \<lparr>fs_src_ip = 0x0100007f, fs_dst_ip = 0x0200007f, fs_sport = 0xbb01, fs_dport = 0x5000, fs_seq = 100, fs_ack = 200, fs_snd_una = 100,
     fs_tstamp_ok = 0, fs_sack_ok = 1, fs_wscale_ok = 1, fs_ecn_ok = 0, fs_snd_wscale = 2, fs_rcv_wscale = 3, fs_snd_wnd = 1000, fs_rcv_wnd = 2000,
     fs_ts_recent = 0, fs_ts_val = 0, fs_mss_clamp = 1460, fs_skc_family = 0, fs_skc_state = 0, fs_skc_refcnt = 0, fs_skc_bound_dev_if = 0,
     fs_ca_ops_default = False, fs_tp_header_len = 0, fs_tp_copied_seq = 0, fs_tp_rcv_wup = 0, fs_tp_snd_sml = 0, fs_ca_name = [], fs_inet_num = 0,
     fs_has_bind_hash = False\<rparr>"

lemma module_env_0_ok: "module_ok module_env_0"
  using kernel_0_ok [of True] by (simp add: module_ok_def module_env_0_def) (simp add: kernel_0_def keeps_ecn_def)

lemma setsockopt_0: "\<exists>m'. forge_setsockopt module_env_0 6 TCP_STATE (Some forge_state_0) mod_sock_0 = Inr (0, m')"
proof -
  have "mod_route_req (m_kernel module_env_0) (base_sk mod_sock_0) forge_state_0 = Some \<lparr>rt_iif = 2, dst_mtu = 1500, dst_advmss = 1460\<rparr>"
    by (simp add: mod_route_req_def module_env_0_def kernel_0_def)
  moreover have "m_capable module_env_0" "unat (fs_rcv_wscale forge_state_0) < 32" by (simp_all add: module_env_0_def forge_state_0_def)
  ultimately show ?thesis by (simp add: forge_setsockopt_def Let_def split: prod.split)
qed

theorem forge_set_get_witness:
  "\<exists>m' r. forge_setsockopt module_env_0 6 TCP_STATE (Some forge_state_0) mod_sock_0 = Inr (0, m') \<and>
     forge_getsockopt module_env_0 (forge_state_0 \<lparr>fs_ts_val := 77\<rparr>) 6 TCP_STATE m' = (0, Some r) \<and>
     fs_seq r = 100 \<and> fs_snd_wnd r = 4000 \<and> fs_rcv_wnd r = 16000 \<and> fs_ts_val r = 77"
proof -
  obtain m' where m: "forge_setsockopt module_env_0 6 TCP_STATE (Some forge_state_0) mod_sock_0 = Inr (0, m')" using setsockopt_0 by blast
  have g: "forge_getsockopt module_env_0 (forge_state_0 \<lparr>fs_ts_val := 77\<rparr>) 6 TCP_STATE m' = (0, Some (read_state module_env_0 (forge_state_0 \<lparr>fs_ts_val := 77\<rparr>) m'))"
    by (simp add: forge_getsockopt_def module_env_0_def)
  have n: "negotiated forge_state_0" by (simp add: negotiated_def forge_state_0_def)
  show ?thesis
    using forge_set_get [OF module_env_0_ok n m g] m g by (simp add: conn_part_def scaled_def) (simp add: forge_state_0_def push_bit_eq_mult)
qed

theorem module_agrees_with_syscall_witness:
  "\<exists>w' m'. fake_accept_ioctl (kernel_0 True) sock_0 (Some (syscall_state forge_state_0)) world_0 = Inr (9, w') \<and>
     forge_setsockopt module_env_0 6 TCP_STATE (Some forge_state_0) mod_sock_0 = Inr (0, m') \<and>
     map_option wire (connected_sk w' 9) = Some (wire (base_sk m')) \<and> tp_rcv_nxt (tp (base_sk m')) = 200"
proof -
  obtain m' where m: "forge_setsockopt module_env_0 6 TCP_STATE (Some forge_state_0) mod_sock_0 = Inr (0, m')" using setsockopt_0 by blast
  have "unat (sk_rcv_wscale (syscall_state forge_state_0)) < 32" by (simp add: syscall_state_def forge_state_0_def)
  then obtain w' where w: "fake_accept_ioctl (m_kernel module_env_0) sock_0 (Some (syscall_state forge_state_0)) world_0 = Inr (9, w')"
    using ioctl_0 [of "syscall_state forge_state_0" True] by (auto simp: module_env_0_def)
  have "tp_rcv_nxt (tp (base_sk m')) = 200" using set_then_read [OF module_env_0_ok m] by (simp add: forge_state_0_def)
  moreover have "fs_wscale_ok forge_state_0 = 1" "m_kernel module_env_0 = kernel_0 True" by (simp_all add: forge_state_0_def module_env_0_def)
  moreover from this have "map_option wire (connected_sk w' 9) = Some (wire (base_sk m'))"
    using module_agrees_with_syscall [OF module_env_0_ok w _ _ m] by simp
  ultimately show ?thesis using w m by (intro exI [of _ w'] exI [of _ m']) simp
qed

end
