(* ===== verification/Felem.thy ===== *)
theory Felem
  imports Prelude
begin

text \<open>
  Field arithmetic of \<open>src/telex-station/station/tag/ptwist168.c\<close>, lines 99 to 606: elements of
  the integers modulo \<open>p = 2^168 - 2^8 - 1\<close> as three 64-bit limbs of 56 bits, products as five
  128-bit limbs. Every operation is the C function on words, wrap-around included.

  \<open>rep64 B c v\<close> says that the limbs of \<open>c\<close> are at most \<open>B\<close> and that \<open>c\<close> stands for \<open>v\<close>
  modulo \<open>p\<close>; \<open>rep128\<close> is the same for the unreduced products and \<open>red c v\<close> says that \<open>c\<close> is
  partially reduced (what \<open>felem_reduce\<close> ensures). Each operation has one rule over these
  predicates, and the rules (collection \<open>rep\<close>) carry the proofs about the curve.
\<close>

named_theorems rep \<open>what each field operation represents\<close>

section \<open>Representation\<close>

type_synonym fslice = u64
type_synonym coord = "fslice \<times> fslice \<times> fslice"
type_synonym wide = "u128 \<times> u128 \<times> u128 \<times> u128 \<times> u128"

definition prime_p :: int where
  "prime_p = 2 ^ 168 - 2 ^ 8 - 1"

fun fval :: "coord \<Rightarrow> int" where
  "fval (a0, a1, a2) = uint a0 + 2 ^ 56 * uint a1 + 2 ^ 112 * uint a2"

fun wval :: "wide \<Rightarrow> int" where
  "wval (b0, b1, b2, b3, b4) =
     uint b0 + 2 ^ 56 * uint b1 + 2 ^ 112 * uint b2 + 2 ^ 168 * uint b3 + 2 ^ 224 * uint b4"

fun limbs_le :: "int \<Rightarrow> coord \<Rightarrow> bool" where
  "limbs_le B (a0, a1, a2) \<longleftrightarrow> uint a0 \<le> B \<and> uint a1 \<le> B \<and> uint a2 \<le> B"

fun wlimbs_le :: "int \<Rightarrow> wide \<Rightarrow> bool" where
  "wlimbs_le B (b0, b1, b2, b3, b4) \<longleftrightarrow>
     uint b0 \<le> B \<and> uint b1 \<le> B \<and> uint b2 \<le> B \<and> uint b3 \<le> B \<and> uint b4 \<le> B"

fun reduced :: "coord \<Rightarrow> bool" where
  "reduced (a0, a1, a2) \<longleftrightarrow> uint a0 < 2 ^ 56 \<and> uint a1 < 2 ^ 56 \<and> uint a2 \<le> 2 ^ 56"

definition rep64 :: "int \<Rightarrow> coord \<Rightarrow> int \<Rightarrow> bool" where
  "rep64 B c v \<longleftrightarrow> limbs_le B c \<and> eqm prime_p (fval c) v"

definition rep128 :: "int \<Rightarrow> wide \<Rightarrow> int \<Rightarrow> bool" where
  "rep128 B c v \<longleftrightarrow> wlimbs_le B c \<and> eqm prime_p (wval c) v"

definition red :: "coord \<Rightarrow> int \<Rightarrow> bool" where
  "red c v \<longleftrightarrow> reduced c \<and> eqm prime_p (fval c) v"

text \<open>The unique representative below \<open>p\<close>, and the \<open>n\<close>-th power of \<open>x\<close>.\<close>

definition canonical :: "coord \<Rightarrow> bool" where
  "canonical c \<longleftrightarrow> (case c of (a0, a1, a2) \<Rightarrow>
     uint a0 < 2 ^ 56 \<and> uint a1 < 2 ^ 56 \<and> uint a2 < 2 ^ 56) \<and> fval c < prime_p"

definition pow :: "coord \<Rightarrow> int \<Rightarrow> nat \<Rightarrow> bool" where
  "pow c x n \<longleftrightarrow> red c (x ^ n)"

definition pow57 :: "coord \<Rightarrow> int \<Rightarrow> nat \<Rightarrow> bool" where
  "pow57 c x n \<longleftrightarrow> rep64 (2 ^ 57) c (x ^ n)"

section \<open>The operations\<close>

text \<open>\<open>bin21_to_felem\<close> reads three overlapping 64-bit words at offsets 0, 7 and 14 of a 21-byte
  array: the last read takes one byte past its end. \<open>past\<close> is that byte.\<close>

definition bin21_to_felem :: "byte \<Rightarrow> bytes \<Rightarrow> coord" where
  "bin21_to_felem past i =
     (let mem = i @ [past];
          m = 0x00ffffffffffffff
      in (le_word (take 8 mem) AND m,
          le_word (take 8 (drop 7 mem)) AND m,
          le_word (take 8 (drop 14 mem)) AND m))"

fun felem_to_bin21 :: "coord \<Rightarrow> bytes" where
  "felem_to_bin21 (in0, in1, in2) =
     map (\<lambda>i. ucast (drop_bit (8 * i) in0)) [0..<7] @
     map (\<lambda>i. ucast (drop_bit (8 * i) in1)) [0..<7] @
     map (\<lambda>i. ucast (drop_bit (8 * i) in2)) [0..<7]"

fun felem_sum64 :: "coord \<Rightarrow> coord \<Rightarrow> coord" where
  "felem_sum64 (out0, out1, out2) (in0, in1, in2) = (out0 + in0, out1 + in1, out2 + in2)"

fun felem_diff64 :: "coord \<Rightarrow> coord \<Rightarrow> coord" where
  "felem_diff64 (out0, out1, out2) (in0, in1, in2) =
     (let a = push_bit 56 (3 :: u64) - 3;
          b = push_bit 56 (3 :: u64) - 771
      in (out0 + b - in0, out1 + a - in1, out2 + a - in2))"

fun felem_diff128 :: "wide \<Rightarrow> wide \<Rightarrow> wide" where
  "felem_diff128 (out0, out1, out2, out3, out4) (in0, in1, in2, in3, in4) =
     (let a = push_bit 118 (3 :: u128) - 192;
          b = push_bit 118 (3 :: u128) - 49536;
          c = push_bit 118 (3 :: u128);
          d = push_bit 118 (3 :: u128) - 12681408
      in (out0 + d - in0, out1 + c - in1, out2 + b - in2, out3 + a - in3, out4 + a - in4))"

fun felem_diff_128_64 :: "wide \<Rightarrow> coord \<Rightarrow> wide" where
  "felem_diff_128_64 (out0, out1, out2, out3, out4) (in0, in1, in2) =
     (let a = push_bit 62 (3 :: u128) - 192;
          b = push_bit 62 (3 :: u128) - 49344
      in (out0 + b - ucast in0, out1 + a - ucast in1, out2 + a - ucast in2, out3, out4))"

fun felem_scalar64 :: "coord \<Rightarrow> fslice \<Rightarrow> coord" where
  "felem_scalar64 (out0, out1, out2) scalar = (out0 * scalar, out1 * scalar, out2 * scalar)"

fun felem_scalar128 :: "wide \<Rightarrow> u128 \<Rightarrow> wide" where
  "felem_scalar128 (out0, out1, out2, out3, out4) scalar =
     (out0 * scalar, out1 * scalar, out2 * scalar, out3 * scalar, out4 * scalar)"

fun felem_square :: "coord \<Rightarrow> wide" where
  "felem_square (in0, in1, in2) =
     (ucast in0 * ucast in0,
      ucast in0 * ucast in1 * 2,
      ucast in0 * ucast in2 * 2 + ucast in1 * ucast in1,
      ucast in1 * ucast in2 * 2,
      ucast in2 * ucast in2)"

fun felem_mul :: "coord \<Rightarrow> coord \<Rightarrow> wide" where
  "felem_mul (a0, a1, a2) (b0, b1, b2) =
     (ucast a0 * ucast b0,
      ucast a0 * ucast b1 + ucast a1 * ucast b0,
      ucast a0 * ucast b2 + ucast a1 * ucast b1 + ucast a2 * ucast b0,
      ucast a1 * ucast b2 + ucast a2 * ucast b1,
      ucast a2 * ucast b2)"

definition M257 :: "'a::len word \<Rightarrow> 'a word" where
  "M257 x = push_bit 8 x + x"

definition two56m1 :: "'a::len word" where
  "two56m1 = push_bit 56 1 - 1"

definition felem_reduce :: "wide \<Rightarrow> coord" where
  "felem_reduce c = (case c of (in0, in1, in2, in3, in4) \<Rightarrow>
     (let o0 = in0;
          o1 = in1;
          o2 = in2;
          \<comment> \<open>Eliminate in[3], in[4]\<close>
          o2 = o2 + M257 (drop_bit 56 in4);
          o1 = o1 + M257 (in4 AND two56m1);
          o1 = o1 + M257 (drop_bit 56 in3);
          o0 = o0 + M257 (in3 AND two56m1);
          \<comment> \<open>Eliminate the top part of output[2]\<close>
          o0 = o0 + M257 (drop_bit 56 o2);
          o2 = o2 AND two56m1;
          \<comment> \<open>Carry 0 to 1 to 2\<close>
          o1 = o1 + drop_bit 56 o0;
          o0 = o0 AND two56m1;
          o2 = o2 + drop_bit 56 o1;
          o1 = o1 AND two56m1;
          \<comment> \<open>Eliminate the top part of output[2]\<close>
          o0 = o0 + M257 (drop_bit 56 o2);
          o2 = o2 AND two56m1;
          \<comment> \<open>Carry 0 to 1 to 2\<close>
          o1 = o1 + drop_bit 56 o0
      in (ucast (o0 AND two56m1),
          ucast (o1 AND two56m1),
          ucast (o2 + drop_bit 56 o1))))"

definition felem_contract :: "coord \<Rightarrow> coord" where
  "felem_contract c = (case c of (in0, in1, in2) \<Rightarrow>
     (let two56m257 = push_bit 56 (1 :: u64) - 257;
          out0 = in0 + M257 (drop_bit 56 in2);
          out2 = in2 AND two56m1;
          out1 = in1 + drop_bit 56 out0;
          out0 = out0 AND two56m1;
          out2 = out2 + drop_bit 56 out1;
          out1 = out1 AND two56m1;
          a = of_bool (out2 = two56m1) AND of_bool (out1 = two56m1) AND of_bool (two56m257 \<le> out0)
      in (out0 - two56m257 * a, out1 - two56m1 * a, out2 - two56m1 * a)))"

definition felem_neg :: "coord \<Rightarrow> coord" where
  "felem_neg c = (case c of (in0, in1, in2) \<Rightarrow>
     (let a = push_bit 56 (3 :: u64) - 3;
          b = push_bit 56 (3 :: u64) - 771;
          t0 = b - in0;
          t1 = a - in1;
          t2 = a - in2;
          t1 = t1 + drop_bit 56 t0;
          t0 = t0 AND two56m1;
          t2 = t2 + drop_bit 56 t1;
          t1 = t1 AND two56m1
      in felem_contract (t0, t1, t2)))"

definition felem_is_zero :: "coord \<Rightarrow> fslice" where
  "felem_is_zero c = (case c of (in0, in1, in2) \<Rightarrow>
     (let two56m257 = push_bit 56 (1 :: u64) - 257;
          two57m1 = push_bit 57 (1 :: u64) - 1;
          two56m514 = push_bit 56 (1 :: u64) - 514;
          zero = of_bool (in0 = 0) AND of_bool (in1 = 0) AND of_bool (in2 = 0);
          two168m8m1 = of_bool (in2 = two56m1) AND of_bool (in1 = two56m1) AND
            of_bool (in0 = two56m257);
          two169m9m2 = of_bool (in2 = two57m1) AND of_bool (in1 = two56m1) AND
            of_bool (in0 = two56m514)
      in zero OR two168m8m1 OR two169m9m2))"

text \<open>The source squares or multiplies and reduces in pairs of calls; \<open>felem_sqr_red\<close> and
  \<open>felem_mul_red\<close> name the pairs. Loops of squarings are iterations of the first.\<close>

definition felem_sqr_red :: "coord \<Rightarrow> coord" where
  "felem_sqr_red c = felem_reduce (felem_square c)"

definition felem_mul_red :: "coord \<Rightarrow> coord \<Rightarrow> coord" where
  "felem_mul_red a b = felem_reduce (felem_mul a b)"

definition felem_inv :: "coord \<Rightarrow> coord" where
  "felem_inv i =
     (let ftmp = felem_sqr_red i;
          ftmp = felem_mul_red i ftmp;
          ftmp2 = felem_sqr_red ftmp;
          ftmp2 = felem_sqr_red ftmp2;
          ftmp2 = felem_mul_red ftmp2 ftmp;
          ftmp2 = felem_sqr_red ftmp2;
          ftmp2 = felem_sqr_red ftmp2;
          ftmp = felem_mul_red ftmp2 ftmp;
          ftmp2 = felem_sqr_red ftmp;
          ftmp2 = (felem_sqr_red ^^ 5) ftmp2;
          ftmp3 = felem_mul_red ftmp ftmp2;
          ftmp2 = felem_sqr_red ftmp3;
          ftmp2 = (felem_sqr_red ^^ 11) ftmp2;
          ftmp3 = felem_mul_red ftmp2 ftmp3;
          ftmp2 = felem_sqr_red ftmp3;
          ftmp2 = (felem_sqr_red ^^ 23) ftmp2;
          ftmp4 = felem_mul_red ftmp2 ftmp3;
          ftmp2 = felem_sqr_red ftmp4;
          ftmp2 = (felem_sqr_red ^^ 23) ftmp2;
          ftmp4 = felem_mul_red ftmp2 ftmp3;
          ftmp2 = felem_sqr_red ftmp4;
          ftmp2 = (felem_sqr_red ^^ 5) ftmp2;
          ftmp2 = felem_mul_red ftmp ftmp2;
          ftmp2 = felem_sqr_red ftmp2;
          ftmp4 = felem_mul_red i ftmp2;
          ftmp2 = felem_sqr_red ftmp4;
          ftmp2 = (felem_sqr_red ^^ 78) ftmp2;
          ftmp2 = felem_mul_red ftmp4 ftmp2;
          ftmp2 = felem_sqr_red ftmp2;
          ftmp2 = felem_mul_red i ftmp2;
          ftmp2 = (felem_sqr_red ^^ 7) ftmp2;
          ftmp2 = felem_mul_red ftmp ftmp2;
          ftmp2 = felem_sqr_red ftmp2;
          ftmp2 = felem_sqr_red ftmp2
      in felem_mul_red i ftmp2)"

definition felem_sqrt :: "coord \<Rightarrow> coord" where
  "felem_sqrt i =
     (let ftmp = felem_sqr_red i;
          ftmp = felem_mul_red i ftmp;
          ftmp2 = felem_sqr_red ftmp;
          ftmp2 = felem_sqr_red ftmp2;
          ftmp2 = felem_mul_red ftmp2 ftmp;
          ftmp2 = felem_sqr_red ftmp2;
          ftmp = felem_mul_red ftmp2 i;
          ftmp2 = felem_sqr_red ftmp;
          ftmp2 = (felem_sqr_red ^^ 4) ftmp2;
          ftmp = felem_mul_red ftmp ftmp2;
          ftmp2 = felem_sqr_red ftmp;
          ftmp2 = (felem_sqr_red ^^ 9) ftmp2;
          ftmp = felem_mul_red ftmp2 ftmp;
          ftmp2 = felem_sqr_red ftmp;
          ftmp2 = (felem_sqr_red ^^ 19) ftmp2;
          ftmp = felem_mul_red ftmp2 ftmp;
          ftmp2 = felem_sqr_red ftmp;
          ftmp2 = (felem_sqr_red ^^ 39) ftmp2;
          ftmp = felem_mul_red ftmp2 ftmp;
          ftmp2 = felem_sqr_red ftmp;
          ftmp2 = (felem_sqr_red ^^ 79) ftmp2;
          ftmp2 = felem_mul_red ftmp ftmp2;
          ftmp2 = (felem_sqr_red ^^ 5) ftmp2
      in felem_sqr_red ftmp2)"

fun copy_conditional :: "coord \<Rightarrow> coord \<Rightarrow> fslice \<Rightarrow> coord" where
  "copy_conditional (out0, out1, out2) (in0, in1, in2) icopy =
     (let copy = - icopy
      in (out0 XOR (copy AND (in0 XOR out0)),
          out1 XOR (copy AND (in1 XOR out1)),
          out2 XOR (copy AND (in2 XOR out2))))"

section \<open>Basic facts\<close>

lemma eqm_2_168: "eqm prime_p (2 ^ 168 * x) (257 * x)"
proof -
  have "2 ^ 168 * x - 257 * x = prime_p * x"
    by (simp add: prime_p_def)
  then show ?thesis by (simp only: eqm_dvd dvd_triv_left)
qed

lemma rep64I: "limbs_le B c \<Longrightarrow> eqm prime_p (fval c) v \<Longrightarrow> rep64 B c v"
  by (simp add: rep64_def)

lemma rep128I: "wlimbs_le B c \<Longrightarrow> eqm prime_p (wval c) v \<Longrightarrow> rep128 B c v"
  by (simp add: rep128_def)

lemma rep64_mono: "rep64 A c v \<Longrightarrow> A \<le> B \<Longrightarrow> rep64 B c v"
  by (cases c) (auto simp: rep64_def)

lemma rep64_cong: "rep64 A c u \<Longrightarrow> eqm prime_p u v \<Longrightarrow> rep64 A c v"
  by (auto simp: rep64_def intro: eqm_trans)

lemma red_rep64: "red c v \<Longrightarrow> rep64 (2 ^ 56) c v"
  by (cases c) (auto simp: rep64_def red_def)

lemma red_cong: "red c u \<Longrightarrow> eqm prime_p u v \<Longrightarrow> red c v"
  by (auto simp: red_def intro: eqm_trans)

lemma red_self: "reduced c \<Longrightarrow> red c (fval c)"
  by (simp add: red_def)

lemma two56m1_64: "two56m1 = (mask 56 :: u64)"
  and two56m1_128: "two56m1 = (mask 56 :: u128)"
  by (simp_all add: two56m1_def mask_eq_exp_minus_1)

lemma uint_and_two56m1_64: "uint ((x :: u64) AND two56m1) = uint x mod 2 ^ 56"
  by (simp add: two56m1_64 uint_take_bit flip: take_bit_eq_mask)

lemma uint_and_two56m1_128: "uint ((x :: u128) AND two56m1) = uint x mod 2 ^ 56"
  by (simp add: two56m1_128 uint_take_bit flip: take_bit_eq_mask)

lemma uint_M257:
  fixes x :: "'a::len word"
  assumes "257 * uint x < 2 ^ LENGTH('a)"
  shows "uint (M257 x) = 257 * uint x"
proof -
  have "uint x * 2 ^ 8 < 2 ^ LENGTH('a)"
  proof -
    have "uint x * 2 ^ 8 \<le> 257 * uint x"
      using uint_ge_0 [of x] by simp
    with assms show ?thesis by linarith
  qed
  then have "uint (push_bit 8 x) = uint x * 2 ^ 8"
    by (rule uint_push_bit_nowrap)
  then show ?thesis
    using assms by (simp add: M257_def uint_add_nowrap)
qed

section \<open>Representation rules\<close>

lemma felem_sum64_rep [rep]:
  assumes "rep64 A a u" "rep64 B b v" "A + B < 2 ^ 64"
  shows "rep64 (A + B) (felem_sum64 a b) (u + v)"
proof -
  obtain a0 a1 a2 b0 b1 b2 where ab: "a = (a0, a1, a2)" "b = (b0, b1, b2)"
    by (cases a, cases b) auto
  with assms have le: "uint a0 \<le> A" "uint a1 \<le> A" "uint a2 \<le> A"
      "uint b0 \<le> B" "uint b1 \<le> B" "uint b2 \<le> B"
    and ua: "eqm prime_p (fval a) u" and vb: "eqm prime_p (fval b) v"
    by (auto simp: rep64_def)
  from le assms(3) have s: "uint (a0 + b0) = uint a0 + uint b0" "uint (a1 + b1) = uint a1 + uint b1"
      "uint (a2 + b2) = uint a2 + uint b2"
    by (simp_all add: uint_add_nowrap)
  then have "fval (felem_sum64 a b) = fval a + fval b"
    by (simp add: ab algebra_simps)
  then have "eqm prime_p (fval (felem_sum64 a b)) (u + v)"
    using eqm_add [OF ua vb] by simp
  moreover have "limbs_le (A + B) (felem_sum64 a b)"
    using le by (simp add: ab s)
  ultimately show ?thesis by (rule rep64I [rotated])
qed

lemma felem_diff64_rep [rep]:
  assumes "rep64 A a u" "rep64 B b v" "A + 3 * 2 ^ 56 < 2 ^ 64" "B \<le> 3 * 2 ^ 56 - 771"
  shows "rep64 (A + 3 * 2 ^ 56) (felem_diff64 a b) (u - v)"
proof -
  obtain a0 a1 a2 b0 b1 b2 where ab: "a = (a0, a1, a2)" "b = (b0, b1, b2)"
    by (cases a, cases b) auto
  with assms have le: "uint a0 \<le> A" "uint a1 \<le> A" "uint a2 \<le> A"
      "uint b0 \<le> B" "uint b1 \<le> B" "uint b2 \<le> B"
    and ua: "eqm prime_p (fval a) u" and vb: "eqm prime_p (fval b) v"
    by (auto simp: rep64_def)
  define K L :: u64 where "K = push_bit 56 3 - 771" and "L = push_bit 56 3 - 3"
  have KL: "uint K = 3 * 2 ^ 56 - 771" "uint L = 3 * 2 ^ 56 - 3"
    by (simp_all add: K_def L_def)
  have out: "felem_diff64 a b = (a0 + K - b0, a1 + L - b1, a2 + L - b2)"
    by (simp add: ab K_def L_def)
  have s: "uint (a0 + K - b0) = uint a0 + uint K - uint b0"
      "uint (a1 + L - b1) = uint a1 + uint L - uint b1"
      "uint (a2 + L - b2) = uint a2 + uint L - uint b2"
    using le assms(3,4) by (simp_all add: uint_add_sub_nowrap KL)
  have "fval (felem_diff64 a b) = fval a - fval b + prime_p * 3"
    unfolding out unfolding ab fval.simps s KL prime_p_def by (simp add: algebra_simps)
  then have "eqm prime_p (fval (felem_diff64 a b)) (fval a - fval b)"
    by (simp add: eqm_add_multiple)
  then have "eqm prime_p (fval (felem_diff64 a b)) (u - v)"
    using eqm_diff [OF ua vb] by (rule eqm_trans)
  moreover have "limbs_le (A + 3 * 2 ^ 56) (felem_diff64 a b)"
    using le uint_ge_0 [of b0] uint_ge_0 [of b1] uint_ge_0 [of b2]
    unfolding out limbs_le.simps s KL by linarith
  ultimately show ?thesis by (rule rep64I [rotated])
qed

lemma felem_diff128_rep [rep]:
  assumes "rep128 A a u" "rep128 B b v" "A + 3 * 2 ^ 118 < 2 ^ 128" "B \<le> 3 * 2 ^ 118 - 12681408"
  shows "rep128 (A + 3 * 2 ^ 118) (felem_diff128 a b) (u - v)"
proof -
  obtain a0 a1 a2 a3 a4 b0 b1 b2 b3 b4
    where ab: "a = (a0, a1, a2, a3, a4)" "b = (b0, b1, b2, b3, b4)"
    by (cases a, cases b) auto
  with assms have le: "uint a0 \<le> A" "uint a1 \<le> A" "uint a2 \<le> A" "uint a3 \<le> A" "uint a4 \<le> A"
      "uint b0 \<le> B" "uint b1 \<le> B" "uint b2 \<le> B" "uint b3 \<le> B" "uint b4 \<le> B"
    and ua: "eqm prime_p (wval a) u" and vb: "eqm prime_p (wval b) v"
    by (auto simp: rep128_def)
  define K L M N :: u128 where "K = push_bit 118 3 - 192" and "L = push_bit 118 3 - 49536"
    and "M = push_bit 118 3" and "N = push_bit 118 3 - 12681408"
  note defs = K_def L_def M_def N_def
  have KL: "uint K = 3 * 2 ^ 118 - 192" "uint L = 3 * 2 ^ 118 - 49536" "uint M = 3 * 2 ^ 118"
      "uint N = 3 * 2 ^ 118 - 12681408"
    by (simp_all add: defs)
  have out: "felem_diff128 a b =
      (a0 + N - b0, a1 + M - b1, a2 + L - b2, a3 + K - b3, a4 + K - b4)"
    by (simp add: ab defs)
  have s: "uint (a0 + N - b0) = uint a0 + uint N - uint b0"
      "uint (a1 + M - b1) = uint a1 + uint M - uint b1"
      "uint (a2 + L - b2) = uint a2 + uint L - uint b2"
      "uint (a3 + K - b3) = uint a3 + uint K - uint b3"
      "uint (a4 + K - b4) = uint a4 + uint K - uint b4"
    using le assms(3,4) by (simp_all add: uint_add_sub_nowrap KL)
  have "wval (felem_diff128 a b) =
      wval a - wval b + prime_p * (3 * 2 ^ 174 + 3 * 2 ^ 118 + 49344)"
    unfolding out unfolding ab wval.simps s KL prime_p_def by (simp add: algebra_simps)
  then have "eqm prime_p (wval (felem_diff128 a b)) (wval a - wval b)"
    by (simp only: eqm_add_multiple)
  then have "eqm prime_p (wval (felem_diff128 a b)) (u - v)"
    using eqm_diff [OF ua vb] by (rule eqm_trans)
  moreover have "wlimbs_le (A + 3 * 2 ^ 118) (felem_diff128 a b)"
    using le uint_ge_0 [of b0] uint_ge_0 [of b1] uint_ge_0 [of b2] uint_ge_0 [of b3] uint_ge_0 [of b4]
    unfolding out wlimbs_le.simps s KL by linarith
  ultimately show ?thesis by (rule rep128I [rotated])
qed

lemma felem_diff_128_64_rep [rep]:
  assumes "rep128 A a u" "rep64 B b v" "A + 3 * 2 ^ 62 < 2 ^ 128" "B \<le> 3 * 2 ^ 62 - 49344"
  shows "rep128 (A + 3 * 2 ^ 62) (felem_diff_128_64 a b) (u - v)"
proof -
  obtain a0 a1 a2 a3 a4 b0 b1 b2
    where ab: "a = (a0, a1, a2, a3, a4)" "b = (b0, b1, b2)"
    by (cases a, cases b) auto
  with assms have le: "uint a0 \<le> A" "uint a1 \<le> A" "uint a2 \<le> A" "uint a3 \<le> A" "uint a4 \<le> A"
      "uint b0 \<le> B" "uint b1 \<le> B" "uint b2 \<le> B"
    and ua: "eqm prime_p (wval a) u" and vb: "eqm prime_p (fval b) v"
    by (auto simp: rep128_def rep64_def)
  define K L :: u128 where "K = push_bit 62 3 - 49344" and "L = push_bit 62 3 - 192"
  have KL: "uint K = 3 * 2 ^ 62 - 49344" "uint L = 3 * 2 ^ 62 - 192"
    by (simp_all add: K_def L_def)
  define c0 c1 c2 :: u128 where "c0 = ucast b0" and "c1 = ucast b1" and "c2 = ucast b2"
  have c: "uint c0 = uint b0" "uint c1 = uint b1" "uint c2 = uint b2"
    by (simp_all add: c0_def c1_def c2_def uint_ucast_widen)
  have out: "felem_diff_128_64 a b = (a0 + K - c0, a1 + L - c1, a2 + L - c2, a3, a4)"
    by (simp add: ab K_def L_def c0_def c1_def c2_def)
  have s: "uint (a0 + K - c0) = uint a0 + uint K - uint c0"
      "uint (a1 + L - c1) = uint a1 + uint L - uint c1"
      "uint (a2 + L - c2) = uint a2 + uint L - uint c2"
    using le assms(3,4) by (simp_all add: uint_add_sub_nowrap KL c)
  have "wval (felem_diff_128_64 a b) = wval a - fval b + prime_p * 192"
    unfolding out unfolding ab wval.simps fval.simps s KL c prime_p_def by (simp add: algebra_simps)
  then have "eqm prime_p (wval (felem_diff_128_64 a b)) (wval a - fval b)"
    by (simp only: eqm_add_multiple)
  then have "eqm prime_p (wval (felem_diff_128_64 a b)) (u - v)"
    using eqm_diff [OF ua vb] by (rule eqm_trans)
  moreover have "wlimbs_le (A + 3 * 2 ^ 62) (felem_diff_128_64 a b)"
    using le uint_ge_0 [of b0] uint_ge_0 [of b1] uint_ge_0 [of b2]
      zero_less_power [of "2 :: int" 62]
    unfolding out wlimbs_le.simps s KL c by linarith
  ultimately show ?thesis by (rule rep128I [rotated])
qed

lemma limb_product:
  fixes a b :: u64
  assumes "uint a \<le> A" "uint b \<le> B"
  shows "uint (ucast a * ucast b :: u128) = uint a * uint b" "uint a * uint b \<le> A * B"
proof -
  have w: "uint (ucast a :: u128) = uint a" "uint (ucast b :: u128) = uint b"
    by (simp_all add: uint_ucast_widen)
  have "uint a * uint b \<le> (2 ^ 64 - 1) * (2 ^ 64 - 1)"
    using uint_bounded [of a] uint_bounded [of b] by (intro mult_mono) auto
  then have "uint (ucast a :: u128) * uint (ucast b :: u128) < 2 ^ 128"
    by (simp add: w)
  then show "uint (ucast a * ucast b :: u128) = uint a * uint b"
    using w by (simp add: uint_mult_nowrap)
  show "uint a * uint b \<le> A * B"
    using assms uint_ge_0 [of a] uint_ge_0 [of b] by (intro mult_mono) linarith+
qed

lemma felem_mul_rep [rep]:
  assumes "rep64 A a u" "rep64 B b v" "3 * (A * B) < 2 ^ 128"
  shows "rep128 (3 * (A * B)) (felem_mul a b) (u * v)"
proof -
  obtain a0 a1 a2 b0 b1 b2 where ab: "a = (a0, a1, a2)" "b = (b0, b1, b2)"
    by (cases a, cases b) auto
  with assms have le: "uint a0 \<le> A" "uint a1 \<le> A" "uint a2 \<le> A"
      "uint b0 \<le> B" "uint b1 \<le> B" "uint b2 \<le> B"
    and ua: "eqm prime_p (fval a) u" and vb: "eqm prime_p (fval b) v"
    by (auto simp: rep64_def)
  define c :: "u64 \<Rightarrow> u64 \<Rightarrow> u128" where "c x y = ucast x * ucast y" for x y
  have pr: "uint (c x y) = uint x * uint y" "0 \<le> uint x * uint y" for x y
    unfolding c_def by (auto intro!: limb_product(1))
  have bd: "uint x * uint y \<le> A * B" if "uint x \<le> A" "uint y \<le> B" for x y :: u64
    using that by (rule limb_product(2))
  have two: "uint (x + y) = uint x + uint y" if "uint x \<le> A * B" "uint y \<le> A * B" for x y :: u128
  proof -
    have "0 \<le> A * B" using that(1) uint_ge_0 [of x] by linarith
    then show ?thesis using that assms(3) by (simp add: uint_add_nowrap)
  qed
  have three: "uint (x + y + z) = uint x + uint y + uint z"
    if "uint x \<le> A * B" "uint y \<le> A * B" "uint z \<le> A * B" for x y z :: u128
    using that assms(3) by (simp add: uint_add_nowrap two)
  have out: "felem_mul a b = (c a0 b0, c a0 b1 + c a1 b0, c a0 b2 + c a1 b1 + c a2 b0,
      c a1 b2 + c a2 b1, c a2 b2)"
    by (simp add: ab c_def)
  have s: "uint (c a0 b1 + c a1 b0) = uint (c a0 b1) + uint (c a1 b0)"
      "uint (c a1 b2 + c a2 b1) = uint (c a1 b2) + uint (c a2 b1)"
      "uint (c a0 b2 + c a1 b1 + c a2 b0) = uint (c a0 b2) + uint (c a1 b1) + uint (c a2 b0)"
    by (intro two three; simp add: pr bd le)+
  have "wval (felem_mul a b) = fval a * fval b"
    unfolding out unfolding ab wval.simps fval.simps s pr by (simp add: algebra_simps)
  then have "eqm prime_p (wval (felem_mul a b)) (u * v)"
    using eqm_mult [OF ua vb] by simp
  moreover have "wlimbs_le (3 * (A * B)) (felem_mul a b)"
    using bd [OF le(1,4)] bd [OF le(1,5)] bd [OF le(2,4)] bd [OF le(1,6)] bd [OF le(2,5)]
      bd [OF le(3,4)] bd [OF le(2,6)] bd [OF le(3,5)] bd [OF le(3,6)] pr(2) [of a0 b0]
    unfolding out wlimbs_le.simps s pr by linarith
  ultimately show ?thesis by (rule rep128I [rotated])
qed

text \<open>Squaring computes the same coefficients as a product of the element with itself.\<close>

lemma felem_square_mul: "felem_square a = felem_mul a a"
  by (cases a) (simp add: algebra_simps)

lemma felem_square_rep [rep]:
  assumes "rep64 A a u" "3 * (A * A) < 2 ^ 128"
  shows "rep128 (3 * (A * A)) (felem_square a) (u * u)"
  unfolding felem_square_mul using assms by (intro felem_mul_rep)

lemma felem_scalar64_rep [rep]:
  assumes "rep64 A a u" "A * uint k < 2 ^ 64"
  shows "rep64 (A * uint k) (felem_scalar64 a k) (uint k * u)"
proof -
  obtain a0 a1 a2 where a: "a = (a0, a1, a2)"
    by (cases a) auto
  with assms(1) have le: "uint a0 \<le> A" "uint a1 \<le> A" "uint a2 \<le> A"
    and ua: "eqm prime_p (fval a) u"
    by (auto simp: rep64_def)
  have m: "uint x * uint k \<le> A * uint k" if "uint x \<le> A" for x :: u64
    using that by (intro mult_right_mono) auto
  have s: "uint (x * k) = uint x * uint k" if "uint x \<le> A" for x :: u64
    using m [OF that] assms(2) by (simp add: uint_mult_nowrap)
  have "fval (felem_scalar64 a k) = uint k * fval a"
    by (simp add: a s le algebra_simps)
  then have "eqm prime_p (fval (felem_scalar64 a k)) (uint k * u)"
    using eqm_mult [OF eqm_refl ua] by simp
  moreover have "limbs_le (A * uint k) (felem_scalar64 a k)"
    by (simp add: a s m le)
  ultimately show ?thesis by (rule rep64I [rotated])
qed

lemma felem_scalar128_rep [rep]:
  assumes "rep128 A a u" "A * uint k < 2 ^ 128"
  shows "rep128 (A * uint k) (felem_scalar128 a k) (uint k * u)"
proof -
  obtain a0 a1 a2 a3 a4 where a: "a = (a0, a1, a2, a3, a4)"
    by (cases a) auto
  with assms(1) have le: "uint a0 \<le> A" "uint a1 \<le> A" "uint a2 \<le> A" "uint a3 \<le> A" "uint a4 \<le> A"
    and ua: "eqm prime_p (wval a) u"
    by (auto simp: rep128_def)
  have m: "uint x * uint k \<le> A * uint k" if "uint x \<le> A" for x :: u128
    using that by (intro mult_right_mono) auto
  have s: "uint (x * k) = uint x * uint k" if "uint x \<le> A" for x :: u128
    using m [OF that] assms(2) by (simp add: uint_mult_nowrap)
  have "wval (felem_scalar128 a k) = uint k * wval a"
    by (simp add: a s le algebra_simps)
  then have "eqm prime_p (wval (felem_scalar128 a k)) (uint k * u)"
    using eqm_mult [OF eqm_refl ua] by simp
  moreover have "wlimbs_le (A * uint k) (felem_scalar128 a k)"
    by (simp add: a s m le)
  ultimately show ?thesis by (rule rep128I [rotated])
qed

section \<open>Reduction\<close>

text \<open>A word split at bit 56, as the carries of \<open>felem_reduce\<close> and \<open>felem_contract\<close> do.\<close>

lemma split56:
  "uint w = 2 ^ 56 * (uint w div 2 ^ 56) + uint w mod 2 ^ 56"
  "0 \<le> uint w mod 2 ^ 56" "uint w mod 2 ^ 56 < 2 ^ 56" "0 \<le> uint w div 2 ^ 56"
  by (simp_all add: pos_imp_zdiv_nonneg_iff)

lemma uint_M257_drop:
  fixes x :: u128
  shows "uint (M257 (drop_bit 56 x)) = 257 * (uint x div 2 ^ 56)"
    "uint (M257 (x AND two56m1)) = 257 * (uint x mod 2 ^ 56)"
proof -
  have "uint x < 2 ^ 128" using uint_bounded [of x] by simp
  then have "uint x div 2 ^ 56 < 2 ^ 72" using split56 [of x] by simp
  then show "uint (M257 (drop_bit 56 x)) = 257 * (uint x div 2 ^ 56)"
    by (subst uint_M257) (simp_all add: uint_drop_bit)
  show "uint (M257 (x AND two56m1)) = 257 * (uint x mod 2 ^ 56)"
    using split56(3) [of x] by (subst uint_M257) (simp_all add: uint_and_two56m1_128)
qed

text \<open>The arithmetic of the carry chain: \<open>q\<close> and \<open>r\<close> are the quotients and remainders at
  bit 56 of the successive sums.\<close>

lemma reduce_arith:
  fixes i0 i1 i2 q3 r3 q4 r4 qa qb qc qd qe qf :: int
  assumes "i3 = 2 ^ 56 * q3 + r3" and "i4 = 2 ^ 56 * q4 + r4"
    and "ra = i2 + 257 * q4 - 2 ^ 56 * qa"
    and "rb = i0 + 257 * r3 + 257 * qa - 2 ^ 56 * qb"
    and "rc = i1 + 257 * r4 + 257 * q3 + qb - 2 ^ 56 * qc"
    and "rd = ra + qc - 2 ^ 56 * qd"
    and "re = rb + 257 * qd - 2 ^ 56 * qe"
    and "rf = rc + qe - 2 ^ 56 * qf"
  shows "i0 + 2 ^ 56 * i1 + 2 ^ 112 * i2 + 2 ^ 168 * i3 + 2 ^ 224 * i4 =
    re + 2 ^ 56 * rf + 2 ^ 112 * (rd + qf) +
    (2 ^ 168 - 2 ^ 8 - 1) * (i3 + 2 ^ 56 * i4 + qa + qd)"
  unfolding assms by (simp add: algebra_simps)

lemma felem_reduce_rep [rep]:
  assumes "rep128 A i u" "A < 2 ^ 126"
  shows "red (felem_reduce i) u"
proof -
  obtain i0 i1 i2 i3 i4 where i: "i = (i0, i1, i2, i3, i4)"
    by (cases i) auto
  with assms have lt: "uint i0 < 2 ^ 126" "uint i1 < 2 ^ 126" "uint i2 < 2 ^ 126"
      "uint i3 < 2 ^ 126" "uint i4 < 2 ^ 126"
    and v: "eqm prime_p (wval i) u"
    by (auto simp: rep128_def)
  note sp = split56
  define a2 where "a2 = i2 + M257 (drop_bit 56 i4)"
  define a1 where "a1 = i1 + M257 (i4 AND two56m1)"
  define b1 where "b1 = a1 + M257 (drop_bit 56 i3)"
  define a0 where "a0 = i0 + M257 (i3 AND two56m1)"
  define b0 where "b0 = a0 + M257 (drop_bit 56 a2)"
  define b2 where "b2 = a2 AND two56m1"
  define c1 where "c1 = b1 + drop_bit 56 b0"
  define c0 where "c0 = b0 AND two56m1"
  define c2 where "c2 = b2 + drop_bit 56 c1"
  define d1 where "d1 = c1 AND two56m1"
  define d0 where "d0 = c0 + M257 (drop_bit 56 c2)"
  define d2 where "d2 = c2 AND two56m1"
  define e1 where "e1 = d1 + drop_bit 56 d0"
  have out: "felem_reduce i =
      (ucast (d0 AND two56m1), ucast (e1 AND two56m1), ucast (d2 + drop_bit 56 e1))"
    by (simp add: felem_reduce_def Let_def i a2_def a1_def b1_def a0_def b0_def b2_def c1_def
        c0_def c2_def d1_def d0_def d2_def e1_def)
  have add: "uint (x + y) = uint x + uint y" if "uint x < 2 ^ 127" "uint y < 2 ^ 127" for x y :: u128
    using that by (simp add: uint_add_nowrap)
  note m = uint_M257_drop and dr = uint_drop_bit and an = uint_and_two56m1_128
  have q: "uint i3 div 2 ^ 56 < 2 ^ 70" "uint i4 div 2 ^ 56 < 2 ^ 70"
    using sp [of i3] sp [of i4] lt by simp_all
  have A2: "uint a2 = uint i2 + 257 * (uint i4 div 2 ^ 56)"
    using q(2) lt(3) sp(4) [of i4] unfolding a2_def by (simp add: add m)
  have A1: "uint a1 = uint i1 + 257 * (uint i4 mod 2 ^ 56)"
    using sp(3) [of i4] lt(2) unfolding a1_def by (simp add: add m)
  have a1: "uint a1 < 2 ^ 126 + 2 ^ 65"
    using A1 lt(2) sp(3) [of i4] by simp
  have B1: "uint b1 = uint a1 + 257 * (uint i3 div 2 ^ 56)"
    using q(1) a1 unfolding b1_def by (simp add: add m)
  have b1: "uint b1 < 2 ^ 126 + 2 ^ 80"
    using B1 a1 q(1) by simp
  have A0: "uint a0 = uint i0 + 257 * (uint i3 mod 2 ^ 56)"
    using sp(3) [of i3] lt(1) unfolding a0_def by (simp add: add m)
  have a0: "uint a0 < 2 ^ 126 + 2 ^ 65"
    using A0 lt(1) sp(3) [of i3] by simp
  have a2: "uint a2 div 2 ^ 56 < 2 ^ 71"
    using A2 lt(3) q(2) sp(1,2) [of a2] by simp
  have B0: "uint b0 = uint a0 + 257 * (uint a2 div 2 ^ 56)"
    using a2 a0 unfolding b0_def by (simp add: add m)
  have b0: "uint b0 div 2 ^ 56 < 2 ^ 71"
    using B0 a0 a2 sp(1,2) [of b0] by simp
  have C1: "uint c1 = uint b1 + uint b0 div 2 ^ 56"
    using b0 b1 unfolding c1_def by (simp add: add dr)
  have c1: "uint c1 div 2 ^ 56 < 2 ^ 71"
    using C1 b1 b0 sp(1,2) [of c1] by simp
  have C2: "uint c2 = uint a2 mod 2 ^ 56 + uint c1 div 2 ^ 56"
    using c1 sp(3) [of a2] unfolding c2_def b2_def by (simp add: add dr an)
  have c2: "uint c2 div 2 ^ 56 < 2 ^ 16"
    using C2 c1 sp(3) [of a2] sp(1,2) [of c2] by simp
  have D0: "uint d0 = uint b0 mod 2 ^ 56 + 257 * (uint c2 div 2 ^ 56)"
    using c2 sp(3) [of b0] unfolding d0_def c0_def by (simp add: add m an)
  have d0: "uint d0 div 2 ^ 56 < 2"
    using D0 c2 sp(3) [of b0] sp(1,2) [of d0] by simp
  have E1: "uint e1 = uint c1 mod 2 ^ 56 + uint d0 div 2 ^ 56"
    using d0 sp(3) [of c1] unfolding e1_def d1_def by (simp add: add dr an)
  have e1: "uint e1 div 2 ^ 56 < 2"
    using E1 d0 sp(3) [of c1] sp(1,2) [of e1] by simp
  have F2: "uint (d2 + drop_bit 56 e1) = uint c2 mod 2 ^ 56 + uint e1 div 2 ^ 56"
    using e1 sp(3) [of c2] unfolding d2_def by (simp add: add dr an)
  define x0 x1 x2 :: u64 where "x0 = ucast (d0 AND two56m1)" and "x1 = ucast (e1 AND two56m1)"
    and "x2 = ucast (d2 + drop_bit 56 e1)"
  have X: "uint x0 = uint d0 mod 2 ^ 56" "uint x1 = uint e1 mod 2 ^ 56"
      "uint x2 = uint c2 mod 2 ^ 56 + uint e1 div 2 ^ 56"
    using sp(3) [of d0] sp(3) [of e1] sp(3) [of c2] e1
    unfolding x0_def x1_def x2_def
    by (subst uint_ucast_narrow; simp add: an F2)+
  have "wval i = fval (x0, x1, x2) +
      prime_p * (uint i3 + 2 ^ 56 * uint i4 + uint a2 div 2 ^ 56 + uint c2 div 2 ^ 56)"
  proof -
    have r1: "uint a2 mod 2 ^ 56 = uint i2 + 257 * (uint i4 div 2 ^ 56) - 2 ^ 56 * (uint a2 div 2 ^ 56)"
      using A2 sp(1) [of a2] by linarith
    have r2: "uint b0 mod 2 ^ 56 = uint i0 + 257 * (uint i3 mod 2 ^ 56) +
        257 * (uint a2 div 2 ^ 56) - 2 ^ 56 * (uint b0 div 2 ^ 56)"
      using A0 B0 sp(1) [of b0] by linarith
    have r3: "uint c1 mod 2 ^ 56 = uint i1 + 257 * (uint i4 mod 2 ^ 56) +
        257 * (uint i3 div 2 ^ 56) + uint b0 div 2 ^ 56 - 2 ^ 56 * (uint c1 div 2 ^ 56)"
      using A1 B1 C1 sp(1) [of c1] by linarith
    have r4: "uint c2 mod 2 ^ 56 =
        uint a2 mod 2 ^ 56 + uint c1 div 2 ^ 56 - 2 ^ 56 * (uint c2 div 2 ^ 56)"
      using C2 sp(1) [of c2] by linarith
    have r5: "uint d0 mod 2 ^ 56 =
        uint b0 mod 2 ^ 56 + 257 * (uint c2 div 2 ^ 56) - 2 ^ 56 * (uint d0 div 2 ^ 56)"
      using D0 sp(1) [of d0] by linarith
    have r6: "uint e1 mod 2 ^ 56 =
        uint c1 mod 2 ^ 56 + uint d0 div 2 ^ 56 - 2 ^ 56 * (uint e1 div 2 ^ 56)"
      using E1 sp(1) [of e1] by linarith
    from sp(1) [of i3] sp(1) [of i4] r1 r2 r3 r4 r5 r6 show ?thesis
      unfolding i wval.simps fval.simps X prime_p_def by (rule reduce_arith)
  qed
  then have "eqm prime_p (wval i) (fval (x0, x1, x2))"
    by (simp only: eqm_add_multiple)
  then have "eqm prime_p (fval (x0, x1, x2)) u"
    using v by (auto intro: eqm_trans eqm_sym)
  moreover have "reduced (x0, x1, x2)"
    using sp(3) [of d0] sp(3) [of e1] sp(3) [of c2] e1 by (simp add: X)
  ultimately show ?thesis
    by (simp add: red_def out x0_def x1_def x2_def)
qed

end
