(* ===== verification/Felem_Props.thy ===== *)
theory Felem_Props
  imports Felem
begin

text \<open>
  Canonical form, negation, the zero test, the byte encoding, inversion and square root of the
  field elements of \<open>ptwist168.c\<close>, with the properties of the field layer.
\<close>

section \<open>Contraction, negation and the zero test\<close>

lemma div56_less:
  assumes "(x :: int) < k * 2 ^ 56"
  shows "x div 2 ^ 56 < k"
proof (rule ccontr)
  assume "\<not> x div 2 ^ 56 < k"
  then have "k * 2 ^ 56 \<le> x div 2 ^ 56 * 2 ^ 56"
    by (intro mult_right_mono) simp_all
  also have "\<dots> \<le> x"
    using minus_div_mult_eq_mod [of x "2 ^ 56"] pos_mod_sign [of "2 ^ 56" x] by simp
  finally show False using assms by simp
qed

lemma of_bool_and: "(of_bool P AND of_bool Q :: 'a::len word) = of_bool (P \<and> Q)"
  by (cases P; cases Q) simp_all

lemma of_bool_or: "(of_bool P OR of_bool Q :: 'a::len word) = of_bool (P \<or> Q)"
  by (cases P; cases Q) simp_all

lemma uint_two56m1_64: "uint (two56m1 :: u64) = 2 ^ 56 - 1"
  by (simp add: two56m1_def)

text \<open>What \<open>felem_contract\<close> computes on limbs as integers: fold the top of the last limb, carry,
  then subtract \<open>p\<close> if the value reaches it.\<close>

lemma felem_contract_steps:
  assumes "uint t0 < 2 ^ 56" "uint t1 < 2 ^ 56" "uint t2 < 2 ^ 60"
  defines "z0 \<equiv> uint t0 + 257 * (uint t2 div 2 ^ 56)"
  defines "z1 \<equiv> uint t1 + z0 div 2 ^ 56"
  defines "z2 \<equiv> uint t2 mod 2 ^ 56 + z1 div 2 ^ 56"
  shows "\<exists>y0 y1 y2. felem_contract (t0, t1, t2) = (y0, y1, y2) \<and>
    (if z2 = 2 ^ 56 - 1 \<and> z1 mod 2 ^ 56 = 2 ^ 56 - 1 \<and> 2 ^ 56 - 257 \<le> z0 mod 2 ^ 56
     then uint y0 = z0 mod 2 ^ 56 - (2 ^ 56 - 257) \<and> uint y1 = 0 \<and> uint y2 = 0
     else uint y0 = z0 mod 2 ^ 56 \<and> uint y1 = z1 mod 2 ^ 56 \<and> uint y2 = z2)"
proof -
  define w0 where "w0 = t0 + M257 (drop_bit 56 t2)"
  define w1 where "w1 = t1 + drop_bit 56 w0"
  define w2 where "w2 = (t2 AND two56m1) + drop_bit 56 w1"
  define P where "P \<longleftrightarrow> w2 = two56m1 \<and> w1 AND two56m1 = two56m1 \<and>
    push_bit 56 (1 :: u64) - 257 \<le> w0 AND two56m1"
  have q: "uint t2 div 2 ^ 56 < 2 ^ 4" "0 \<le> uint t2 div 2 ^ 56"
    using split56 [of t2] assms(3) by simp_all
  have W0: "uint w0 = z0"
    using q assms(1) unfolding w0_def z0_def
    by (subst uint_add_nowrap) (simp_all add: uint_M257 uint_drop_bit)
  have z0: "0 \<le> z0" "z0 < 2 ^ 57" using q assms(1) by (simp_all add: z0_def)
  then have c0: "z0 div 2 ^ 56 < 2" "0 \<le> z0 div 2 ^ 56" by simp_all
  have W1: "uint w1 = z1"
    using c0 assms(2) unfolding w1_def z1_def
    by (subst uint_add_nowrap) (simp_all add: uint_drop_bit W0)
  have z1: "0 \<le> z1" "z1 < 2 ^ 57" using c0 assms(2) by (simp_all add: z1_def)
  then have c1: "z1 div 2 ^ 56 < 2" "0 \<le> z1 div 2 ^ 56" by simp_all
  have W2: "uint w2 = z2"
    using c1 split56(2,3) [of t2] unfolding w2_def z2_def
    by (subst uint_add_nowrap) (simp_all add: uint_drop_bit uint_and_two56m1_64 W1)
  have P: "P \<longleftrightarrow> z2 = 2 ^ 56 - 1 \<and> z1 mod 2 ^ 56 = 2 ^ 56 - 1 \<and> 2 ^ 56 - 257 \<le> z0 mod 2 ^ 56"
    unfolding P_def word_le_def word_uint_eq_iff
    by (simp add: uint_and_two56m1_64 uint_two56m1_64 W0 W1 W2)
  have out: "felem_contract (t0, t1, t2) =
      ((w0 AND two56m1) - (push_bit 56 1 - 257) * of_bool P,
       (w1 AND two56m1) - two56m1 * of_bool P, w2 - two56m1 * of_bool P)"
    by (simp only: felem_contract_def Let_def prod.case w0_def w1_def w2_def P_def of_bool_and)
  show ?thesis
  proof (cases P)
    case True
    then show ?thesis
      using P W0 W1 W2
      by (simp add: out uint_sub_nowrap uint_and_two56m1_64 uint_two56m1_64)
  next
    case False
    then have nP: "\<not> (z2 = 2 ^ 56 - 1 \<and> z1 mod 2 ^ 56 = 2 ^ 56 - 1 \<and> 2 ^ 56 - 257 \<le> z0 mod 2 ^ 56)"
      by (simp only: P not_False_eq_True)
    show ?thesis
      unfolding if_not_P [OF nP] using False W0 W1 W2 by (simp add: out uint_and_two56m1_64)
  qed
qed

lemma top_limbs:
  fixes a b c :: int
  assumes "0 \<le> a" "a < 2 ^ 56" "0 \<le> b" "b < 2 ^ 56" "c \<le> 2 ^ 56"
  shows "c = 2 ^ 56 - 1 \<and> b = 2 ^ 56 - 1 \<and> 2 ^ 56 - 257 \<le> a \<longleftrightarrow>
    prime_p \<le> a + 2 ^ 56 * b + 2 ^ 112 * c \<and> a + 2 ^ 56 * b + 2 ^ 112 * c < 2 ^ 168"
proof
  assume h: "prime_p \<le> a + 2 ^ 56 * b + 2 ^ 112 * c \<and> a + 2 ^ 56 * b + 2 ^ 112 * c < 2 ^ 168"
  then have c: "c = 2 ^ 56 - 1"
    using assms by (simp add: prime_p_def)
  with h have "b = 2 ^ 56 - 1"
    using assms by (simp add: prime_p_def)
  with h c show "c = 2 ^ 56 - 1 \<and> b = 2 ^ 56 - 1 \<and> 2 ^ 56 - 257 \<le> a"
    by (simp add: prime_p_def)
qed (use assms in \<open>simp add: prime_p_def\<close>)

lemma contract_arith:
  fixes t0 t1 q r qa qb :: int
  assumes "t2 = 2 ^ 56 * q + r" "ra = t0 + 257 * q - 2 ^ 56 * qa" "rb = t1 + qa - 2 ^ 56 * qb"
  shows "t0 + 2 ^ 56 * t1 + 2 ^ 112 * t2 - (2 ^ 168 - 2 ^ 8 - 1) * q =
    ra + 2 ^ 56 * rb + 2 ^ 112 * (r + qb)"
  unfolding assms by (simp add: algebra_simps)

text \<open>On any input with two 56-bit limbs and a last limb below \<open>2^60\<close>, contraction keeps the
  residue, and the result is canonical unless the folded value still reaches \<open>2^168\<close>.\<close>

lemma felem_contract_gen:
  assumes "uint t0 < 2 ^ 56" "uint t1 < 2 ^ 56" "uint t2 < 2 ^ 60"
  defines "V \<equiv> fval (t0, t1, t2) - prime_p * (uint t2 div 2 ^ 56)"
  shows "reduced (felem_contract (t0, t1, t2))"
    and "fval (felem_contract (t0, t1, t2)) = (if prime_p \<le> V \<and> V < 2 ^ 168 then V - prime_p else V)"
    and "V < 2 ^ 168 \<Longrightarrow> canonical (felem_contract (t0, t1, t2))"
proof -
  define z0 where "z0 = uint t0 + 257 * (uint t2 div 2 ^ 56)"
  define z1 where "z1 = uint t1 + z0 div 2 ^ 56"
  define z2 where "z2 = uint t2 mod 2 ^ 56 + z1 div 2 ^ 56"
  define Q where "Q \<longleftrightarrow> z2 = 2 ^ 56 - 1 \<and> z1 mod 2 ^ 56 = 2 ^ 56 - 1 \<and> 2 ^ 56 - 257 \<le> z0 mod 2 ^ 56"
  obtain y0 y1 y2 where out: "felem_contract (t0, t1, t2) = (y0, y1, y2)"
    and y: "if Q then uint y0 = z0 mod 2 ^ 56 - (2 ^ 56 - 257) \<and> uint y1 = 0 \<and> uint y2 = 0
      else uint y0 = z0 mod 2 ^ 56 \<and> uint y1 = z1 mod 2 ^ 56 \<and> uint y2 = z2"
    using felem_contract_steps [OF assms(1-3)] unfolding z2_def z1_def z0_def Q_def by blast
  have q: "uint t2 div 2 ^ 56 < 2 ^ 4" "0 \<le> uint t2 div 2 ^ 56"
    using split56 [of t2] assms(3) by simp_all
  have z0: "0 \<le> z0" "z0 < 2 ^ 57" using q assms(1) by (simp_all add: z0_def)
  then have c0: "z0 div 2 ^ 56 < 2" "0 \<le> z0 div 2 ^ 56" by simp_all
  have z1: "0 \<le> z1" "z1 < 2 ^ 57" using c0 assms(2) by (simp_all add: z1_def)
  then have c1: "z1 div 2 ^ 56 < 2" "0 \<le> z1 div 2 ^ 56" by simp_all
  have z2: "0 \<le> z2" "z2 \<le> 2 ^ 56"
    using c1 split56(2,3) [of t2] by (simp_all add: z2_def)
  have m: "z0 mod 2 ^ 56 = z0 - 2 ^ 56 * (z0 div 2 ^ 56)" "z1 mod 2 ^ 56 = z1 - 2 ^ 56 * (z1 div 2 ^ 56)"
    by (simp_all add: minus_mult_div_eq_mod)
  have V: "V = z0 mod 2 ^ 56 + 2 ^ 56 * (z1 mod 2 ^ 56) + 2 ^ 112 * z2"
    using split56(1) [of t2] m unfolding V_def fval.simps prime_p_def z2_def z0_def z1_def
    by (rule contract_arith)
  have r: "z0 mod 2 ^ 56 < 2 ^ 56" "0 \<le> z0 mod 2 ^ 56" "z1 mod 2 ^ 56 < 2 ^ 56" "0 \<le> z1 mod 2 ^ 56"
    by simp_all
  have Q: "Q \<longleftrightarrow> prime_p \<le> V \<and> V < 2 ^ 168"
    unfolding Q_def V using r z2 by (intro top_limbs)
  show "reduced (felem_contract (t0, t1, t2))"
    using y r z2 by (auto simp: out split: if_splits)
  show "fval (felem_contract (t0, t1, t2)) = (if prime_p \<le> V \<and> V < 2 ^ 168 then V - prime_p else V)"
    using y unfolding Q [symmetric] by (auto simp: out V Q_def prime_p_def split: if_splits)
  show "canonical (felem_contract (t0, t1, t2))" if "V < 2 ^ 168"
  proof (cases Q)
    case True
    with y have y': "uint y0 = z0 mod 2 ^ 56 - (2 ^ 56 - 257)" "uint y1 = 0" "uint y2 = 0"
      by simp_all
    with r(1) have "uint y0 < 257" by linarith
    with y'(2,3) show ?thesis
      by (simp add: out canonical_def prime_p_def)
  next
    case False
    with that Q have "V < prime_p" by simp
    moreover from False y have "uint y0 = z0 mod 2 ^ 56" "uint y1 = z1 mod 2 ^ 56" "uint y2 = z2"
      by simp_all
    ultimately show ?thesis
      using r V that by (simp add: out canonical_def)
  qed
qed


lemma felem_contract_canonical:
  assumes "reduced c"
  shows "canonical (felem_contract c)" "fval (felem_contract c) = fval c mod prime_p"
proof -
  obtain t0 t1 t2 where c: "c = (t0, t1, t2)" by (cases c) auto
  with assms have t: "uint t0 < 2 ^ 56" "uint t1 < 2 ^ 56" "uint t2 \<le> 2 ^ 56" by simp_all
  then have t2: "uint t2 < 2 ^ 60" by simp
  define V where "V = fval (t0, t1, t2) - prime_p * (uint t2 div 2 ^ 56)"
  have V: "0 \<le> V" "V < 2 ^ 168"
  proof -
    have "uint t2 div 2 ^ 56 = (if uint t2 = 2 ^ 56 then 1 else 0)"
      using t(3) uint_ge_0 [of t2] by simp
    then show "0 \<le> V" "V < 2 ^ 168"
      using t uint_ge_0 [of t0] uint_ge_0 [of t1] uint_ge_0 [of t2]
      by (auto simp: V_def prime_p_def split: if_splits)
  qed
  show "canonical (felem_contract c)"
    using felem_contract_gen(3) [OF t(1,2) t2] V(2) by (simp add: c V_def)
  have f: "fval (felem_contract c) = (if prime_p \<le> V then V - prime_p else V)"
    using felem_contract_gen(2) [OF t(1,2) t2] V(2) by (simp add: c V_def)
  have "V mod prime_p = (if prime_p \<le> V then V - prime_p else V)"
  proof (cases "prime_p \<le> V")
    case True
    then have "(V - prime_p) mod prime_p = V - prime_p"
      using V by (intro mod_pos_pos_trivial) (simp_all add: prime_p_def)
    with True show ?thesis by simp
  next
    case False
    with V show ?thesis by simp
  qed
  moreover have "fval c = V + prime_p * (uint t2 div 2 ^ 56)"
    by (simp add: V_def c)
  then have "fval c mod prime_p = V mod prime_p"
    by (simp only: mod_mult_self2)
  ultimately show "fval (felem_contract c) = fval c mod prime_p"
    using f by simp
qed


text \<open>Negation. The value handed to \<open>felem_contract\<close> is \<open>3 * p - in\<close>, whose last limb is about
  \<open>3 * 2^56\<close>: outside the range \<open>felem_contract\<close> states for its input. The residue is right, but
  for \<open>p - 514 < in \<le> p - 257\<close> the result is not canonical.\<close>

lemma neg_value_arith:
  fixes i0 i1 i2 q0 q1 :: int
  assumes "r0 = 3 * 2 ^ 56 - 771 - i0 - 2 ^ 56 * q0" "r1 = 3 * 2 ^ 56 - 3 - i1 + q0 - 2 ^ 56 * q1"
  shows "r0 + 2 ^ 56 * r1 + 2 ^ 112 * (3 * 2 ^ 56 - 3 - i2 + q1) =
    3 * (2 ^ 168 - 2 ^ 8 - 1) - (i0 + 2 ^ 56 * i1 + 2 ^ 112 * i2)"
  unfolding assms by (simp add: algebra_simps)

lemma top_arith:
  fixes t0 t1 t2 q r :: int
  assumes "t2 = 2 ^ 56 * q + r" "0 \<le> r" "r < 2 ^ 56" "0 \<le> t0" "t0 < 2 ^ 56" "0 \<le> t1" "t1 < 2 ^ 56"
  shows "q * 2 ^ 168 \<le> t0 + 2 ^ 56 * t1 + 2 ^ 112 * t2"
    and "t0 + 2 ^ 56 * t1 + 2 ^ 112 * t2 < q * 2 ^ 168 + 2 ^ 168"
  using assms(2-7) unfolding assms(1) by simp_all

lemma neg_arith:
  fixes q x :: int
  assumes "q * 2 ^ 168 \<le> 3 * prime_p - x" "3 * prime_p - x < q * 2 ^ 168 + 2 ^ 168"
    "0 \<le> x" "x < prime_p" "x \<le> prime_p - 514 \<or> prime_p - 257 < x"
  defines "V \<equiv> 3 * prime_p - x - prime_p * q"
  shows "V < 2 ^ 168 \<and> (if prime_p \<le> V then V - prime_p else V) = (- x) mod prime_p"
proof -
  note p = prime_p_def
  have m: "(- x) mod prime_p = (if x = 0 then 0 else prime_p - x)"
    using assms(3,4) by (simp add: zmod_zminus1_eq_if)
  have "0 < q" "q < 3" using assms(1-4) by (simp_all add: p)
  then consider "q = 1" | "q = 2" by linarith
  then show ?thesis
  proof cases
    case 1
    then show ?thesis using assms(2-5) unfolding m V_def by (simp add: p)
  next
    case 2
    then show ?thesis using assms(1,3-5) unfolding m V_def by (simp add: p)
  qed
qed

lemma felem_neg_gen:
  assumes "reduced c"
  shows "red (felem_neg c) (- fval c)"
    and "fval c < prime_p \<Longrightarrow> fval c \<le> prime_p - 514 \<or> prime_p - 257 < fval c
      \<Longrightarrow> canonical (felem_neg c) \<and> fval (felem_neg c) = (- fval c) mod prime_p"
proof -
  obtain i0 i1 i2 where c: "c = (i0, i1, i2)" by (cases c) auto
  with assms have i: "uint i0 < 2 ^ 56" "uint i1 < 2 ^ 56" "uint i2 \<le> 2 ^ 56" by simp_all
  define K L :: u64 where "K = push_bit 56 3 - 771" and "L = push_bit 56 3 - 3"
  have KL: "uint K = 3 * 2 ^ 56 - 771" "uint L = 3 * 2 ^ 56 - 3"
    by (simp_all add: K_def L_def)
  have two_lt: "(4 :: int) < 2 ^ 56" by simp
  define a0 a1 where "a0 = K - i0" and "a1 = L - i1 + drop_bit 56 a0"
  define t0 t1 t2 where "t0 = a0 AND two56m1" and "t1 = a1 AND two56m1"
    and "t2 = L - i2 + drop_bit 56 a1"
  have out: "felem_neg c = felem_contract (t0, t1, t2)"
    by (simp only: felem_neg_def c prod.case Let_def t0_def t1_def t2_def a1_def a0_def K_def L_def)
  have A0: "uint a0 = 3 * 2 ^ 56 - 771 - uint i0"
    using i(1) unfolding a0_def by (subst uint_sub_nowrap) (simp_all add: KL)
  then have "uint a0 < 4 * 2 ^ 56"
    using uint_ge_0 [of i0] zero_less_power [of "2 :: int" 56] by linarith
  note q0 = div56_less [OF this] split56(4) [of a0]
  have A1: "uint a1 = 3 * 2 ^ 56 - 3 - uint i1 + uint a0 div 2 ^ 56"
    using q0 i(2) unfolding a1_def by (subst uint_sub_add_nowrap) (simp_all add: KL uint_drop_bit)
  then have "uint a1 < 4 * 2 ^ 56"
    using uint_ge_0 [of i1] q0(1) two_lt by linarith
  note q1 = div56_less [OF this] split56(4) [of a1]
  have T2: "uint t2 = 3 * 2 ^ 56 - 3 - uint i2 + uint a1 div 2 ^ 56"
    using q1 i(3) unfolding t2_def by (subst uint_sub_add_nowrap) (simp_all add: KL uint_drop_bit)
  have T: "uint t0 = uint a0 mod 2 ^ 56" "uint t1 = uint a1 mod 2 ^ 56"
    by (simp_all add: t0_def t1_def uint_and_two56m1_64)
  have "uint t2 < 4 * 2 ^ 56"
    using T2 q1 uint_ge_0 [of i2] two_lt by linarith
  then have t: "uint t0 < 2 ^ 56" "uint t1 < 2 ^ 56" "uint t2 < 2 ^ 60"
    by (simp_all add: T)
  have val: "fval (t0, t1, t2) = 3 * prime_p - fval c"
    unfolding c fval.simps T T2 prime_p_def
    by (rule neg_value_arith [where ?q0.0 = "uint a0 div 2 ^ 56"]) (use split56(1) [of a0] split56(1) [of a1] A0 A1 in linarith)+
  define q where "q = uint t2 div 2 ^ 56"
  define V where "V = 3 * prime_p - fval c - prime_p * q"
  have f: "fval (felem_neg c) = (if prime_p \<le> V \<and> V < 2 ^ 168 then V - prime_p else V)"
    using felem_contract_gen(2) [OF t] by (simp only: out V_def q_def val)
  have "fval (felem_neg c) = - fval c + prime_p * (if prime_p \<le> V \<and> V < 2 ^ 168 then 2 - q else 3 - q)"
    unfolding f by (simp add: V_def algebra_simps)
  then have "eqm prime_p (fval (felem_neg c)) (- fval c)"
    by (simp only: eqm_add_multiple)
  then show "red (felem_neg c) (- fval c)"
    using felem_contract_gen(1) [OF t] by (simp add: red_def out)
  assume x: "fval c < prime_p" "fval c \<le> prime_p - 514 \<or> prime_p - 257 < fval c"
  have lo: "q * 2 ^ 168 \<le> fval (t0, t1, t2)" and hi: "fval (t0, t1, t2) < q * 2 ^ 168 + 2 ^ 168"
    unfolding fval.simps q_def
    by (rule top_arith [OF split56(1-3) uint_ge_0 t(1) uint_ge_0 t(2)])+
  have nn: "0 \<le> fval c" by (simp add: c)
  note V = neg_arith [OF lo [unfolded val] hi [unfolded val] nn x, folded V_def]
  show "canonical (felem_neg c) \<and> fval (felem_neg c) = (- fval c) mod prime_p"
  proof
    show "canonical (felem_neg c)"
      unfolding out
      by (rule felem_contract_gen(3) [OF t]) (use V in \<open>simp only: V_def q_def val\<close>)
    show "fval (felem_neg c) = (- fval c) mod prime_p"
      using V by (simp add: f)
  qed
qed

text \<open>The zero test answers exactly whether a partially reduced element is a multiple of \<open>p\<close>.\<close>

lemma fval_reduced_bounds:
  assumes "reduced c"
  shows "0 \<le> fval c" "fval c < 2 * prime_p"
  using assms uint_ge_0 by (cases c; simp add: prime_p_def)+

lemma limb_inj:
  fixes a b x y N :: int
  assumes "0 \<le> a" "a < N" "0 \<le> b" "b < N" "a + N * x = b + N * y"
  shows "a = b" "x = y"
proof -
  have "(a + N * x) mod N = a" "(b + N * y) mod N = b"
    using assms(1-4) by simp_all
  then show "a = b" using assms(5) by metis
  then show "x = y" using assms by simp
qed

lemma fval_inj:
  assumes "uint a0 < 2 ^ 56" "uint a1 < 2 ^ 56" "uint b0 < 2 ^ 56" "uint b1 < 2 ^ 56"
    and "fval (a0, a1, a2) = fval (b0, b1, b2)"
  shows "(a0, a1, a2) = (b0, b1, b2)"
proof -
  have "uint a0 + 2 ^ 56 * (uint a1 + 2 ^ 56 * uint a2) =
      uint b0 + 2 ^ 56 * (uint b1 + 2 ^ 56 * uint b2)"
    using assms(5) by simp
  note limb_inj [OF uint_ge_0 assms(1) uint_ge_0 assms(3) this]
  moreover from limb_inj [OF uint_ge_0 assms(2) uint_ge_0 assms(4) this(2)]
  have "uint a1 = uint b1" "uint a2 = uint b2" .
  ultimately show ?thesis by (simp add: word_uint_eq_iff)
qed

lemma felem_is_zero_reduced:
  assumes "reduced c"
  shows "felem_is_zero c = of_bool (prime_p dvd fval c)"
proof -
  obtain i0 i1 i2 where c: "c = (i0, i1, i2)" by (cases c) auto
  with assms have i: "uint i0 < 2 ^ 56" "uint i1 < 2 ^ 56" "uint i2 \<le> 2 ^ 56" by simp_all
  define Z where "Z \<longleftrightarrow> c = (0, 0, 0)"
  define P where "P \<longleftrightarrow> c = (push_bit 56 1 - 257, two56m1, two56m1)"
  define D where "D \<longleftrightarrow> c = (push_bit 56 1 - 514, two56m1, push_bit 57 1 - 1)"
  have "felem_is_zero c = of_bool (Z \<or> P \<or> D)"
    unfolding felem_is_zero_def Z_def P_def D_def c
    by (simp only: prod.case Let_def of_bool_and of_bool_or prod.inject)
       (auto simp: of_bool_def)
  moreover have "\<not> D"
    using i(3) by (auto simp: D_def c)
  moreover have "Z \<longleftrightarrow> fval c = 0"
    using fval_inj [of i0 i1 0 0 i2 0] i by (auto simp: Z_def c)
  moreover have "P \<longleftrightarrow> fval c = prime_p"
    using fval_inj [of i0 i1 "push_bit 56 1 - 257" two56m1 i2 two56m1] i
    by (auto simp: P_def c two56m1_def prime_p_def)
  moreover have "prime_p dvd fval c \<longleftrightarrow> fval c = 0 \<or> fval c = prime_p"
  proof
    assume "prime_p dvd fval c"
    then obtain k where k: "fval c = prime_p * k" ..
    with fval_reduced_bounds [OF assms] have "0 \<le> k" "k < 2"
      by (simp_all add: prime_p_def)
    then have "k = 0 \<or> k = 1" by linarith
    with k show "fval c = 0 \<or> fval c = prime_p" by auto
  qed auto
  ultimately show ?thesis by simp
qed

section \<open>Bytes\<close>

lemma limb_bytes:
  assumes "uint (w :: u64) < 2 ^ 56"
  shows "le_val (map (\<lambda>i. ucast (drop_bit (8 * i) w)) [0..<7]) = uint w"
proof -
  have "map (\<lambda>i. ucast (drop_bit (8 * i) w)) [0..<7] = le_bytes 7 w"
    by (simp add: upt_rec numeral_eq_Suc)
  then show ?thesis
    using assms by (simp add: le_val_le_bytes)
qed

lemma mask56_and: "(x :: u64) AND 0x00ffffffffffffff = x AND two56m1"
  by (simp add: two56m1_def)

lemma limb_read:
  assumes "length xs = 7"
  shows "le_word (take 8 (xs @ y # ys)) AND 0x00ffffffffffffff = (le_word xs :: u64)"
proof (rule word_uint_eqI)
  have "take 8 (xs @ y # ys) = xs @ [y]"
    using assms by simp
  moreover have "le_val xs < 2 ^ 56"
    using le_val_bound [of xs] assms by simp
  moreover have "uint (le_word (xs @ [y]) :: u64) = le_val xs + 2 ^ 56 * uint y"
    using assms by (simp add: uint_le_word le_val_append)
  ultimately show "uint (le_word (take 8 (xs @ y # ys)) AND 0x00ffffffffffffff :: u64) = uint (le_word xs :: u64)"
    using assms by (simp add: mask56_and uint_and_two56m1_64 uint_le_word)
qed

lemma bin21_split:
  assumes "length i = 21"
  obtains a b c where "i = a @ b @ c" "length a = 7" "length b = 7" "length c = 7"
  using assms that [of "take 7 i" "take 7 (drop 7 i)" "drop 14 i"]
  by (simp add: append_assoc [symmetric] take_add [symmetric] del: append_assoc)

lemma bin21_to_felem_split:
  assumes "length a = 7" "length b = 7" "length c = 7"
  shows "bin21_to_felem past (a @ b @ c) = (le_word a, le_word b, le_word c)"
proof -
  obtain y ys where b: "b = y # ys" using assms(2) by (cases b) auto
  obtain z zs where c: "c = z # zs" using assms(3) by (cases c) auto
  have d: "drop 7 (a @ b @ c @ [past]) = b @ c @ [past]" "drop 14 (a @ b @ c @ [past]) = c @ [past]"
    using assms by simp_all
  have "le_word (take 8 (a @ b @ c @ [past])) AND 0x00ffffffffffffff = (le_word a :: u64)"
    using limb_read [OF assms(1), of y "ys @ c @ [past]"] by (simp add: b)
  moreover have "le_word (take 8 (b @ c @ [past])) AND 0x00ffffffffffffff = (le_word b :: u64)"
    using limb_read [OF assms(2), of z "zs @ [past]"] by (simp add: c)
  moreover have "le_word (take 8 (c @ [past])) AND 0x00ffffffffffffff = (le_word c :: u64)"
    by (rule limb_read [OF assms(3)])
  ultimately show ?thesis
    unfolding bin21_to_felem_def Let_def append_assoc d by simp
qed

lemma le_word_limb: "length a = 7 \<Longrightarrow> uint (le_word a :: u64) = le_val a"
  by (simp add: uint_le_word)

lemma fval_bin21_to_felem:
  assumes "length i = 21"
  shows "fval (bin21_to_felem past i) = le_val i" and "reduced (bin21_to_felem past i)"
proof -
  obtain a b c where i: "i = a @ b @ c" and l: "length a = 7" "length b = 7" "length c = 7"
    using assms by (rule bin21_split)
  have "le_val x < 2 ^ 56" if "length x = 7" for x
    using le_val_bound [of x] that by simp
  with l show "reduced (bin21_to_felem past i)"
    by (auto simp: i bin21_to_felem_split le_word_limb less_imp_le)
  show "fval (bin21_to_felem past i) = le_val i"
    using l by (simp add: i bin21_to_felem_split le_word_limb le_val_append)
qed

lemma le_val_felem_to_bin21:
  assumes "uint a0 < 2 ^ 56" "uint a1 < 2 ^ 56" "uint a2 < 2 ^ 56"
  shows "le_val (felem_to_bin21 (a0, a1, a2)) = fval (a0, a1, a2)"
  using assms unfolding felem_to_bin21.simps le_val_append
  by (simp only: limb_bytes) (simp add: algebra_simps)

lemma length_felem_to_bin21 [simp]: "length (felem_to_bin21 c) = 21"
  by (cases c) simp

lemma le_val_canonical: "canonical c \<Longrightarrow> le_val (felem_to_bin21 c) = fval c"
  by (cases c) (simp only: canonical_def prod.case le_val_felem_to_bin21)

lemma copy_conditional_of_bool:
  "copy_conditional a b (of_bool P) = (if P then b else a)"
proof -
  have "a XOR (- 1 AND (b XOR a)) = b" for a b :: u64
    by (simp add: xor.commute xor.left_commute)
  then show ?thesis
    by (cases a; cases b; cases P) (simp_all add: Let_def)
qed

section \<open>Inversion and square root\<close>

lemma felem_mul_red_rep [rep]:
  assumes "rep64 (2 ^ 57) a u" "rep64 (2 ^ 57) b v"
  shows "red (felem_mul_red a b) (u * v)"
  unfolding felem_mul_red_def
  by (rule felem_reduce_rep [OF felem_mul_rep [OF assms]]) simp_all

lemma felem_sqr_red_rep [rep]:
  assumes "rep64 (2 ^ 57) a u"
  shows "red (felem_sqr_red a) (u * u)"
  using felem_mul_red_rep [OF assms assms]
  by (simp only: felem_sqr_red_def felem_mul_red_def felem_square_mul)

text \<open>\<open>pow c x n\<close> says that \<open>c\<close> is the partially reduced \<open>n\<close>-th power of \<open>x\<close>, \<open>pow57\<close> the same with
  limbs up to \<open>2^57\<close>. The two chains of squarings and multiplications are followed exponent by
  exponent.\<close>

lemma pow_pow57: "pow c x n \<Longrightarrow> pow57 c x n"
  unfolding pow_def pow57_def by (drule red_rep64) (erule rep64_mono, simp)

lemma pow_mul: "pow57 a x m \<Longrightarrow> pow57 b x n \<Longrightarrow> pow (felem_mul_red a b) x (m + n)"
  unfolding pow_def pow57_def by (drule (1) felem_mul_red_rep) (simp only: power_add)

lemma pow_sqr: "pow57 a x m \<Longrightarrow> pow (felem_sqr_red a) x (2 * m)"
  unfolding pow_def pow57_def by (drule felem_sqr_red_rep) (simp only: power_add mult_2)

lemma pow_sqrs: "pow a x m \<Longrightarrow> pow ((felem_sqr_red ^^ k) a) x (2 ^ k * m)"
proof (induction k)
  case (Suc k)
  from pow_sqr [OF pow_pow57 [OF Suc.IH [OF Suc.prems]]] show ?case by (simp add: mult.assoc)
qed simp

lemma pow_cong: "pow a x m \<Longrightarrow> m = n \<Longrightarrow> pow a x n" by simp

lemma pow_Let: "pow a x m \<Longrightarrow> (\<And>y. pow y x m \<Longrightarrow> pow (f y) x n) \<Longrightarrow> pow (Let a f) x n"
  by simp

lemmas pow_rules = pow_Let pow_mul pow_sqr pow_sqrs

lemma felem_inv_pow:
  assumes "rep64 (2 ^ 57) i x"
  shows "red (felem_inv i) (x ^ (2 ^ 168 - 2 ^ 8 - 3))"
proof -
  have "pow57 i x 1" using assms by (simp add: pow57_def)
  then have "pow (felem_inv i) x (2 ^ 168 - 2 ^ 8 - 3)"
    unfolding felem_inv_def
    by - (rule pow_cong, (rule pow_rules | assumption | rule pow_pow57, assumption)+, simp)
  then show ?thesis by (simp only: pow_def)
qed

lemma felem_sqrt_pow:
  assumes "rep64 (2 ^ 57) i x"
  shows "red (felem_sqrt i) (x ^ (2 ^ 166 - 2 ^ 6))"
proof -
  have "pow57 i x 1" using assms by (simp add: pow57_def)
  then have "pow (felem_sqrt i) x (2 ^ 166 - 2 ^ 6)"
    unfolding felem_sqrt_def
    by - (rule pow_cong, (rule pow_rules | assumption | rule pow_pow57, assumption)+, simp)
  then show ?thesis by (simp only: pow_def)
qed

section \<open>Properties of the field layer\<close>

text \<open>C16: on partially reduced operands, multiplication followed by reduction is multiplication modulo
  \<open>p\<close>, no 128-bit limb wraps around on the way, and the result is partially reduced again.\<close>

theorem felem_mul_reduce:
  assumes "reduced a" "reduced b"
  shows "reduced (felem_reduce (felem_mul a b)) \<and>
    fval (felem_reduce (felem_mul a b)) mod prime_p = (fval a * fval b) mod prime_p"
proof -
  have "rep64 (2 ^ 57) c (fval c)" if "reduced c" for c
    using rep64_mono [OF red_rep64 [OF red_self [OF that]]] by simp
  from felem_mul_red_rep [OF this [OF assms(1)] this [OF assms(2)]]
  show ?thesis by (simp add: red_def eqm_def felem_mul_red_def)
qed

theorem felem_mul_reduce_witness:
  "fval (felem_reduce (felem_mul (0xffffffffffffff, 5, 2 ^ 56) (7, 0, 0xffffffffffffff))) mod prime_p =
     (fval (0xffffffffffffff, 5, 2 ^ 56) * fval (7, 0, 0xffffffffffffff)) mod prime_p"
  using felem_mul_reduce [of "(0xffffffffffffff, 5, 2 ^ 56)" "(7, 0, 0xffffffffffffff)"] by simp

text \<open>\<open>felem_reduce\<close> accepts every product with limbs below \<open>2^126\<close>, the bound its comment states:
  the result is partially reduced and congruent to the product.\<close>

lemma felem_reduce_bound:
  assumes "wlimbs_le (2 ^ 126 - 1) w"
  shows "reduced (felem_reduce w) \<and> fval (felem_reduce w) mod prime_p = wval w mod prime_p"
proof -
  have "rep128 (2 ^ 126 - 1) w (wval w)" using assms by (simp add: rep128_def)
  from felem_reduce_rep [OF this] show ?thesis by (simp add: red_def eqm_def)
qed

text \<open>C27: \<open>felem_contract\<close> turns a partially reduced element into the representative below \<open>p\<close>.\<close>

theorem felem_contract_correct:
  assumes "reduced c"
  shows "canonical (felem_contract c) \<and> fval (felem_contract c) = fval c mod prime_p"
  using felem_contract_canonical [OF assms] by blast

theorem felem_contract_correct_witness:
  "fval (felem_contract (0xffffffffffffff, 0xffffffffffffff, 2 ^ 56)) =
     fval (0xffffffffffffff, 0xffffffffffffff, 2 ^ 56) mod prime_p"
  using felem_contract_correct [of "(0xffffffffffffff, 0xffffffffffffff, 2 ^ 56)"] by simp

text \<open>\<open>felem_is_zero\<close> is 1 exactly on the multiples of \<open>p\<close>, for every partially reduced element.\<close>

lemma felem_is_zero_correct:
  assumes "reduced c"
  shows "felem_is_zero c = (if prime_p dvd fval c then 1 else 0)"
  using felem_is_zero_reduced [OF assms] by simp

text \<open>Reading 21 bytes and writing them back is the identity, whatever the byte behind the array
  that \<open>bin21_to_felem\<close> also reads.\<close>

lemma bin21_roundtrip:
  assumes "length i = 21"
  shows "felem_to_bin21 (bin21_to_felem past i) = i"
proof (rule le_val_inj)
  obtain a b c where i: "i = a @ b @ c" and l: "length a = 7" "length b = 7" "length c = 7"
    using assms by (rule bin21_split)
  have lt: "uint (le_word x :: u64) < 2 ^ 56" if "length x = 7" for x
    using le_val_bound [of x] that by (simp add: le_word_limb)
  have "le_val (felem_to_bin21 (bin21_to_felem past i)) = fval (bin21_to_felem past i)"
    unfolding i bin21_to_felem_split [OF l] using l by (intro le_val_felem_to_bin21 lt)
  then show "le_val (felem_to_bin21 (bin21_to_felem past i)) = le_val i"
    by (simp add: fval_bin21_to_felem(1) [OF assms])
qed (simp add: assms)

text \<open>For the element \<open>p - 257\<close>, \<open>felem_neg\<close> returns limbs outside the range of \<open>felem_to_bin21\<close>: the
  residue is the right one, \<open>257\<close>, but it is represented by \<open>2^168\<close>, and the bytes written are all
  zero.\<close>

lemma felem_neg_not_canonical:
  "let c = (2 ^ 56 - 514, 2 ^ 56 - 1, 2 ^ 56 - 1)
   in fval c = prime_p - 257 \<and> fval (felem_neg c) = 2 ^ 168 \<and>
      le_val (felem_to_bin21 (felem_neg c)) = 0"
  by code_simp

end
