(* ===== verification/Curve.thy ===== *)
theory Curve
  imports Felem_Props
begin

text \<open>
  Point arithmetic of \<open>src/telex-station/station/tag/ptwist168.c\<close>, lines 625 to 936 and 1589 to
  1672: doubling and addition in Jacobian coordinates on \<open>y^2 = x^3 - 3 x + b\<close>, conversion to
  affine coordinates, windowed scalar multiplication, and \<open>ptwist_pointmul\<close>, which works on the
  curve or on its twist as the abscissa it is given demands.
\<close>

section \<open>Definitions\<close>

type_synonym point = "coord \<times> coord \<times> coord"

definition point_double :: "point \<Rightarrow> point" where
  "point_double P = (case P of (x_in, y_in, z_in) \<Rightarrow>
     (let ftmp = x_in;
          ftmp2 = x_in;
          \<comment> \<open>delta = z^2\<close>
          delta = felem_reduce (felem_square z_in);
          \<comment> \<open>gamma = y^2\<close>
          gamma = felem_reduce (felem_square y_in);
          \<comment> \<open>beta = x*gamma\<close>
          beta = felem_reduce (felem_mul x_in gamma);
          \<comment> \<open>alpha = 3*(x-delta)*(x+delta)\<close>
          ftmp = felem_diff64 ftmp delta;
          ftmp2 = felem_sum64 ftmp2 delta;
          ftmp2 = felem_scalar64 ftmp2 3;
          alpha = felem_reduce (felem_mul ftmp ftmp2);
          \<comment> \<open>x' = alpha^2 - 8*beta\<close>
          tmp = felem_square alpha;
          ftmp = felem_scalar64 beta 8;
          tmp = felem_diff_128_64 tmp ftmp;
          x_out = felem_reduce tmp;
          \<comment> \<open>z' = (y + z)^2 - gamma - delta\<close>
          delta = felem_sum64 delta gamma;
          ftmp = felem_sum64 y_in z_in;
          tmp = felem_square ftmp;
          tmp = felem_diff_128_64 tmp delta;
          z_out = felem_reduce tmp;
          \<comment> \<open>y' = alpha*(4*beta - x') - 8*gamma^2\<close>
          beta = felem_scalar64 beta 4;
          beta = felem_diff64 beta x_out;
          tmp = felem_mul alpha beta;
          tmp2 = felem_square gamma;
          tmp2 = felem_scalar128 tmp2 8;
          tmp = felem_diff128 tmp tmp2;
          y_out = felem_reduce tmp
      in (x_out, y_out, z_out)))"

text \<open>\<open>point_add\<close> writes its result through \<open>x3\<close>, \<open>y3\<close>, \<open>z3\<close> before the final conditional copies
  read point 1 again. \<open>inplace\<close> says that the output is stored over point 1, as in every call that
  \<open>point_mul\<close> makes in its main loop: the copies from point 1 then read the output itself.\<close>

definition point_add :: "bool \<Rightarrow> point \<Rightarrow> point \<Rightarrow> point" where
  "point_add inplace P1 P2 = (case P1 of (x1, y1, z1) \<Rightarrow> case P2 of (x2, y2, z2) \<Rightarrow>
     (let ftmp = felem_reduce (felem_square z1);
          ftmp2 = felem_reduce (felem_square z2);
          ftmp3 = felem_reduce (felem_mul ftmp z1);
          ftmp4 = felem_reduce (felem_mul ftmp2 z2);
          \<comment> \<open>ftmp3 = z1^3*y2 - z2^3*y1\<close>
          tmp = felem_mul ftmp3 y2;
          tmp2 = felem_mul ftmp4 y1;
          ftmp4 = felem_reduce tmp2;
          tmp = felem_diff_128_64 tmp ftmp4;
          ftmp3 = felem_reduce tmp;
          \<comment> \<open>ftmp = z1^2*x2 - z2^2*x1\<close>
          tmp = felem_mul ftmp x2;
          tmp2 = felem_mul ftmp2 x1;
          ftmp2 = felem_reduce tmp2;
          tmp = felem_diff128 tmp tmp2;
          ftmp = felem_reduce tmp;
          x_equal = felem_is_zero ftmp;
          y_equal = felem_is_zero ftmp3;
          z1_is_zero = felem_is_zero z1;
          z2_is_zero = felem_is_zero z2
      in if x_equal \<noteq> 0 \<and> y_equal \<noteq> 0 \<and> \<not> z1_is_zero \<noteq> 0 \<and> \<not> z2_is_zero \<noteq> 0
         then point_double (x1, y1, z1)
         else
           (let ftmp5 = felem_reduce (felem_mul z1 z2);
                \<comment> \<open>z3 = (z1^2*x2 - z2^2*x1)*(z1*z2)\<close>
                z3 = felem_reduce (felem_mul ftmp ftmp5);
                \<comment> \<open>ftmp = (z1^2*x2 - z2^2*x1)^2\<close>
                ftmp5 = ftmp;
                ftmp = felem_reduce (felem_square ftmp);
                ftmp5 = felem_reduce (felem_mul ftmp ftmp5);
                ftmp2 = felem_reduce (felem_mul ftmp2 ftmp);
                tmp = felem_mul ftmp4 ftmp5;
                tmp2 = felem_square ftmp3;
                tmp2 = felem_diff_128_64 tmp2 ftmp5;
                ftmp5 = felem_scalar64 ftmp2 2;
                tmp2 = felem_diff_128_64 tmp2 ftmp5;
                x3 = felem_reduce tmp2;
                ftmp2 = felem_diff64 ftmp2 x3;
                tmp2 = felem_mul ftmp3 ftmp2;
                tmp2 = felem_diff128 tmp2 tmp;
                y3 = felem_reduce tmp2;
                x3 = copy_conditional x3 x2 z1_is_zero;
                x3 = copy_conditional x3 (if inplace then x3 else x1) z2_is_zero;
                y3 = copy_conditional y3 y2 z1_is_zero;
                y3 = copy_conditional y3 (if inplace then y3 else y1) z2_is_zero;
                z3 = copy_conditional z3 z2 z1_is_zero;
                z3 = copy_conditional z3 (if inplace then z3 else z1) z2_is_zero
            in (x3, y3, z3))))"

definition affine :: "point \<Rightarrow> point" where
  "affine P = (case P of (x, y, z) \<Rightarrow>
     if felem_is_zero z \<noteq> 0 then P
     else
       (let z2 = felem_inv z;
            z1 = felem_reduce (felem_square z2);
            xin = felem_reduce (felem_mul x z1);
            x = felem_contract xin;
            z1 = felem_reduce (felem_mul z1 z2);
            yin = felem_reduce (felem_mul y z1);
            y = felem_contract yin
        in (x, y, (1, 0, 0))))"

text \<open>\<open>affine_x\<close> leaves \<open>out\<close> as it is on the point at infinity.\<close>

definition affine_x :: "coord \<Rightarrow> point \<Rightarrow> coord" where
  "affine_x out P = (case P of (x, y, z) \<Rightarrow>
     if felem_is_zero z \<noteq> 0 then out
     else
       (let z2 = felem_inv z;
            z1 = felem_reduce (felem_square z2);
            xin = felem_reduce (felem_mul x z1)
        in felem_contract xin))"

definition zero_point :: point where
  "zero_point = ((0, 0, 0), (0, 0, 0), (0, 0, 0))"

text \<open>The table of the sixteen multiples, filled two entries at a time.\<close>

definition point_table :: "point \<Rightarrow> point list" where
  "point_table P =
     foldl (\<lambda>table i.
         (let d = point_double (table ! (i div 2))
          in table @ [d, point_add False d P]))
       [zero_point, P] [2, 4, 6, 8, 10, 12, 14]"

definition point_mul_nibble :: "point list \<Rightarrow> point \<Rightarrow> byte \<Rightarrow> point" where
  "point_mul_nibble table tmp nib =
     (let tmp = point_double tmp;
          tmp = point_double tmp;
          tmp = point_double tmp;
          tmp = point_double tmp
      in if nib \<noteq> 0 then point_add True tmp (table ! unat nib) else tmp)"

definition point_mul :: "point \<Rightarrow> bytes \<Rightarrow> point" where
  "point_mul P s =
     (let table = point_table P
      in foldl (\<lambda>tmp i.
           (let oh = drop_bit 4 (s ! (20 - i));
                ol = s ! (20 - i) AND 0x0f;
                tmp = point_mul_nibble table tmp oh
            in point_mul_nibble table tmp ol))
         zero_point [0..<21])"

text \<open>\<open>past\<close> is the byte after the array \<open>x\<close>, \<open>Qx0\<close> the uninitialised local \<open>Qx\<close>.\<close>

definition curve_b :: coord where
  "curve_b = (0x46d320e01dc7d6, 0x486ebc69bad316, 0x4e355e95cafedd)"

definition ptwist_rhs :: "coord \<Rightarrow> coord" where
  "ptwist_rhs x =
     (let z = felem_reduce (felem_square x);
          z = felem_diff64 z (3, 0, 0);
          z = felem_reduce (felem_mul z x)
      in felem_sum64 z curve_b)"

definition ptwist_lift :: "coord \<Rightarrow> point \<times> bool" where
  "ptwist_lift x =
     (let z = ptwist_rhs x;
          y = felem_sqrt z;
          r2 = felem_reduce (felem_diff_128_64 (felem_square y) z)
      in if felem_is_zero r2 \<noteq> 0 then ((x, y, (1, 0, 0)), False)
         else ((felem_neg x, y, (1, 0, 0)), True))"

definition ptwist_pointmul :: "byte \<Rightarrow> coord \<Rightarrow> bytes \<Rightarrow> bytes \<Rightarrow> bytes" where
  "ptwist_pointmul past Qx0 x seckey =
     (let (P, ontwist) = ptwist_lift (bin21_to_felem past x);
          Q = point_mul P seckey;
          Qx = affine_x Qx0 Q;
          Qx = (if ontwist then felem_neg Qx else Qx)
      in felem_to_bin21 Qx)"

section \<open>Doubling and addition as formulas modulo p\<close>

lemma scalar64:
  assumes "rep64 A a u" "uint w = k" "A * k < 2 ^ 64"
  shows "rep64 (A * k) (felem_scalar64 a w) (k * u)"
  using felem_scalar64_rep [OF assms(1), of w] assms(2,3) by simp

lemma scalar128:
  assumes "rep128 A a u" "uint w = k" "A * k < 2 ^ 128"
  shows "rep128 (A * k) (felem_scalar128 a w) (k * u)"
  using felem_scalar128_rep [OF assms(1), of w] assms(2,3) by simp

lemma mul56:
  assumes "rep64 (2 ^ 56) a u" "rep64 (2 ^ 56) b v"
  shows "red (felem_reduce (felem_mul a b)) (u * v)"
  by (rule felem_reduce_rep [OF felem_mul_rep [OF assms]]) simp_all

lemma square56:
  assumes "rep64 (2 ^ 56) a u"
  shows "red (felem_reduce (felem_square a)) (u * u)"
  by (rule felem_reduce_rep [OF felem_square_rep [OF assms]]) simp_all

text \<open>The Jacobian formulas the two functions compute.\<close>

fun jdouble :: "int \<times> int \<times> int \<Rightarrow> int \<times> int \<times> int" where
  "jdouble (X, Y, Z) =
     (let a = 3 * (X - Z\<^sup>2) * (X + Z\<^sup>2);
          b = X * Y\<^sup>2;
          X' = a\<^sup>2 - 8 * b
      in (X', a * (4 * b - X') - 8 * Y ^ 4, 2 * Y * Z))"

fun jadd :: "int \<times> int \<times> int \<Rightarrow> int \<times> int \<times> int \<Rightarrow> int \<times> int \<times> int" where
  "jadd (X1, Y1, Z1) (X2, Y2, Z2) =
     (let R = Z1 ^ 3 * Y2 - Z2 ^ 3 * Y1;
          H = Z1\<^sup>2 * X2 - Z2\<^sup>2 * X1;
          U = Z2\<^sup>2 * X1;
          S = Z2 ^ 3 * Y1;
          X3 = R\<^sup>2 - H ^ 3 - 2 * (U * H\<^sup>2)
      in (X3, R * (U * H\<^sup>2 - X3) - S * H ^ 3, H * (Z1 * Z2)))"

fun redp :: "point \<Rightarrow> int \<times> int \<times> int \<Rightarrow> bool" where
  "redp (x, y, z) (X, Y, Z) \<longleftrightarrow> red x X \<and> red y Y \<and> red z Z"

fun pval :: "point \<Rightarrow> int \<times> int \<times> int" where
  "pval (x, y, z) = (fval x, fval y, fval z)"

lemma point_double_rep:
  assumes "redp P V"
  shows "redp (point_double P) (jdouble V)"
proof -
  obtain x y z X Y Z where P: "P = (x, y, z)" and V: "V = (X, Y, Z)" by (cases P, cases V) auto
  with assms have x: "red x X" and y: "red y Y" and z: "red z Z" by simp_all
  note rr = red_rep64
  define delta gamma where "delta = felem_reduce (felem_square z)" and "gamma = felem_reduce (felem_square y)"
  have delta: "red delta (Z * Z)" and gamma: "red gamma (Y * Y)"
    unfolding delta_def gamma_def by (intro square56 rr z y)+
  define beta where "beta = felem_reduce (felem_mul x gamma)"
  have beta: "red beta (X * (Y * Y))"
    unfolding beta_def by (intro mul56 rr x gamma)
  define alpha where "alpha = felem_reduce (felem_mul (felem_diff64 x delta) (felem_scalar64 (felem_sum64 x delta) 3))"
  note s = scalar64 [OF felem_sum64_rep [OF rr [OF x] rr [OF delta]], of 3 3]
  have alpha: "red alpha ((X - Z * Z) * (3 * (X + Z * Z)))"
    unfolding alpha_def
    by (rule felem_reduce_rep [OF felem_mul_rep [OF felem_diff64_rep [OF rr [OF x] rr [OF delta]] s]]) simp_all
  define x_out where "x_out = felem_reduce (felem_diff_128_64 (felem_square alpha) (felem_scalar64 beta 8))"
  define A B where "A = (X - Z * Z) * (3 * (X + Z * Z))" and "B = X * (Y * Y)"
  have x_out: "red x_out (A * A - 8 * B)"
    unfolding x_out_def A_def B_def
    by (rule felem_reduce_rep [OF felem_diff_128_64_rep [OF felem_square_rep [OF rr [OF alpha]]
          scalar64 [OF rr [OF beta], of 8 8]]]) simp_all
  define z_out where "z_out = felem_reduce (felem_diff_128_64 (felem_square (felem_sum64 y z)) (felem_sum64 delta gamma))"
  have z_out: "red z_out ((Y + Z) * (Y + Z) - (Z * Z + Y * Y))"
    unfolding z_out_def
    by (rule felem_reduce_rep [OF felem_diff_128_64_rep [OF felem_square_rep [OF
          felem_sum64_rep [OF rr [OF y] rr [OF z]]] felem_sum64_rep [OF rr [OF delta] rr [OF gamma]]]]) simp_all
  define y_out where "y_out = felem_reduce (felem_diff128 (felem_mul alpha (felem_diff64 (felem_scalar64 beta 4) x_out))
     (felem_scalar128 (felem_square gamma) 8))"
  have y_out: "red y_out (A * (4 * B - (A * A - 8 * B)) - 8 * (Y * Y * (Y * Y)))"
    unfolding y_out_def
    by (rule felem_reduce_rep [OF felem_diff128_rep [OF felem_mul_rep [OF rr [OF alpha [folded A_def]]
          felem_diff64_rep [OF scalar64 [OF rr [OF beta [folded B_def]], of 4 4] rr [OF x_out]]]
          scalar128 [OF felem_square_rep [OF rr [OF gamma]], of 8 8]]]) simp_all
  have "point_double P = (x_out, y_out, z_out)"
    unfolding point_double_def P Let_def prod.case x_out_def y_out_def z_out_def alpha_def beta_def
      delta_def gamma_def ..
  moreover have "jdouble V = (A * A - 8 * B, A * (4 * B - (A * A - 8 * B)) - 8 * (Y * Y * (Y * Y)),
      (Y + Z) * (Y + Z) - (Z * Z + Y * Y))"
    by (simp add: V Let_def A_def B_def power2_eq_square numeral_eq_Suc algebra_simps)
  ultimately show ?thesis using x_out y_out z_out by simp
qed

text \<open>Addition before the case distinctions: the two differences tested for equality of the points,
  and the chord formula.\<close>

fun jH :: "int \<times> int \<times> int \<Rightarrow> int \<times> int \<times> int \<Rightarrow> int" where
  "jH (X1, Y1, Z1) (X2, Y2, Z2) = Z1\<^sup>2 * X2 - Z2\<^sup>2 * X1"

fun jR :: "int \<times> int \<times> int \<Rightarrow> int \<times> int \<times> int \<Rightarrow> int" where
  "jR (X1, Y1, Z1) (X2, Y2, Z2) = Z1 ^ 3 * Y2 - Z2 ^ 3 * Y1"

lemma point_add_raw:
  assumes "redp (x1, y1, z1) V1" "redp (x2, y2, z2) V2"
  obtains h r x3 y3 z3 where "red h (jH V1 V2)" "red r (jR V1 V2)" "redp (x3, y3, z3) (jadd V1 V2)"
    "point_add ip (x1, y1, z1) (x2, y2, z2) =
      (let z1z = felem_is_zero z1; z2z = felem_is_zero z2
       in if felem_is_zero h \<noteq> 0 \<and> felem_is_zero r \<noteq> 0 \<and> \<not> z1z \<noteq> 0 \<and> \<not> z2z \<noteq> 0
          then point_double (x1, y1, z1)
          else (let x3 = copy_conditional x3 x2 z1z; y3 = copy_conditional y3 y2 z1z;
                    z3 = copy_conditional z3 z2 z1z
                in (copy_conditional x3 (if ip then x3 else x1) z2z,
                    copy_conditional y3 (if ip then y3 else y1) z2z,
                    copy_conditional z3 (if ip then z3 else z1) z2z)))"
proof -
  obtain X1 Y1 Z1 X2 Y2 Z2 where V: "V1 = (X1, Y1, Z1)" "V2 = (X2, Y2, Z2)" by (cases V1, cases V2) auto
  note rr = red_rep64
  from assms have x1: "rep64 (2 ^ 56) x1 X1" and y1: "rep64 (2 ^ 56) y1 Y1" and z1: "rep64 (2 ^ 56) z1 Z1"
    and x2: "rep64 (2 ^ 56) x2 X2" and y2: "rep64 (2 ^ 56) y2 Y2" and z2: "rep64 (2 ^ 56) z2 Z2"
    unfolding V redp.simps by (blast intro: rr)+
  define f f2 where "f = felem_reduce (felem_square z1)" and "f2 = felem_reduce (felem_square z2)"
  have f: "rep64 (2 ^ 56) f (Z1 * Z1)" and f2: "rep64 (2 ^ 56) f2 (Z2 * Z2)"
    unfolding f_def f2_def by (intro rr square56 z1 z2)+
  define f3 f4 where "f3 = felem_reduce (felem_mul f z1)" and "f4 = felem_reduce (felem_mul f2 z2)"
  have f3: "rep64 (2 ^ 56) f3 (Z1 * Z1 * Z1)" and f4: "rep64 (2 ^ 56) f4 (Z2 * Z2 * Z2)"
    unfolding f3_def f4_def by (intro rr mul56 f f2 z1 z2)+
  define S U where "S = Z2 * Z2 * Z2 * Y1" and "U = Z2 * Z2 * X1"
  define s u where "s = felem_reduce (felem_mul f4 y1)" and "u = felem_reduce (felem_mul f2 x1)"
  have s: "rep64 (2 ^ 56) s S" and u: "rep64 (2 ^ 56) u U"
    unfolding s_def u_def S_def U_def
    by (intro rr mul56 f4 f2 y1 x1)+
  define R H where "R = Z1 * Z1 * Z1 * Y2 - S" and "H = Z1 * Z1 * X2 - U"
  define r h where "r = felem_reduce (felem_diff_128_64 (felem_mul f3 y2) s)"
    and "h = felem_reduce (felem_diff128 (felem_mul f x2) (felem_mul f2 x1))"
  have rR: "red r R"
    unfolding r_def R_def
    by (rule felem_reduce_rep [OF felem_diff_128_64_rep [OF felem_mul_rep [OF f3 y2] s]]) simp_all
  have hH: "red h H"
    unfolding h_def H_def U_def
    by (rule felem_reduce_rep [OF felem_diff128_rep [OF felem_mul_rep [OF f x2] felem_mul_rep [OF f2 x1]]]) simp_all
  note r = rr [OF rR] and h = rr [OF hH]
  define w h2 h3 v where "w = felem_reduce (felem_mul z1 z2)" and "h2 = felem_reduce (felem_square h)"
    and "h3 = felem_reduce (felem_mul h2 h)" and "v = felem_reduce (felem_mul u h2)"
  have w: "rep64 (2 ^ 56) w (Z1 * Z2)"
    unfolding w_def by (intro rr mul56 z1 z2)
  have h2: "rep64 (2 ^ 56) h2 (H * H)"
    unfolding h2_def by (intro rr square56 h)
  have h3: "rep64 (2 ^ 56) h3 (H * H * H)" and v: "rep64 (2 ^ 56) v (U * (H * H))"
    unfolding h3_def v_def by (intro rr mul56 h2 u h)+
  define z3 x3 y3 where "z3 = felem_reduce (felem_mul h w)"
    and "x3 = felem_reduce (felem_diff_128_64 (felem_diff_128_64 (felem_square r) h3) (felem_scalar64 v 2))"
    and "y3 = felem_reduce (felem_diff128 (felem_mul r (felem_diff64 v x3)) (felem_mul s h3))"
  have z3: "red z3 (H * (Z1 * Z2))"
    unfolding z3_def by (intro mul56 h w)
  define X3 where "X3 = R * R - H * H * H - 2 * (U * (H * H))"
  have x3: "red x3 X3"
    unfolding x3_def X3_def
    by (rule felem_reduce_rep [OF felem_diff_128_64_rep [OF felem_diff_128_64_rep [OF
          felem_square_rep [OF r] h3] scalar64 [OF v, of 2 2]]]) simp_all
  have y3: "red y3 (R * (U * (H * H) - X3) - S * (H * H * H))"
    unfolding y3_def
    by (rule felem_reduce_rep [OF felem_diff128_rep [OF felem_mul_rep [OF r felem_diff64_rep [OF v rr [OF x3]]]
          felem_mul_rep [OF s h3]]]) simp_all
  have HR: "jH V1 V2 = H" "jR V1 V2 = R"
    by (simp_all add: V H_def R_def U_def S_def power2_eq_square power3_eq_cube)
  have "jadd V1 V2 = (X3, R * (U * (H * H) - X3) - S * (H * H * H), H * (Z1 * Z2))"
    by (simp add: V Let_def X3_def R_def H_def U_def S_def power2_eq_square power3_eq_cube mult.assoc)
  then have "redp (x3, y3, z3) (jadd V1 V2)"
    using x3 y3 z3 by simp
  then show thesis
  proof (rule that [of h r x3 y3 z3, rotated 2])
    show "red h (jH V1 V2)" "red r (jR V1 V2)" using hH rR by (simp_all add: HR)
    show "point_add ip (x1, y1, z1) (x2, y2, z2) =
      (let z1z = felem_is_zero z1; z2z = felem_is_zero z2
       in if felem_is_zero h \<noteq> 0 \<and> felem_is_zero r \<noteq> 0 \<and> \<not> z1z \<noteq> 0 \<and> \<not> z2z \<noteq> 0
          then point_double (x1, y1, z1)
          else (let x3 = copy_conditional x3 x2 z1z; y3 = copy_conditional y3 y2 z1z;
                    z3 = copy_conditional z3 z2 z1z
                in (copy_conditional x3 (if ip then x3 else x1) z2z,
                    copy_conditional y3 (if ip then y3 else y1) z2z,
                    copy_conditional z3 (if ip then z3 else z1) z2z)))"
      unfolding point_add_def Let_def prod.case h_def r_def x3_def y3_def z3_def f_def f2_def f3_def
        f4_def s_def u_def w_def h2_def h3_def v_def ..
  qed
qed

fun jZ :: "int \<times> int \<times> int \<Rightarrow> int" where
  "jZ (X, Y, Z) = Z"

fun at_inf :: "point \<Rightarrow> bool" where
  "at_inf (x, y, z) \<longleftrightarrow> felem_is_zero z \<noteq> 0"

lemma red_reduced: "red c v \<Longrightarrow> reduced c"
  by (simp add: red_def)

lemma felem_is_zero_red: "red c v \<Longrightarrow> felem_is_zero c = of_bool (prime_p dvd v)"
  by (simp add: felem_is_zero_reduced red_reduced)
     (metis eqm_0_iff eqm_sym eqm_trans red_def)

lemma at_inf_iff: "redp P V \<Longrightarrow> at_inf P \<longleftrightarrow> prime_p dvd jZ V"
  by (cases P rule: at_inf.cases; cases V rule: jZ.cases) (use felem_is_zero_red in \<open>auto split: if_splits\<close>)

text \<open>Addition, case by case. When the output overwrites point 1 and point 2 is at infinity, the
  chord formula is left in place of point 1: its third coordinate is a multiple of \<open>p\<close>.\<close>

lemma point_add_cases:
  assumes "redp P1 V1" "redp P2 V2"
  shows "\<lbrakk>\<not> at_inf P1; \<not> at_inf P2; prime_p dvd jH V1 V2; prime_p dvd jR V1 V2\<rbrakk>
      \<Longrightarrow> point_add ip P1 P2 = point_double P1" (is "\<lbrakk>_; _; _; _\<rbrakk> \<Longrightarrow> ?dbl")
    and "\<lbrakk>\<not> at_inf P1; \<not> at_inf P2; \<not> (prime_p dvd jH V1 V2 \<and> prime_p dvd jR V1 V2)\<rbrakk>
      \<Longrightarrow> redp (point_add ip P1 P2) (jadd V1 V2)" (is "\<lbrakk>_; _; _\<rbrakk> \<Longrightarrow> ?chord")
    and "at_inf P1 \<Longrightarrow> \<not> at_inf P2 \<or> ip \<Longrightarrow> point_add ip P1 P2 = P2" (is "\<lbrakk>_; _\<rbrakk> \<Longrightarrow> ?two")
    and "at_inf P2 \<Longrightarrow> \<not> ip \<Longrightarrow> point_add ip P1 P2 = P1" (is "\<lbrakk>_; _\<rbrakk> \<Longrightarrow> ?one")
    and "at_inf P2 \<Longrightarrow> \<not> at_inf P1 \<Longrightarrow> ip \<Longrightarrow> redp (point_add ip P1 P2) (jadd V1 V2)"
      (is "\<lbrakk>_; _; _\<rbrakk> \<Longrightarrow> ?clash")
proof -
  obtain x1 y1 z1 x2 y2 z2 where P: "P1 = (x1, y1, z1)" "P2 = (x2, y2, z2)" by (cases P1, cases P2) auto
  obtain h r x3 y3 z3 where h: "red h (jH V1 V2)" and r: "red r (jR V1 V2)"
    and out: "redp (x3, y3, z3) (jadd V1 V2)"
    and eq: "point_add ip (x1, y1, z1) (x2, y2, z2) =
      (let z1z = felem_is_zero z1; z2z = felem_is_zero z2
       in if felem_is_zero h \<noteq> 0 \<and> felem_is_zero r \<noteq> 0 \<and> \<not> z1z \<noteq> 0 \<and> \<not> z2z \<noteq> 0
          then point_double (x1, y1, z1)
          else (let x3 = copy_conditional x3 x2 z1z; y3 = copy_conditional y3 y2 z1z;
                    z3 = copy_conditional z3 z2 z1z
                in (copy_conditional x3 (if ip then x3 else x1) z2z,
                    copy_conditional y3 (if ip then y3 else y1) z2z,
                    copy_conditional z3 (if ip then z3 else z1) z2z)))"
    by (rule point_add_raw [OF assms [unfolded P], of ip])
  have z: "felem_is_zero z1 = of_bool (at_inf P1)" "felem_is_zero z2 = of_bool (at_inf P2)"
    using assms at_inf_iff [OF assms(1)] at_inf_iff [OF assms(2)]
      felem_is_zero_red [of z1 "jZ V1"] felem_is_zero_red [of z2 "jZ V2"]
    by (cases V1 rule: jZ.cases, cases V2 rule: jZ.cases, simp add: P)+
  note eq' = eq [unfolded Let_def z copy_conditional_of_bool felem_is_zero_red [OF h]
      felem_is_zero_red [OF r], folded P]
  show ?dbl if "\<not> at_inf P1" "\<not> at_inf P2" "prime_p dvd jH V1 V2" "prime_p dvd jR V1 V2"
    using that by (simp add: eq')
  show ?chord if "\<not> at_inf P1" "\<not> at_inf P2" "\<not> (prime_p dvd jH V1 V2 \<and> prime_p dvd jR V1 V2)"
    using that out by (auto simp: eq')
  show ?two if "at_inf P1" "\<not> at_inf P2 \<or> ip" unfolding eq' using that by (auto simp: P)
  show ?one if "at_inf P2" "\<not> ip" unfolding eq' using that by (auto simp: P)
  show ?clash if "at_inf P2" "\<not> at_inf P1" "ip" unfolding eq' using that out by simp
qed

section \<open>The curve\<close>

text \<open>\<open>on_curve B V\<close>: the Jacobian triple satisfies the equation of \<open>y^2 = x^3 - 3 x + B\<close> modulo \<open>p\<close>.
  The curve of the paper has \<open>B = b\<close>, its twist \<open>B = - b\<close>.\<close>

fun on_curve :: "int \<Rightarrow> int \<times> int \<times> int \<Rightarrow> bool" where
  "on_curve B (X, Y, Z) \<longleftrightarrow> eqm prime_p (Y\<^sup>2) (X ^ 3 - 3 * X * Z ^ 4 + B * Z ^ 6)"

text \<open>\<open>jac V (x, y)\<close>: the triple stands for the affine point \<open>(x, y)\<close>.\<close>

fun jac :: "int \<times> int \<times> int \<Rightarrow> int \<times> int \<Rightarrow> bool" where
  "jac (X, Y, Z) (x, y) \<longleftrightarrow> eqm prime_p X (x * Z\<^sup>2) \<and> eqm prime_p Y (y * Z ^ 3)"

lemma on_curve_dvd:
  "on_curve B (X, Y, Z) \<longleftrightarrow> prime_p dvd Y\<^sup>2 - (X ^ 3 - 3 * X * Z ^ 4 + B * Z ^ 6)"
  by (simp add: eqm_dvd)

lemma double_identity:
  fixes X Y Z B :: int
  assumes "a = 3 * (X - Z\<^sup>2) * (X + Z\<^sup>2)" "b = X * Y\<^sup>2" "X' = a\<^sup>2 - 8 * b"
    "Y' = a * (4 * b - X') - 8 * Y ^ 4" "Z' = 2 * Y * Z"
  shows "Y'\<^sup>2 - (X' ^ 3 - 3 * X' * Z' ^ 4 + B * Z' ^ 6) =
    (Y\<^sup>2 - (X ^ 3 - 3 * X * Z ^ 4 + B * Z ^ 6)) * (64 * Y ^ 6)"
  unfolding assms by algebra

lemma add_identity:
  fixes U H R S W B :: int
  assumes "X3 = R\<^sup>2 - H ^ 3 - 2 * (U * H\<^sup>2)" "Y3 = R * (U * H\<^sup>2 - X3) - S * H ^ 3"
  shows "Y3\<^sup>2 - (X3 ^ 3 - 3 * X3 * (H * W) ^ 4 + B * (H * W) ^ 6) =
     H ^ 6 * (S\<^sup>2 - (U ^ 3 - 3 * U * W ^ 4 + B * W ^ 6)) +
     (((S + R)\<^sup>2 - ((U + H) ^ 3 - 3 * (U + H) * W ^ 4 + B * W ^ 6)) -
      (S\<^sup>2 - (U ^ 3 - 3 * U * W ^ 4 + B * W ^ 6))) * H ^ 3 * (X3 - U * H\<^sup>2)"
  unfolding assms by algebra

lemma on_curve_jdouble:
  assumes "on_curve B V"
  shows "on_curve B (jdouble V)"
proof -
  obtain X Y Z where V: "V = (X, Y, Z)" by (cases V) auto
  show ?thesis
    using assms unfolding V jdouble.simps Let_def on_curve_dvd
    by (subst double_identity [OF refl refl refl refl refl]) (rule dvd_mult2)
qed

lemma on_curve_jadd:
  assumes "on_curve B V1" "on_curve B V2"
  shows "on_curve B (jadd V1 V2)"
proof -
  obtain X1 Y1 Z1 X2 Y2 Z2 where V: "V1 = (X1, Y1, Z1)" "V2 = (X2, Y2, Z2)" by (cases V1, cases V2) auto
  define R H U S W where "R = Z1 ^ 3 * Y2 - Z2 ^ 3 * Y1" and "H = Z1\<^sup>2 * X2 - Z2\<^sup>2 * X1"
    and "U = Z2\<^sup>2 * X1" and "S = Z2 ^ 3 * Y1" and "W = Z1 * Z2"
  have "S\<^sup>2 - (U ^ 3 - 3 * U * W ^ 4 + B * W ^ 6) =
      (Y1\<^sup>2 - (X1 ^ 3 - 3 * X1 * Z1 ^ 4 + B * Z1 ^ 6)) * Z2 ^ 6"
    unfolding S_def U_def W_def by algebra
  moreover have "(S + R)\<^sup>2 - ((U + H) ^ 3 - 3 * (U + H) * W ^ 4 + B * W ^ 6) =
      (Y2\<^sup>2 - (X2 ^ 3 - 3 * X2 * Z2 ^ 4 + B * Z2 ^ 6)) * Z1 ^ 6"
    unfolding S_def U_def W_def R_def H_def by algebra
  ultimately have "prime_p dvd S\<^sup>2 - (U ^ 3 - 3 * U * W ^ 4 + B * W ^ 6)"
      "prime_p dvd (S + R)\<^sup>2 - ((U + H) ^ 3 - 3 * (U + H) * W ^ 4 + B * W ^ 6)"
    using assms unfolding V on_curve_dvd by (metis dvd_mult2)+
  moreover have "jadd V1 V2 = (R\<^sup>2 - H ^ 3 - 2 * (U * H\<^sup>2),
      R * (U * H\<^sup>2 - (R\<^sup>2 - H ^ 3 - 2 * (U * H\<^sup>2))) - S * H ^ 3, H * W)"
    by (simp add: V Let_def R_def H_def U_def S_def W_def)
  ultimately show ?thesis
    by (simp only: on_curve_dvd add_identity [OF refl refl])
      (rule dvd_add [OF dvd_mult dvd_mult2 [OF dvd_mult2 [OF dvd_diff]]])
qed

text \<open>Refinement of the chord and tangent construction: with \<open>l\<close> the slope of the line, the doubled
  and the added point are the third intersections, reflected.\<close>

lemma jac_double:
  assumes "jac V (x, y)" "eqm prime_p (2 * y * l) (3 * x\<^sup>2 - 3)"
  defines "x' \<equiv> l\<^sup>2 - 2 * x"
  shows "jac (jdouble V) (x', l * (x - x') - y)"
proof -
  obtain X Y Z where V: "V = (X, Y, Z)" by (cases V) auto
  with assms(1) have X: "eqm prime_p X (x * Z\<^sup>2)" and Y: "eqm prime_p Y (y * Z ^ 3)" by simp_all
  note i = eqm_add eqm_diff eqm_mult eqm_power eqm_refl
  define a b where "a = 3 * (X - Z\<^sup>2) * (X + Z\<^sup>2)" and "b = X * Y\<^sup>2"
  have "eqm prime_p a (3 * (x * Z\<^sup>2 - Z\<^sup>2) * (x * Z\<^sup>2 + Z\<^sup>2))"
    unfolding a_def by (intro i X)
  also have "3 * (x * Z\<^sup>2 - Z\<^sup>2) * (x * Z\<^sup>2 + Z\<^sup>2) = (3 * x\<^sup>2 - 3) * Z ^ 4"
    by algebra
  also have "eqm prime_p \<dots> (2 * y * l * Z ^ 4)"
    by (intro i eqm_sym [OF assms(2)])
  finally have a: "eqm prime_p a (2 * y * l * Z ^ 4)" .
  have b: "eqm prime_p b (x * Z\<^sup>2 * (y * Z ^ 3)\<^sup>2)"
    unfolding b_def by (intro i X Y)
  have z: "eqm prime_p (c * (2 * Y * Z) ^ k) (c * (2 * (y * Z ^ 3) * Z) ^ k)" for c k
    by (intro i Y)
  define T where "T = (2 * y * l * Z ^ 4)\<^sup>2 - 8 * (x * Z\<^sup>2 * (y * Z ^ 3)\<^sup>2)"
  have x: "eqm prime_p (a\<^sup>2 - 8 * b) T"
    unfolding T_def by (intro i a b)
  have T: "T = x' * (2 * (y * Z ^ 3) * Z)\<^sup>2"
    unfolding T_def x'_def by algebra
  have "eqm prime_p (a * (4 * b - (a\<^sup>2 - 8 * b)) - 8 * Y ^ 4)
      (2 * y * l * Z ^ 4 * (4 * (x * Z\<^sup>2 * (y * Z ^ 3)\<^sup>2) - T) - 8 * (y * Z ^ 3) ^ 4)"
    by (intro i a b x Y)
  also have "\<dots> = (l * (x - x') - y) * (2 * (y * Z ^ 3) * Z) ^ 3"
    unfolding T x'_def by algebra
  finally show ?thesis
    unfolding V jdouble.simps Let_def jac.simps a_def [symmetric] b_def [symmetric]
    using eqm_trans [OF x [unfolded T] eqm_sym [OF z]] eqm_trans [OF _ eqm_sym [OF z]] by blast
qed

lemma jac_add:
  assumes "jac V1 (x1, y1)" "jac V2 (x2, y2)" "eqm prime_p (l * (x2 - x1)) (y2 - y1)"
  defines "x3 \<equiv> l\<^sup>2 - x1 - x2"
  shows "jac (jadd V1 V2) (x3, l * (x1 - x3) - y1)"
proof -
  obtain X1 Y1 Z1 X2 Y2 Z2 where V: "V1 = (X1, Y1, Z1)" "V2 = (X2, Y2, Z2)" by (cases V1, cases V2) auto
  with assms(1,2) have X: "eqm prime_p X1 (x1 * Z1\<^sup>2)" "eqm prime_p X2 (x2 * Z2\<^sup>2)"
    and Y: "eqm prime_p Y1 (y1 * Z1 ^ 3)" "eqm prime_p Y2 (y2 * Z2 ^ 3)" by simp_all
  note i = eqm_add eqm_diff eqm_mult eqm_power eqm_refl
  define R H U S W where "R = Z1 ^ 3 * Y2 - Z2 ^ 3 * Y1" and "H = Z1\<^sup>2 * X2 - Z2\<^sup>2 * X1"
    and "U = Z2\<^sup>2 * X1" and "S = Z2 ^ 3 * Y1" and "W = Z1 * Z2"
  define D where "D = W\<^sup>2 * (x2 - x1)"
  have H: "eqm prime_p H D"
    using eqm_diff [OF eqm_mult [OF eqm_refl X(2)] eqm_mult [OF eqm_refl X(1)], of "Z1\<^sup>2" "Z2\<^sup>2"]
    unfolding H_def D_def W_def by (simp add: algebra_simps)
  have U: "eqm prime_p U (W\<^sup>2 * x1)"
    using eqm_mult [OF eqm_refl X(1), of "Z2\<^sup>2"] unfolding U_def W_def by (simp add: algebra_simps)
  have S: "eqm prime_p S (W ^ 3 * y1)"
    using eqm_mult [OF eqm_refl Y(1), of "Z2 ^ 3"] unfolding S_def W_def by (simp add: algebra_simps)
  have "eqm prime_p R (Z1 ^ 3 * (y2 * Z2 ^ 3) - Z2 ^ 3 * (y1 * Z1 ^ 3))"
    unfolding R_def by (intro i Y)
  also have "\<dots> = W ^ 3 * (y2 - y1)" unfolding W_def by algebra
  also have "eqm prime_p \<dots> (W ^ 3 * (l * (x2 - x1)))" by (intro i eqm_sym [OF assms(3)])
  finally have R: "eqm prime_p R (W ^ 3 * (l * (x2 - x1)))" .
  have z: "eqm prime_p (c * (H * W) ^ k) (c * (D * W) ^ k)" for c k by (intro i H)
  define T where "T = (W ^ 3 * (l * (x2 - x1)))\<^sup>2 - D ^ 3 - 2 * (W\<^sup>2 * x1 * D\<^sup>2)"
  have x: "eqm prime_p (R\<^sup>2 - H ^ 3 - 2 * (U * H\<^sup>2)) T"
    unfolding T_def by (intro i R H U)
  have T: "T = x3 * (D * W)\<^sup>2" unfolding T_def D_def x3_def by algebra
  have "eqm prime_p (R * (U * H\<^sup>2 - (R\<^sup>2 - H ^ 3 - 2 * (U * H\<^sup>2))) - S * H ^ 3)
      (W ^ 3 * (l * (x2 - x1)) * (W\<^sup>2 * x1 * D\<^sup>2 - T) - W ^ 3 * y1 * D ^ 3)"
    by (intro i R U H x S)
  also have "\<dots> = (l * (x1 - x3) - y1) * (D * W) ^ 3"
    unfolding T D_def x3_def by algebra
  finally have y: "eqm prime_p (R * (U * H\<^sup>2 - (R\<^sup>2 - H ^ 3 - 2 * (U * H\<^sup>2))) - S * H ^ 3)
      ((l * (x1 - x3) - y1) * (D * W) ^ 3)" .
  have "jadd V1 V2 = (R\<^sup>2 - H ^ 3 - 2 * (U * H\<^sup>2),
      R * (U * H\<^sup>2 - (R\<^sup>2 - H ^ 3 - 2 * (U * H\<^sup>2))) - S * H ^ 3, H * W)"
    by (simp add: V Let_def R_def H_def U_def S_def W_def)
  then show ?thesis
    using eqm_trans [OF x [unfolded T] eqm_sym [OF z]] eqm_trans [OF y eqm_sym [OF z]] by simp
qed

section \<open>Scalar multiplication\<close>

text \<open>The table and the main loop form an addition chain. \<open>addition_chain\<close> states what a relation
  between exponents and points has to satisfy to be carried along it; the result of \<open>point_mul\<close> is
  then related to the scalar it was given. Calls in the main loop overwrite their first operand and
  are only reached with a table entry as second operand, so the law for \<open>point_add True\<close> may assume
  what \<open>ok\<close> says of the entries.\<close>

lemma nibbles:
  fixes b :: byte
  shows "uint b = 16 * int (unat (drop_bit 4 b)) + int (unat (b AND 15))"
    and "unat (drop_bit 4 b) < 16" and "unat (b AND 15) < 16"
proof -
  have m: "b AND 15 = take_bit 4 b" by (simp add: take_bit_eq_mask mask_eq_exp_minus_1)
  have u: "int (unat (drop_bit 4 b)) = uint b div 16" "int (unat (b AND 15)) = uint b mod 16"
    by (simp_all add: m uint_drop_bit uint_take_bit)
  then show "uint b = 16 * int (unat (drop_bit 4 b)) + int (unat (b AND 15))" by simp
  have "uint b < 256" using uint_bounded [of b] by simp
  then show "unat (drop_bit 4 b) < 16" "unat (b AND 15) < 16"
    using u by linarith+
qed

locale addition_chain =
  fixes rel :: "nat \<Rightarrow> point \<Rightarrow> bool" and ok :: "point \<Rightarrow> bool"
  assumes rel_zero: "rel 0 zero_point"
    and rel_double: "rel n P \<Longrightarrow> rel (2 * n) (point_double P)"
    and rel_add: "rel m P \<Longrightarrow> rel n Q \<Longrightarrow> rel (m + n) (point_add False P Q)"
    and rel_add_inplace: "rel m P \<Longrightarrow> rel n Q \<Longrightarrow> ok Q \<Longrightarrow> rel (m + n) (point_add True P Q)"
begin

definition table_ok :: "nat \<Rightarrow> point list \<Rightarrow> bool" where
  "table_ok k t \<longleftrightarrow> length t = k \<and> (\<forall>i<k. rel i (t ! i))"

lemma table_step:
  assumes "table_ok (2 * i) t" "rel 1 P" "0 < i"
  shows "table_ok (2 * Suc i) (let d = point_double (t ! i) in t @ [d, point_add False d P])"
proof -
  from assms(1,3) have l: "length t = 2 * i" and t: "\<And>j. j < 2 * i \<Longrightarrow> rel j (t ! j)" "rel i (t ! i)"
    by (auto simp: table_ok_def)
  note d = rel_double [OF t(2)]
  have "rel j ((t @ [point_double (t ! i), point_add False (point_double (t ! i)) P]) ! j)"
    if j: "j < 2 * Suc i" for j
  proof -
    have "j < 2 * i \<or> j = 2 * i \<or> j = 2 * i + 1" using j by presburger
    then show ?thesis
      using t(1) d rel_add [OF d assms(2)] l by (elim disjE) (simp_all add: nth_append)
  qed
  then show ?thesis by (simp add: table_ok_def l Let_def)
qed

lemma table_ok_fold:
  assumes "rel 1 P" "0 < k"
  shows "table_ok (2 * k) (foldl (\<lambda>table i. let d = point_double (table ! (i div 2))
      in table @ [d, point_add False d P]) [zero_point, P] (map ((*) 2) [1..<k]))"
  using assms(2)
proof (induction k)
  case (Suc k)
  show ?case
  proof (cases "k = 0")
    case True
    then show ?thesis
      using rel_zero assms(1) by (auto simp: table_ok_def less_2_cases_iff nth_Cons')
  next
    case False
    then show ?thesis
      using table_step [OF Suc.IH assms(1)] by simp
  qed
qed simp

lemma table_ok_point_table:
  assumes "rel 1 P"
  shows "table_ok 16 (point_table P)"
proof -
  have "[2, 4, 6, 8, 10, 12, 14] = map ((*) 2) [1..<8 :: nat]"
    by (simp add: upt_rec)
  then show ?thesis
    using table_ok_fold [OF assms, of 8] by (simp only: point_table_def) simp
qed

lemma rel_nibble:
  assumes "table_ok 16 t" "\<And>i. 0 < i \<Longrightarrow> i < 16 \<Longrightarrow> ok (t ! i)" "rel n P" "unat nib < 16"
  shows "rel (16 * n + unat nib) (point_mul_nibble t P nib)"
proof -
  let ?d = "point_double (point_double (point_double (point_double P)))"
  have d: "rel (16 * n) ?d"
    using rel_double [OF rel_double [OF rel_double [OF rel_double [OF assms(3)]]]] by simp
  show ?thesis
  proof (cases "nib = 0")
    case True
    with d show ?thesis by (simp add: point_mul_nibble_def)
  next
    case False
    then have "0 < unat nib" by (simp add: unat_gt_0)
    then have "rel (16 * n + unat nib) (point_add True ?d (t ! unat nib))"
      using assms by (intro rel_add_inplace d) (auto simp: table_ok_def)
    with False show ?thesis by (simp add: point_mul_nibble_def Let_def)
  qed
qed

lemma rel_point_mul:
  assumes "rel 1 P" "\<And>i. 0 < i \<Longrightarrow> i < 16 \<Longrightarrow> ok (point_table P ! i)" "length s = 21"
  shows "rel (nat (le_val s)) (point_mul P s)"
proof -
  define t where "t = point_table P"
  define step where "step = (\<lambda>tmp i. let oh = drop_bit 4 (s ! (20 - i)); ol = s ! (20 - i) AND 0x0f;
                tmp = point_mul_nibble t tmp oh in point_mul_nibble t tmp ol)"
  note t = table_ok_point_table [OF assms(1), folded t_def]
  have nib: "rel (16 * n + unat nib) (point_mul_nibble t Q nib)"
    if "rel n Q" "unat nib < 16" for n Q nib
    using rel_nibble [OF t] assms(2) that by (simp add: t_def)
  have "rel (nat (le_val (drop (21 - k) s))) (foldl step zero_point [0..<k])" if "k \<le> 21" for k
    using that
  proof (induction k)
    case 0
    then show ?case using rel_zero assms(3) by simp
  next
    case (Suc k)
    define b where "b = s ! (20 - k)"
    define n where "n = nat (le_val (drop (21 - k) s))"
    have "Suc (20 - k) = 21 - k" using Suc.prems by simp
    then have "drop (20 - k) s = b # drop (21 - k) s"
      using assms(3) Cons_nth_drop_Suc [of "20 - k" s] by (simp add: b_def)
    then have "le_val (drop (21 - Suc k) s) = uint b + 256 * int n"
      by (simp add: n_def)
    also have "\<dots> = int (16 * (16 * n + unat (drop_bit 4 b)) + unat (b AND 15))"
      unfolding nibbles(1) [of b] by simp
    finally have "nat (le_val (drop (21 - Suc k) s)) =
        16 * (16 * n + unat (drop_bit 4 b)) + unat (b AND 15)"
      by (simp only: nat_int)
    moreover have "rel n (foldl step zero_point [0..<k])"
      using Suc by (simp add: n_def)
    ultimately show ?case
      using nib [OF nib [OF _ nibbles(2) [of b]] nibbles(3) [of b]] by (simp add: step_def b_def Let_def)
  qed
  from this [of 21] show ?thesis
    by (simp add: point_mul_def Let_def step_def t_def)
qed

end

section \<open>The curve invariant along scalar multiplication\<close>

definition curve_point :: "int \<Rightarrow> point \<Rightarrow> bool" where
  "curve_point B P \<longleftrightarrow> redp P (pval P) \<and> on_curve B (pval P)"

lemma redp_pval:
  assumes "redp P V"
  shows "redp P (pval P)"
  using assms by (cases P rule: pval.cases; cases V) (auto simp: red_def)

lemma on_curve_cong:
  assumes "redp P V"
  shows "on_curve B (pval P) \<longleftrightarrow> on_curve B V"
proof -
  obtain x y z X Y Z where P: "P = (x, y, z)" and V: "V = (X, Y, Z)" by (cases P, cases V) auto
  with assms have e: "eqm prime_p (fval x) X" "eqm prime_p (fval y) Y" "eqm prime_p (fval z) Z"
    by (auto simp: red_def)
  note i = eqm_add eqm_diff eqm_mult eqm_power eqm_refl
  have l: "eqm prime_p ((fval y)\<^sup>2) (Y\<^sup>2)"
    and r: "eqm prime_p (fval x ^ 3 - 3 * fval x * fval z ^ 4 + B * fval z ^ 6) (X ^ 3 - 3 * X * Z ^ 4 + B * Z ^ 6)"
    by (intro i e)+
  show ?thesis
    unfolding P V pval.simps on_curve.simps eqm_cong_left [OF l] eqm_cong_right [OF r] ..
qed

lemma curve_pointI: "redp P V \<Longrightarrow> on_curve B V \<Longrightarrow> curve_point B P"
  by (simp add: curve_point_def redp_pval on_curve_cong)

lemma curve_pointD: "curve_point B P \<Longrightarrow> redp P (pval P)" "curve_point B P \<Longrightarrow> on_curve B (pval P)"
  by (simp_all add: curve_point_def)

lemma curve_point_zero: "curve_point B zero_point"
  by (simp add: curve_point_def zero_point_def red_def)

lemma curve_point_double: "curve_point B P \<Longrightarrow> curve_point B (point_double P)"
  using curve_pointD curve_pointI point_double_rep on_curve_jdouble by blast

lemma curve_point_add:
  assumes "curve_point B P" "curve_point B Q"
  shows "curve_point B (point_add ip P Q)"
proof -
  note r = curve_pointD(1) [OF assms(1)] curve_pointD(1) [OF assms(2)]
  note c = point_add_cases [OF r]
  have j: "on_curve B (jadd (pval P) (pval Q))"
    using assms curve_pointD(2) on_curve_jadd by blast
  consider "point_add ip P Q = point_double P" | "redp (point_add ip P Q) (jadd (pval P) (pval Q))"
    | "point_add ip P Q = P" | "point_add ip P Q = Q"
    using c by blast
  then show ?thesis
    using assms curve_point_double curve_pointI [OF _ j] by cases auto
qed

interpretation curve_chain: addition_chain "\<lambda>n Q. curve_point B Q" "\<lambda>Q. True" for B
  by unfold_locales (auto intro: curve_point_zero curve_point_double curve_point_add)

text \<open>The chain itself: \<open>multiple P n Q\<close> says that \<open>Q\<close> is reached from \<open>P\<close> by the program's doublings
  and additions, with the exponents adding up to \<open>n\<close>.\<close>

inductive multiple :: "point \<Rightarrow> nat \<Rightarrow> point \<Rightarrow> bool" for P where
  multiple_zero: "multiple P 0 zero_point"
| multiple_one: "multiple P 1 P"
| multiple_double: "multiple P n Q \<Longrightarrow> multiple P (2 * n) (point_double Q)"
| multiple_add: "multiple P m Q \<Longrightarrow> multiple P n R \<Longrightarrow> multiple P (m + n) (point_add ip Q R)"

interpretation multiple_chain: addition_chain "multiple P" "\<lambda>Q. True" for P
  by unfold_locales (auto intro: multiple.intros)

end
