(* ===== verification/Primes.thy ===== *)
theory Primes
  imports Felem
begin

text \<open>
  The modulus \<open>p = 2^168 - 2^8 - 1\<close> of \<open>ptwist168.c\<close> is prime. The inversion and square-root chains of
  the source, and the claim that every abscissa belongs to the curve or to its twist, rest on this.
  The proof is Pocklington's criterion along a chain of prime factors; the modular powers are
  evaluated with \<open>mpow\<close>, whose reduction step subtracts some multiple of the modulus and needs no
  division.
\<close>


section \<open>Primes\<close>

definition is_prime :: "nat \<Rightarrow> bool" where
  "is_prime p \<longleftrightarrow> 1 < p \<and> (\<forall>d. d dvd p \<longrightarrow> d = 1 \<or> d = p)"

lemma is_prime_coprime:
  assumes "is_prime p" "\<not> p dvd a"
  shows "coprime p a"
proof (rule coprimeI)
  fix c assume "c dvd p" "c dvd a"
  with assms show "is_unit c" by (auto simp: is_prime_def)
qed

lemma is_prime_dvd_mult: "is_prime p \<Longrightarrow> p dvd a * b \<Longrightarrow> p dvd a \<or> p dvd b"
  using is_prime_coprime coprime_dvd_mult_right_iff by blast

lemma prime_factor_exists: "1 < n \<Longrightarrow> \<exists>r. is_prime r \<and> r dvd n"
proof (induction n rule: less_induct)
  case (less n)
  show ?case
  proof (cases "is_prime n")
    case False
    with less.prems obtain d where "d dvd n" "d \<noteq> 1" "d \<noteq> n" by (auto simp: is_prime_def)
    moreover have "d \<le> n" "d \<noteq> 0"
      using \<open>d dvd n\<close> less.prems by (auto intro: dvd_imp_le gr0I)
    moreover from calculation have "d < n" "1 < d" by linarith+
    ultimately show ?thesis using less.IH [of d] by (blast intro: dvd_trans)
  qed auto
qed

lemma small_prime_factor:
  assumes "1 < n" "\<not> is_prime n"
  shows "\<exists>r. is_prime r \<and> r dvd n \<and> r * r \<le> n"
proof -
  from assms obtain d where d: "d dvd n" "d \<noteq> 1" "d \<noteq> n" by (auto simp: is_prime_def)
  then obtain e where e: "n = d * e" by auto
  have "1 < d" "1 < e" using d e assms(1) by (auto intro!: Suc_lessI intro: gr0I)
  then obtain r s where r: "is_prime r" "r dvd d" and s: "is_prime s" "s dvd e"
    using prime_factor_exists by blast
  have le: "r \<le> d" "s \<le> e" using r s \<open>1 < d\<close> \<open>1 < e\<close> by (auto intro: dvd_imp_le)
  show ?thesis
  proof (cases "r \<le> s")
    case True
    then have "r * r \<le> d * e" using le by (intro mult_le_mono) auto
    with r e show ?thesis by auto
  next
    case False
    then have "s * s \<le> d * e" using le by (intro mult_le_mono) auto
    with s e show ?thesis by auto
  qed
qed

lemma prime_dvd_binomial:
  assumes "is_prime p" "0 < k" "k < p"
  shows "p dvd (p choose k)"
proof -
  from assms have "k * (p choose k) = p * ((p - 1) choose (k - 1))"
    by (simp add: times_binomial_minus1_eq)
  then have "p dvd k * (p choose k)" by simp
  moreover have "\<not> p dvd k" using assms by (auto dest: dvd_imp_le)
  ultimately show ?thesis using is_prime_dvd_mult [OF assms(1)] by blast
qed

lemma fermat_step:
  assumes "is_prime p"
  shows "eqm (int p) ((a + 1) ^ p) (a ^ p + 1)"
proof -
  have p: "0 < p" using assms by (auto simp: is_prime_def)
  have "(a + 1) ^ p = (\<Sum>k\<le>p. int (p choose k) * a ^ k)"
    by (simp add: binomial_ring)
  also have "{..p} = insert 0 (insert p {0<..<p})" using p by auto
  also have "(\<Sum>k\<in>\<dots>. int (p choose k) * a ^ k) = 1 + a ^ p + (\<Sum>k\<in>{0<..<p}. int (p choose k) * a ^ k)"
    using p by simp
  finally have "(a + 1) ^ p - (a ^ p + 1) = (\<Sum>k\<in>{0<..<p}. int (p choose k) * a ^ k)" by simp
  moreover have "int p dvd (\<Sum>k\<in>{0<..<p}. int (p choose k) * a ^ k)"
    using prime_dvd_binomial [OF assms] by (intro dvd_sum) (auto intro!: dvd_mult2)
  ultimately show ?thesis by (simp add: eqm_dvd)
qed

lemma fermat_nat:
  assumes "is_prime p"
  shows "eqm (int p) (int a ^ p) (int a)"
proof (induction a)
  case 0
  then show ?case using assms by (simp add: is_prime_def zero_power)
next
  case (Suc a)
  have "eqm (int p) ((int a + 1) ^ p) (int a + 1)"
    using eqm_trans [OF fermat_step [OF assms] eqm_add [OF Suc eqm_refl]] .
  then show ?case by (simp add: add.commute)
qed

text \<open>Fermat's little theorem, in the form the inversion chain needs.\<close>

lemma fermat:
  assumes "is_prime p" "\<not> int p dvd a"
  shows "eqm (int p) (a ^ (p - 1)) 1"
proof -
  have p: "0 < p" using assms(1) by (auto simp: is_prime_def)
  define b where "b = nat (a mod int p)"
  have b: "int b = a mod int p" using p by (simp add: b_def)
  then have ab: "eqm (int p) a (int b)" by (simp add: eqm_def)
  have "eqm (int p) (a ^ p) a"
    using eqm_trans [OF eqm_power [OF ab] eqm_trans [OF fermat_nat [OF assms(1)] eqm_sym [OF ab]]] .
  then have "int p dvd a * (a ^ (p - 1) - 1)"
    using p power_minus_mult [of p a] by (simp add: eqm_dvd right_diff_distrib mult.commute)
  moreover have "coprime (int p) a"
  proof -
    have "\<not> p dvd b" using assms(2) b p by (metis dvd_mod_iff dvd_refl int_dvd_int_iff)
    then have "coprime p b" by (rule is_prime_coprime [OF assms(1)])
    then have "coprime (int p) (a mod int p)" by (simp flip: b)
    then show ?thesis using p by (simp add: coprime_mod_right_iff)
  qed
  ultimately show ?thesis
    by (simp add: coprime_dvd_mult_right_iff eqm_dvd)
qed

text \<open>Pocklington's criterion for one prime factor \<open>q\<close> of \<open>n - 1\<close>: it divides \<open>r - 1\<close> for every
  prime factor \<open>r\<close> of \<open>n\<close>.\<close>

lemma eqm_mono_dvd: "eqm n a b \<Longrightarrow> m dvd n \<Longrightarrow> eqm m a b"
  by (auto simp: eqm_dvd intro: dvd_trans)

lemma pocklington_factor:
  assumes q: "is_prime q" "n - 1 = q * m" and a: "eqm (int n) (a ^ (n - 1)) 1"
    and c: "coprime (a ^ m - 1) (int n)" and r: "is_prime r" "r dvd n"
  shows "q dvd r - 1"
proof (rule ccontr)
  assume "\<not> q dvd r - 1"
  then have "coprime q (r - 1)" by (rule is_prime_coprime [OF q(1)])
  moreover have "q \<noteq> 0" using q(1) by (auto simp: is_prime_def)
  ultimately obtain x y where xy: "q * x = (r - 1) * y + 1"
    using bezout_nat [of q "r - 1"] by (auto simp: coprime_iff_gcd_eq_1)
  define b where "b = a ^ m"
  have bq: "eqm (int r) (b ^ q) 1"
    using eqm_mono_dvd [OF a [unfolded q(2)], of "int r"] r(2)
    by (simp add: b_def power_mult [symmetric] mult.commute)
  have "\<not> int r dvd b"
  proof
    assume "int r dvd b"
    then have "int r dvd b ^ q" using \<open>q \<noteq> 0\<close> by (meson dvd_power dvd_trans neq0_conv)
    with bq have "int r dvd 1" by (metis eqm_0_iff eqm_sym eqm_trans)
    with r(1) show False by (auto simp: is_prime_def)
  qed
  then have br: "eqm (int r) (b ^ (r - 1)) 1" by (rule fermat [OF r(1)])
  have "eqm (int r) (b ^ (q * x)) 1"
    using eqm_power [OF bq, of x] by (simp add: power_mult)
  moreover have "eqm (int r) (b ^ (q * x)) b"
    using eqm_mult [OF eqm_refl [of _ b] eqm_power [OF br, of y]] by (simp add: xy power_mult)
  ultimately have "eqm (int r) b 1" by (meson eqm_sym eqm_trans)
  then have "int r dvd a ^ m - 1" by (simp add: eqm_dvd b_def)
  moreover have "int r dvd int n" using r(2) by simp
  ultimately have "is_unit (int r)" using c by (rule coprime_common_divisor [rotated])
  with r(1) show False by (auto simp: is_prime_def)
qed

lemma pocklington:
  assumes "1 < n" and "\<And>r. is_prime r \<Longrightarrow> r dvd n \<Longrightarrow> F dvd r - 1" and "n \<le> F * F"
  shows "is_prime n"
proof (rule ccontr)
  assume "\<not> is_prime n"
  with assms(1) obtain r where r: "is_prime r" "r dvd n" "r * r \<le> n"
    using small_prime_factor by blast
  then have "F dvd r - 1" "0 < r - 1" using assms(2) by (auto simp: is_prime_def)
  then have "F < r" by (auto dest: dvd_imp_le)
  then have "F * F < r * r" by (intro mult_strict_mono) auto
  with r(3) assms(3) show False by linarith
qed

section \<open>Evaluating modular powers\<close>

text \<open>\<open>barrett n mu k k' y\<close> is \<open>y\<close> less a multiple of \<open>n\<close>: with \<open>mu\<close> the rounded reciprocal of \<open>n\<close>
  the result stays close to \<open>n\<close>, but it is congruent to \<open>y\<close> for every \<open>mu\<close>. \<open>fold168\<close> uses the
  form of \<open>p\<close>, as \<open>felem_reduce\<close> does.\<close>

definition barrett :: "int \<Rightarrow> int \<Rightarrow> nat \<Rightarrow> nat \<Rightarrow> int \<Rightarrow> int" where
  "barrett n mu k k' y = y - drop_bit k' (drop_bit k y * mu) * n"

definition fold168 :: "int \<Rightarrow> int" where
  "fold168 y = (let h = drop_bit 168 y in y - 374144419156711147060143317175368453031918731001856 * h + 257 * h)"

definition fold168_2 :: "int \<Rightarrow> int" where
  "fold168_2 y = fold168 (fold168 y)"

function mpow :: "(int \<Rightarrow> int) \<Rightarrow> int \<Rightarrow> int \<Rightarrow> int" where
  "mpow r a e = (if e \<le> 1 then a
     else let h = mpow r a (drop_bit 1 e); s = r (h * h) in if even e then s else a * s)"
  by pat_completeness auto
termination
  by (relation "measure (\<lambda>(r, a, e). nat e)") (auto simp: drop_bit_eq_div)

declare mpow.simps [simp del]

lemma barrett: "eqm n (barrett n mu k k' y) y"
  using eqm_add_multiple [of n y "- drop_bit k' (drop_bit k y * mu)"]
  by (simp add: barrett_def Let_def algebra_simps)

lemma fold168: "eqm prime_p (fold168 y) y"
  using eqm_add_multiple [of prime_p y "- drop_bit 168 y"]
  by (simp add: fold168_def prime_p_def Let_def algebra_simps)

lemma fold168_twice: "eqm prime_p (fold168_2 y) y"
  unfolding fold168_2_def using fold168 eqm_trans by blast

lemma mpow:
  assumes "\<And>y. eqm n (r y) y" "1 \<le> e"
  shows "eqm n (mpow r a e) (a ^ nat e)"
  using assms
proof (induction r a e rule: mpow.induct)
  case (1 r a e)
  show ?case
  proof (cases "e \<le> 1")
    case True
    with 1 have "e = 1" by simp
    then show ?thesis by (simp add: mpow.simps)
  next
    case False
    define h where "h = e div 2"
    have h: "drop_bit 1 e = h" "1 \<le> h" using False by (simp_all add: h_def drop_bit_eq_div)
    define s where "s = r (mpow r a h * mpow r a h)"
    have ih: "eqm n (mpow r a h) (a ^ nat h)" using 1 False h by simp
    have s: "eqm n s (a ^ nat h * a ^ nat h)"
      unfolding s_def by (rule eqm_trans [OF "1.prems"(1) eqm_mult [OF ih ih]])
    have "nat e = nat h + nat h + (if even e then 0 else 1)"
      using False h(2) unfolding h_def by (auto simp flip: nat_add_distrib elim!: evenE oddE)
    then have "a ^ nat e = (if even e then a ^ nat h * a ^ nat h else a * (a ^ nat h * a ^ nat h))"
      by (simp add: power_add)
    moreover have "mpow r a e = (if even e then s else a * s)"
      using False by (subst mpow.simps) (simp only: h(1) s_def if_False Let_def)
    ultimately show ?thesis
      using s eqm_mult [OF eqm_refl s, of a] by simp
  qed
qed

text \<open>One link of the chain: a factor \<open>q\<close> of \<open>n - 1 = q * m\<close>, and \<open>u\<close> the inverse of
  \<open>a ^ m - 1\<close> modulo \<open>n\<close>.\<close>

definition link :: "int \<Rightarrow> int \<Rightarrow> bool" where
  "link n q \<longleftrightarrow> (\<exists>m a u. 0 < n \<and> 0 < m \<and> n - 1 = q * m \<and> eqm n (a ^ nat (n - 1)) 1 \<and>
     eqm n (u * (a ^ nat m - 1)) 1)"

lemma linkI:
  assumes "\<And>y. eqm n (r y) y" "(mpow r a (n - 1) - 1) mod n = 0" "(u * (mpow r a m - 1) - 1) mod n = 0"
    "n - 1 = q * m" "1 \<le> m" "1 < n"
  shows "link n q"
proof -
  have e: "eqm n x y" if "(x - y) mod n = 0" for x y
    using that by (simp add: eqm_dvd mod_0_imp_dvd)
  have p: "eqm n (mpow r a e) (a ^ nat e)" if "1 \<le> e" for e
    using mpow [of n r e a] assms(1) that by simp
  have "eqm n (a ^ nat (n - 1)) 1"
    using eqm_trans [OF eqm_sym [OF p] e [OF assms(2)]] assms(6) by simp
  moreover have "eqm n (u * (a ^ nat m - 1)) (u * (mpow r a m - 1))"
    using assms(5) by (intro eqm_intros eqm_sym [OF p])
  from eqm_trans [OF this e [OF assms(3)]] have "eqm n (u * (a ^ nat m - 1)) 1" .
  ultimately show ?thesis
    unfolding link_def using assms(4-6) by (intro exI [of _ m] exI [of _ a] exI [of _ u]) simp
qed

lemma link_factor:
  assumes "link (int n) (int q)" "is_prime q" "is_prime r" "r dvd n"
  shows "q dvd r - 1"
proof -
  from assms(1) obtain m a u where l: "int n - 1 = int q * m" "0 < m" "0 < int n"
      "eqm (int n) (a ^ nat (int n - 1)) 1" "eqm (int n) (u * (a ^ nat m - 1)) 1"
    unfolding link_def by blast
  show ?thesis
  proof (rule pocklington_factor [OF assms(2) _ _ _ assms(3,4)])
    have "int (n - 1) = int (q * nat m)" using l(1-3) by simp
    then show "n - 1 = q * nat m" by (simp only: of_nat_eq_iff)
    have "nat (int n - 1) = n - 1" using l(3) by simp
    then show "eqm (int n) (a ^ (n - 1)) 1" using l(4) by (simp only:)
    show "coprime (a ^ nat m - 1) (int n)"
    proof (rule coprimeI)
      fix c assume c: "c dvd a ^ nat m - 1" "c dvd int n"
      have "eqm c 1 (u * (a ^ nat m - 1))" using eqm_mono_dvd [OF eqm_sym [OF l(5)] c(2)] .
      also have "eqm c \<dots> 0" using c(1) by (simp add: eqm_0_iff)
      finally show "is_unit c" by (simp add: eqm_0_iff)
    qed
  qed
qed

lemma link_prime:
  assumes "link (int n) (int q)" "is_prime q" "n \<le> q * q" "1 < n"
  shows "is_prime n"
  by (rule pocklington [OF assms(4) link_factor [OF assms(1,2)] assms(3)])

section \<open>The chain\<close>

lemma small_prime:
  assumes "1 < n" "n < k * k" "\<forall>d\<in>set [2..<k]. \<not> d dvd n"
  shows "is_prime n"
proof (rule ccontr)
  assume "\<not> is_prime n"
  with assms(1) obtain r where r: "is_prime r" "r dvd n" "r * r \<le> n" using small_prime_factor by blast
  have "r < k"
  proof (rule ccontr)
    assume "\<not> r < k"
    then have "k * k \<le> r * r" by (intro mult_le_mono) auto
    with r(3) assms(2) show False by linarith
  qed
  with r(1,2) assms(3) show False by (auto simp: is_prime_def)
qed

lemma prime_1949: "is_prime 1949"
  by (rule small_prime [where k = 45]) (simp_all add: upt_rec)

lemma prime_2689: "is_prime 2689"
  by (rule small_prime [where k = 52]) (simp_all add: upt_rec)

lemma link_214391: "link 214391 1949"
proof (rule linkI [where r = "barrett 214391 328226204 17 29" and a = 2
    and m = 110 and u = 93977])
  show "eqm 214391 ((barrett 214391 328226204 17 29) y) y" for y
    by (rule barrett)
  show "(mpow (barrett 214391 328226204 17 29) 2
      (214391 - 1) - 1) mod 214391 = 0"
    by code_simp
  show "(93977 *
      (mpow (barrett 214391 328226204 17 29) 2
        110 - 1) - 1) mod 214391 = 0"
    by code_simp
qed simp_all

lemma prime_214391: "is_prime 214391"
  by (rule link_prime [of _ 1949]) (use link_214391 prime_1949 in simp_all)

lemma link_252767: "link 252767 2689"
proof (rule linkI [where r = "barrett 252767 278393715 17 29" and a = 2
    and m = 94 and u = 95410])
  show "eqm 252767 ((barrett 252767 278393715 17 29) y) y" for y
    by (rule barrett)
  show "(mpow (barrett 252767 278393715 17 29) 2
      (252767 - 1) - 1) mod 252767 = 0"
    by code_simp
  show "(95410 *
      (mpow (barrett 252767 278393715 17 29) 2
        94 - 1) - 1) mod 252767 = 0"
    by code_simp
qed simp_all

lemma prime_252767: "is_prime 252767"
  by (rule link_prime [of _ 2689]) (use link_252767 prime_2689 in simp_all)

lemma link_15324239899: "link 15324239899 214391"
proof (rule linkI [where r = "barrett 15324239899 19722443455311 33 45" and a = 2
    and m = 71478 and u = 9840979784])
  show "eqm 15324239899 ((barrett 15324239899 19722443455311 33 45) y) y" for y
    by (rule barrett)
  show "(mpow (barrett 15324239899 19722443455311 33 45) 2
      (15324239899 - 1) - 1) mod 15324239899 = 0"
    by code_simp
  show "(9840979784 *
      (mpow (barrett 15324239899 19722443455311 33 45) 2
        71478 - 1) - 1) mod 15324239899 = 0"
    by code_simp
qed simp_all

lemma prime_15324239899: "is_prime 15324239899"
  by (rule link_prime [of _ 214391]) (use link_15324239899 prime_214391 in simp_all)

lemma link_61296959597: "link 61296959597 15324239899"
proof (rule linkI [where r = "barrett 61296959597 78889773819959 35 47" and a = 2
    and m = 4 and u = 28605247812])
  show "eqm 61296959597 ((barrett 61296959597 78889773819959 35 47) y) y" for y
    by (rule barrett)
  show "(mpow (barrett 61296959597 78889773819959 35 47) 2
      (61296959597 - 1) - 1) mod 61296959597 = 0"
    by code_simp
  show "(28605247812 *
      (mpow (barrett 61296959597 78889773819959 35 47) 2
        4 - 1) - 1) mod 61296959597 = 0"
    by code_simp
qed simp_all

lemma prime_61296959597: "is_prime 61296959597"
  by (rule link_prime [of _ 15324239899]) (use link_61296959597 prime_15324239899 in simp_all)

lemma link_367781757583: "link 367781757583 61296959597"
proof (rule linkI [where r = "barrett 367781757583 841490920743945 38 50" and a = 2
    and m = 6 and u = 221836615685])
  show "eqm 367781757583 ((barrett 367781757583 841490920743945 38 50) y) y" for y
    by (rule barrett)
  show "(mpow (barrett 367781757583 841490920743945 38 50) 2
      (367781757583 - 1) - 1) mod 367781757583 = 0"
    by code_simp
  show "(221836615685 *
      (mpow (barrett 367781757583 841490920743945 38 50) 2
        6 - 1) - 1) mod 367781757583 = 0"
    by code_simp
qed simp_all

lemma prime_367781757583: "is_prime 367781757583"
  by (rule link_prime [of _ 61296959597]) (use link_367781757583 prime_61296959597 in simp_all)

lemma link_90bit_a: "link 796408944835756999689534883 367781757583"
proof (rule linkI [where r = "barrett 796408944835756999689534883 1970439237307035825952104906752 89 101" and a = 2
    and m = 2165438955073854 and u = 312175115012461807366556027])
  show "eqm 796408944835756999689534883 ((barrett 796408944835756999689534883 1970439237307035825952104906752 89 101) y) y" for y
    by (rule barrett)
  show "(mpow (barrett 796408944835756999689534883 1970439237307035825952104906752 89 101) 2
      (796408944835756999689534883 - 1) - 1) mod 796408944835756999689534883 = 0"
    by code_simp
  show "(312175115012461807366556027 *
      (mpow (barrett 796408944835756999689534883 1970439237307035825952104906752 89 101) 2
        2165438955073854 - 1) - 1) mod 796408944835756999689534883 = 0"
    by code_simp
qed simp_all

lemma link_90bit_b: "link 796408944835756999689534883 252767"
proof (rule linkI [where r = "barrett 796408944835756999689534883 1970439237307035825952104906752 89 101" and a = 2
    and m = 3150763132987126482846 and u = 330911393813175302012877012])
  show "eqm 796408944835756999689534883 ((barrett 796408944835756999689534883 1970439237307035825952104906752 89 101) y) y" for y
    by (rule barrett)
  show "(mpow (barrett 796408944835756999689534883 1970439237307035825952104906752 89 101) 2
      (796408944835756999689534883 - 1) - 1) mod 796408944835756999689534883 = 0"
    by code_simp
  show "(330911393813175302012877012 *
      (mpow (barrett 796408944835756999689534883 1970439237307035825952104906752 89 101) 2
        3150763132987126482846 - 1) - 1) mod 796408944835756999689534883 = 0"
    by code_simp
qed simp_all

lemma prime_90bit: "is_prime 796408944835756999689534883"
proof (rule pocklington [where F = "367781757583 * 252767"])
  fix r assume r: "is_prime r" "r dvd 796408944835756999689534883"
  have "367781757583 dvd r - 1" "252767 dvd r - 1"
    using link_factor [of 796408944835756999689534883 367781757583, OF _ prime_367781757583 r]
      link_factor [of 796408944835756999689534883 252767, OF _ prime_252767 r] link_90bit_a link_90bit_b by simp_all
  moreover have "coprime (367781757583 :: nat) 252767"
    by (rule is_prime_coprime [OF prime_367781757583]) simp
  ultimately show "367781757583 * 252767 dvd r - 1" by (rule divides_mult)
qed simp_all

lemma link_109bit: "link 381242554710766547265379727561867 796408944835756999689534883"
proof (rule linkI [where r = "barrett 381242554710766547265379727561867 1131455923123967994540521812649836544 108 120" and a = 2
    and m = 478702 and u = 149722636151540719445096099324872])
  show "eqm 381242554710766547265379727561867 ((barrett 381242554710766547265379727561867 1131455923123967994540521812649836544 108 120) y) y" for y
    by (rule barrett)
  show "(mpow (barrett 381242554710766547265379727561867 1131455923123967994540521812649836544 108 120) 2
      (381242554710766547265379727561867 - 1) - 1) mod 381242554710766547265379727561867 = 0"
    by code_simp
  show "(149722636151540719445096099324872 *
      (mpow (barrett 381242554710766547265379727561867 1131455923123967994540521812649836544 108 120) 2
        478702 - 1) - 1) mod 381242554710766547265379727561867 = 0"
    by code_simp
qed simp_all

lemma prime_109bit: "is_prime 381242554710766547265379727561867"
  by (rule link_prime [of _ 796408944835756999689534883]) (use link_109bit prime_90bit in simp_all)

lemma prime_p_literal: "prime_p = 374144419156711147060143317175368453031918731001599"
  by (simp add: prime_p_def)

text \<open>\<open>p - 1 = 2^168 - 258\<close>, so that \<open>2 ^ (p - 1)\<close> takes 168 squarings, done in two halves.\<close>

lemma mpow_p:
  assumes "(mpow fold168_2 a e - b) mod prime_p = 0" "1 \<le> e"
  shows "eqm prime_p (a ^ nat e) b"
  using mpow [of prime_p fold168_2 e a, OF fold168_twice assms(2)] assms(1)
  by (metis eqm_dvd eqm_sym eqm_trans mod_0_imp_dvd)

lemma squarings_1: "eqm prime_p (2 ^ nat (2 ^ 84)) 253342064945190914017623768883486960267671184213984"
proof (rule mpow_p)
  show "(mpow fold168_2 2 (2 ^ 84) - 253342064945190914017623768883486960267671184213984) mod prime_p = 0"
    unfolding prime_p_literal by code_simp
qed simp

lemma squarings_2: "eqm prime_p (253342064945190914017623768883486960267671184213984 ^ nat (2 ^ 84)) (2 ^ 258)"
proof (rule mpow_p)
  show "(mpow fold168_2 253342064945190914017623768883486960267671184213984 (2 ^ 84) - 2 ^ 258) mod prime_p = 0"
    unfolding prime_p_literal by code_simp
qed simp

lemma fermat_base_2: "eqm prime_p (2 ^ nat (prime_p - 1)) 1"
proof -
  define e :: nat where "e = nat (prime_p - 1)"
  have "(2 :: int) ^ (e + 258) = (2 ^ nat (2 ^ 84)) ^ nat (2 ^ 84)"
    unfolding power_mult [symmetric]
    by (rule arg_cong [of _ _ "\<lambda>k. 2 ^ k"]) (simp add: e_def prime_p_def)
  also have "eqm prime_p \<dots> (253342064945190914017623768883486960267671184213984 ^ nat (2 ^ 84))"
    by (rule eqm_power [OF squarings_1])
  also note squarings_2
  finally have "eqm prime_p (2 ^ (e + 258)) (2 ^ 258)" .
  then have "prime_p dvd (2 ^ e - 1) * 2 ^ 258"
    by (simp only: eqm_dvd power_add left_diff_distrib mult_1)
  moreover have "coprime prime_p (2 ^ 258)"
    by (simp only: coprime_power_right_iff coprime_right_2_iff_odd) (simp add: prime_p_def)
  ultimately show ?thesis
    by (simp only: coprime_dvd_mult_left_iff eqm_dvd e_def)
qed

lemma link_168bit: "link prime_p 381242554710766547265379727561867"
proof -
  have "eqm prime_p (219414830623530291346368534282068468091739372011411 * (2 ^ nat 981381575938078394 - 1)) 1"
  proof -
    have "(219414830623530291346368534282068468091739372011411 *
      (mpow fold168_2 2 981381575938078394 - 1) - 1) mod prime_p = 0"
      unfolding prime_p_literal by code_simp
    then have "eqm prime_p (219414830623530291346368534282068468091739372011411 *
      (mpow fold168_2 2 981381575938078394 - 1)) 1"
      by (simp only: eqm_dvd mod_0_imp_dvd)
    moreover have "eqm prime_p (mpow fold168_2 2 981381575938078394) (2 ^ nat 981381575938078394)"
      by (rule mpow [OF fold168_twice]) simp
    ultimately show ?thesis
      by (meson eqm_diff eqm_mult eqm_refl eqm_sym eqm_trans)
  qed
  moreover have "0 < prime_p" "0 < (981381575938078394 :: int)" "prime_p - 1 = 381242554710766547265379727561867 * 981381575938078394"
    by (simp_all add: prime_p_def)
  ultimately show ?thesis
    unfolding link_def using fermat_base_2 by blast
qed

lemma prime_p_prime: "is_prime (nat prime_p)"
  by (rule link_prime [OF _ prime_109bit]) (use link_168bit in \<open>simp_all add: prime_p_literal\<close>)

section \<open>The field\<close>

lemma prime_p_dvd_mult: "prime_p dvd a * b \<longleftrightarrow> prime_p dvd a \<or> prime_p dvd b"
proof
  assume "prime_p dvd a * b"
  then have "nat prime_p dvd nat \<bar>a\<bar> * nat \<bar>b\<bar>"
    by (simp add: nat_abs_mult_distrib [symmetric] nat_dvd_iff prime_p_def)
  then have "nat prime_p dvd nat \<bar>a\<bar> \<or> nat prime_p dvd nat \<bar>b\<bar>"
    by (rule is_prime_dvd_mult [OF prime_p_prime])
  then show "prime_p dvd a \<or> prime_p dvd b"
    by (auto simp: nat_dvd_iff prime_p_def)
qed auto

lemma prime_p_dvd_power: "0 < n \<Longrightarrow> prime_p dvd a ^ n \<longleftrightarrow> prime_p dvd a"
proof (induction n)
  case (Suc n)
  then show ?case by (cases n) (auto simp: prime_p_dvd_mult)
qed simp

lemma fermat_p:
  assumes "\<not> prime_p dvd x"
  shows "eqm prime_p (x ^ (2 ^ 168 - 2 ^ 8 - 2)) 1"
proof -
  have "eqm (int (nat prime_p)) (x ^ (nat prime_p - 1)) 1"
    using assms by (intro fermat [OF prime_p_prime]) (simp add: prime_p_def)
  moreover have "nat prime_p - 1 = 2 ^ 168 - 2 ^ 8 - 2" "int (nat prime_p) = prime_p"
    by (simp_all add: prime_p_def)
  ultimately show ?thesis by (simp only:)
qed

text \<open>The exponent of \<open>felem_inv\<close> inverts, the exponent of \<open>felem_sqrt\<close> gives a root of \<open>x\<close> or of
  \<open>- x\<close>: \<open>p\<close> is 3 modulo 4.\<close>

lemma inverse_p:
  assumes "\<not> prime_p dvd x"
  shows "eqm prime_p (x * x ^ (2 ^ 168 - 2 ^ 8 - 3)) 1"
proof -
  have "x * x ^ (2 ^ 168 - 2 ^ 8 - 3) = x ^ Suc (2 ^ 168 - 2 ^ 8 - 3)" by (simp only: power_Suc)
  also have "Suc (2 ^ 168 - 2 ^ 8 - 3) = 2 ^ 168 - 2 ^ 8 - 2" by simp
  finally show ?thesis using fermat_p [OF assms] by (simp only:)
qed

lemma root_square: "(x ^ (2 ^ 166 - 2 ^ 6))\<^sup>2 = x * x ^ (2 ^ 167 - 2 ^ 7 - 1)" for x :: int
proof -
  have "(x ^ (2 ^ 166 - 2 ^ 6))\<^sup>2 = x ^ ((2 ^ 166 - 2 ^ 6) * 2)" by (simp only: power_mult)
  also have "((2 :: nat) ^ 166 - 2 ^ 6) * 2 = Suc (2 ^ 167 - 2 ^ 7 - 1)" by simp
  finally show ?thesis by (simp only: power_Suc)
qed

lemma half_power:
  assumes "\<not> prime_p dvd x"
  shows "eqm prime_p (x ^ (2 ^ 167 - 2 ^ 7 - 1)) 1 \<or> eqm prime_p (x ^ (2 ^ 167 - 2 ^ 7 - 1)) (- 1)"
proof -
  define w where "w = x ^ (2 ^ 167 - 2 ^ 7 - 1)"
  have "w * w = x ^ (2 ^ 168 - 2 ^ 8 - 2)"
    unfolding w_def power_add [symmetric] by (rule arg_cong [of _ _ "\<lambda>k. x ^ k"]) simp
  then have "prime_p dvd w * w - 1" using fermat_p [OF assms] by (simp only: eqm_dvd)
  also have "w * w - 1 = (w - 1) * (w + 1)" by (simp add: algebra_simps)
  finally show ?thesis
    unfolding prime_p_dvd_mult eqm_dvd w_def [symmetric] by simp
qed

lemma root_p:
  shows "eqm prime_p ((x ^ (2 ^ 166 - 2 ^ 6))\<^sup>2) x \<or> eqm prime_p ((x ^ (2 ^ 166 - 2 ^ 6))\<^sup>2) (- x)"
proof (cases "prime_p dvd x")
  case True
  then have "eqm prime_p x 0" by (simp add: eqm_0_iff)
  from eqm_mult [OF this eqm_refl] have "eqm prime_p ((x ^ (2 ^ 166 - 2 ^ 6))\<^sup>2) 0"
    unfolding root_square by (simp only: mult_zero_left)
  with \<open>eqm prime_p x 0\<close> show ?thesis by (meson eqm_sym eqm_trans)
next
  case False
  from half_power [OF this] show ?thesis
    unfolding root_square by (elim disjE) (drule eqm_mult [OF eqm_refl [of _ x]], simp only: mult_1_right mult_minus_right simp_thms)+
qed

lemma root_of_square:
  assumes "eqm prime_p x (y\<^sup>2)"
  shows "eqm prime_p ((x ^ (2 ^ 166 - 2 ^ 6))\<^sup>2) x"
proof (cases "prime_p dvd x")
  case True
  then have "eqm prime_p x 0" by (simp add: eqm_0_iff)
  from eqm_mult [OF this eqm_refl] have "eqm prime_p ((x ^ (2 ^ 166 - 2 ^ 6))\<^sup>2) 0"
    unfolding root_square by (simp only: mult_zero_left)
  with \<open>eqm prime_p x 0\<close> show ?thesis by (meson eqm_sym eqm_trans)
next
  case False
  then have y: "\<not> prime_p dvd y"
    using assms eqm_cong_left [OF assms, of 0] by (auto simp: eqm_0_iff power2_eq_square)
  have "eqm prime_p (x ^ (2 ^ 167 - 2 ^ 7 - 1)) ((y\<^sup>2) ^ (2 ^ 167 - 2 ^ 7 - 1))"
    by (rule eqm_power [OF assms])
  also have "(y\<^sup>2) ^ (2 ^ 167 - 2 ^ 7 - 1) = y ^ (2 ^ 168 - 2 ^ 8 - 2)"
    unfolding power_mult [symmetric] by (rule arg_cong [of _ _ "\<lambda>k. y ^ k"]) simp
  also note fermat_p [OF y]
  finally show ?thesis
    unfolding root_square using eqm_mult [OF eqm_refl [of _ x]] by (metis mult_1_right)
qed

end
