(* ===== verification/Affine.thy ===== *)
theory Affine
  imports Curve Primes
begin

text \<open>
  The abstract specification of the point arithmetic: affine points of \<open>y^2 = x^3 - 3 x + B\<close> over the
  integers modulo \<open>p\<close> with the chord and tangent law, and the refinement of \<open>point_double\<close>,
  \<open>point_add\<close>, \<open>point_mul\<close>, \<open>affine_x\<close> and \<open>ptwist_pointmul\<close> to it.
\<close>

section \<open>The chord and tangent law\<close>

datatype apoint = Infinity | Aff int int

text \<open>The law as a relation, so that no division is written: \<open>l\<close> is the slope of the line.\<close>

inductive ec_add :: "apoint \<Rightarrow> apoint \<Rightarrow> apoint \<Rightarrow> bool" where
  ec_left: "ec_add Infinity A A"
| ec_right: "ec_add A Infinity A"
| ec_chord: "\<not> eqm prime_p x1 x2 \<Longrightarrow> eqm prime_p (l * (x2 - x1)) (y2 - y1) \<Longrightarrow> x3 = l\<^sup>2 - x1 - x2 \<Longrightarrow>
    ec_add (Aff x1 y1) (Aff x2 y2) (Aff x3 (l * (x1 - x3) - y1))"
| ec_vertical: "eqm prime_p x1 x2 \<Longrightarrow> \<not> eqm prime_p y1 y2 \<Longrightarrow>
    ec_add (Aff x1 y1) (Aff x2 y2) Infinity"
| ec_tangent: "eqm prime_p x1 x2 \<Longrightarrow> eqm prime_p y1 y2 \<Longrightarrow> \<not> eqm prime_p y1 0 \<Longrightarrow>
    eqm prime_p (2 * y1 * l) (3 * x1\<^sup>2 - 3) \<Longrightarrow> x3 = l\<^sup>2 - 2 * x1 \<Longrightarrow>
    ec_add (Aff x1 y1) (Aff x2 y2) (Aff x3 (l * (x1 - x3) - y1))"
| ec_two_torsion: "eqm prime_p x1 x2 \<Longrightarrow> eqm prime_p y1 y2 \<Longrightarrow> eqm prime_p y1 0 \<Longrightarrow>
    ec_add (Aff x1 y1) (Aff x2 y2) Infinity"

inductive ec_multiple :: "apoint \<Rightarrow> nat \<Rightarrow> apoint \<Rightarrow> bool" for A where
  ec_multiple_zero: "ec_multiple A 0 Infinity"
| ec_multiple_one: "ec_multiple A 1 A"
| ec_multiple_add: "ec_multiple A m B \<Longrightarrow> ec_multiple A n C \<Longrightarrow> ec_add B C D \<Longrightarrow> ec_multiple A (m + n) D"

fun repr :: "point \<Rightarrow> apoint \<Rightarrow> bool" where
  "repr P Infinity \<longleftrightarrow> redp P (pval P) \<and> at_inf P"
| "repr P (Aff x y) \<longleftrightarrow> redp P (pval P) \<and> \<not> at_inf P \<and> jac (pval P) (x, y)"

lemma repr_redp: "repr P A \<Longrightarrow> redp P (pval P)"
  by (cases A) auto

lemma repr_inf: "repr P A \<Longrightarrow> at_inf P \<longleftrightarrow> A = Infinity"
  by (cases A) auto

text \<open>A point does not depend on which residues name it.\<close>

lemma jac_cong:
  assumes "redp P V"
  shows "jac (pval P) A \<longleftrightarrow> jac V A"
proof -
  obtain x y z X Y Z u v where P: "P = (x, y, z)" and V: "V = (X, Y, Z)" and A: "A = (u, v)"
    by (cases P, cases V, cases A) auto
  with assms have e: "eqm prime_p (fval x) X" "eqm prime_p (fval y) Y" "eqm prime_p (fval z) Z"
    by (auto simp: red_def)
  have l: "eqm prime_p (u * (fval z)\<^sup>2) (u * Z\<^sup>2)" and r: "eqm prime_p (v * fval z ^ 3) (v * Z ^ 3)"
    by (intro eqm_mult eqm_power eqm_refl e)+
  show ?thesis
    unfolding P V A pval.simps jac.simps eqm_cong_left [OF e(1)] eqm_cong_left [OF e(2)]
      eqm_cong_right [OF l] eqm_cong_right [OF r] ..
qed

lemma repr_AffI: "redp P V \<Longrightarrow> \<not> prime_p dvd jZ V \<Longrightarrow> jac V (x, y) \<Longrightarrow> repr P (Aff x y)"
  by (simp add: redp_pval at_inf_iff jac_cong)

lemma repr_InfI: "redp P V \<Longrightarrow> prime_p dvd jZ V \<Longrightarrow> repr P Infinity"
  by (simp add: redp_pval at_inf_iff)

lemma slope_exists:
  assumes "\<not> prime_p dvd d"
  shows "\<exists>l. eqm prime_p (d * l) c"
proof -
  have "eqm prime_p (d * (d ^ (2 ^ 168 - 2 ^ 8 - 3) * c)) (1 * c)"
    using eqm_mult [OF inverse_p [OF assms] eqm_refl, of c] by (simp only: mult.assoc)
  then show ?thesis by (auto simp only: mult_1)
qed

lemma prime_p_odd: "\<not> prime_p dvd 2"
  by (simp add: prime_p_def)

lemma eqm_dvd_cong: "eqm m a b \<Longrightarrow> m dvd a \<longleftrightarrow> m dvd b"
  by (metis eqm_0_iff eqm_sym eqm_trans)

section \<open>Doubling\<close>

lemma jac_Y_dvd:
  assumes "jac (X, Y, Z) (x, y)" "\<not> prime_p dvd Z"
  shows "prime_p dvd Y \<longleftrightarrow> prime_p dvd y"
proof -
  have "prime_p dvd Y \<longleftrightarrow> prime_p dvd y * Z ^ 3"
    using assms(1) by (auto dest: eqm_dvd_cong)
  with assms(2) show ?thesis by (simp add: prime_p_dvd_mult prime_p_dvd_power)
qed

lemma point_double_refines:
  assumes "repr P A"
  shows "\<exists>C. ec_add A A C \<and> repr (point_double P) C"
proof -
  obtain X Y Z where V: "pval P = (X, Y, Z)" by (cases "pval P") auto
  note r = repr_redp [OF assms]
  note d = point_double_rep [OF r]
  have Z: "jZ (jdouble (pval P)) = 2 * Y * Z" by (simp add: V Let_def)
  show ?thesis
  proof (cases A)
    case Infinity
    then have "prime_p dvd Z" using assms at_inf_iff [OF r] by (simp add: V)
    then have "repr (point_double P) Infinity"
      by (intro repr_InfI [OF d]) (simp add: Z)
    then show ?thesis using Infinity ec_left by blast
  next
    case (Aff x y)
    then have j: "jac (X, Y, Z) (x, y)" and nz: "\<not> prime_p dvd Z"
      using assms at_inf_iff [OF r] by (simp_all add: V)
    note Y = jac_Y_dvd [OF j nz]
    show ?thesis
    proof (cases "prime_p dvd y")
      case True
      then have "repr (point_double P) Infinity" using Y by (intro repr_InfI [OF d]) (simp add: Z)
      moreover have "ec_add A A Infinity"
        unfolding Aff by (rule ec_two_torsion) (simp_all add: True eqm_0_iff)
      ultimately show ?thesis by blast
    next
      case False
      then obtain l where l: "eqm prime_p (2 * y * l) (3 * x\<^sup>2 - 3)"
        using slope_exists [of "2 * y"] prime_p_odd by (auto simp: prime_p_dvd_mult)
      define x3 where "x3 = l\<^sup>2 - 2 * x"
      have "jac (jdouble (pval P)) (x3, l * (x - x3) - y)"
        unfolding x3_def V by (rule jac_double [OF j l])
      then have "repr (point_double P) (Aff x3 (l * (x - x3) - y))"
        using False Y nz prime_p_odd by (intro repr_AffI [OF d]) (simp_all add: Z prime_p_dvd_mult)
      moreover have "ec_add A A (Aff x3 (l * (x - x3) - y))"
        unfolding Aff by (rule ec_tangent [OF _ _ _ l x3_def]) (simp_all add: False eqm_0_iff)
      ultimately show ?thesis by blast
    qed
  qed
qed

section \<open>Addition\<close>

lemma jac_jH:
  assumes "jac V1 (x1, y1)" "jac V2 (x2, y2)"
  shows "eqm prime_p (jH V1 V2) ((jZ V1 * jZ V2)\<^sup>2 * (x2 - x1))"
    and "eqm prime_p (jR V1 V2) ((jZ V1 * jZ V2) ^ 3 * (y2 - y1))"
proof -
  obtain X1 Y1 Z1 X2 Y2 Z2 where V: "V1 = (X1, Y1, Z1)" "V2 = (X2, Y2, Z2)" by (cases V1, cases V2) auto
  with assms have X: "eqm prime_p X1 (x1 * Z1\<^sup>2)" "eqm prime_p X2 (x2 * Z2\<^sup>2)"
    and Y: "eqm prime_p Y1 (y1 * Z1 ^ 3)" "eqm prime_p Y2 (y2 * Z2 ^ 3)" by simp_all
  have "eqm prime_p (jH V1 V2) (Z1\<^sup>2 * (x2 * Z2\<^sup>2) - Z2\<^sup>2 * (x1 * Z1\<^sup>2))"
    unfolding V jH.simps by (intro eqm_diff eqm_mult eqm_refl X)
  also have "\<dots> = (jZ V1 * jZ V2)\<^sup>2 * (x2 - x1)" unfolding V jZ.simps by algebra
  finally show "eqm prime_p (jH V1 V2) ((jZ V1 * jZ V2)\<^sup>2 * (x2 - x1))" .
  have "eqm prime_p (jR V1 V2) (Z1 ^ 3 * (y2 * Z2 ^ 3) - Z2 ^ 3 * (y1 * Z1 ^ 3))"
    unfolding V jR.simps by (intro eqm_diff eqm_mult eqm_refl Y)
  also have "\<dots> = (jZ V1 * jZ V2) ^ 3 * (y2 - y1)" unfolding V jZ.simps by algebra
  finally show "eqm prime_p (jR V1 V2) ((jZ V1 * jZ V2) ^ 3 * (y2 - y1))" .
qed

lemma jZ_jadd: "jZ (jadd V1 V2) = jH V1 V2 * (jZ V1 * jZ V2)"
  by (cases V1; cases V2) (simp add: Let_def)

lemma ec_add_cong_double:
  assumes "ec_add (Aff x1 y1) (Aff x1 y1) C" "eqm prime_p x1 x2" "eqm prime_p y1 y2"
  shows "ec_add (Aff x1 y1) (Aff x2 y2) C"
  using assms(1)
proof (cases rule: ec_add.cases)
  case (ec_tangent l x3)
  then show ?thesis using ec_add.ec_tangent [OF assms(2,3)] by blast
qed (use assms(2,3) in \<open>auto intro: ec_add.intros\<close>)

lemma point_add_refines:
  assumes "repr P A" "repr Q B" "\<not> (ip \<and> at_inf Q \<and> \<not> at_inf P)"
  shows "\<exists>C. ec_add A B C \<and> repr (point_add ip P Q) C"
proof -
  note r = repr_redp [OF assms(1)] repr_redp [OF assms(2)]
  note c = point_add_cases [OF r]
  show ?thesis
  proof (cases A)
    case Infinity
    then have "point_add ip P Q = Q \<or> point_add ip P Q = P \<and> at_inf Q"
      using c(3,4) repr_inf [OF assms(1)] by blast
    then show ?thesis
      using assms(1,2) Infinity repr_inf [OF assms(2)] ec_left by metis
  next
    case (Aff x1 y1)
    then have nP: "\<not> at_inf P" using repr_inf [OF assms(1)] by simp
    show ?thesis
    proof (cases B)
      case Infinity
      then have "point_add ip P Q = P" using assms(3) c(4) nP repr_inf [OF assms(2)] by blast
      then show ?thesis using assms(1) Infinity ec_right by metis
    next
      case (Aff x2 y2)
      then have nQ: "\<not> at_inf Q" using repr_inf [OF assms(2)] by simp
      have j: "jac (pval P) (x1, y1)" "jac (pval Q) (x2, y2)"
        using assms(1,2) Aff \<open>A = Aff x1 y1\<close> by simp_all
      have W: "\<not> prime_p dvd jZ (pval P)" "\<not> prime_p dvd jZ (pval Q)"
        using nP nQ at_inf_iff r by blast+
      have H: "prime_p dvd jH (pval P) (pval Q) \<longleftrightarrow> eqm prime_p x1 x2"
        and R: "prime_p dvd jR (pval P) (pval Q) \<longleftrightarrow> eqm prime_p y1 y2"
        using W eqm_dvd_cong [OF jac_jH(1) [OF j]] eqm_dvd_cong [OF jac_jH(2) [OF j]]
        by (auto simp: prime_p_dvd_mult prime_p_dvd_power eqm_dvd dvd_diff_commute)
      show ?thesis
        unfolding \<open>A = Aff x1 y1\<close> Aff
      proof (cases "eqm prime_p x1 x2")
        case True
        show "\<exists>C. ec_add (Aff x1 y1) (Aff x2 y2) C \<and> repr (point_add ip P Q) C"
        proof (cases "eqm prime_p y1 y2")
          case y: True
          then have "point_add ip P Q = point_double P" using c(1) nP nQ H R True by blast
          then show ?thesis
            using point_double_refines [OF assms(1)] ec_add_cong_double [OF _ True y]
            unfolding \<open>A = Aff x1 y1\<close> by auto
        next
          case y: False
          then have "redp (point_add ip P Q) (jadd (pval P) (pval Q))" using c(2) nP nQ R by blast
          then have "repr (point_add ip P Q) Infinity"
            by (rule repr_InfI) (use H True in \<open>simp add: jZ_jadd\<close>)
          then show ?thesis using ec_vertical [OF True y] by blast
        qed
      next
        case False
        then have p: "redp (point_add ip P Q) (jadd (pval P) (pval Q))" using c(2) nP nQ H by blast
        from False obtain l where "eqm prime_p ((x2 - x1) * l) (y2 - y1)"
          using slope_exists [of "x2 - x1"] by (metis eqm_dvd eqm_sym)
        then have l: "eqm prime_p (l * (x2 - x1)) (y2 - y1)" by (simp only: mult.commute)
        define x3 where "x3 = l\<^sup>2 - x1 - x2"
        have "repr (point_add ip P Q) (Aff x3 (l * (x1 - x3) - y1))"
          using W False H jac_add [OF j l]
          by (intro repr_AffI [OF p]) (simp_all add: jZ_jadd prime_p_dvd_mult x3_def)
        then show "\<exists>C. ec_add (Aff x1 y1) (Aff x2 y2) C \<and> repr (point_add ip P Q) C"
          using ec_chord [OF False l x3_def] by blast
      qed
    qed
  qed
qed

section \<open>Scalar multiplication\<close>

text \<open>The addition chain of \<open>point_mul\<close> refines the same chain in the affine law, provided no entry of
  the table is the point at infinity.\<close>

interpretation ec_chain: addition_chain "\<lambda>n Q. \<exists>B. ec_multiple A n B \<and> repr Q B" "\<lambda>Q. \<not> at_inf Q" for A
proof
  show "\<exists>B. ec_multiple A 0 B \<and> repr zero_point B"
    by (rule exI [of _ Infinity]) (simp add: ec_multiple_zero zero_point_def red_def felem_is_zero_def)
  show "\<exists>B. ec_multiple A (2 * n) B \<and> repr (point_double P) B"
    if "\<exists>B. ec_multiple A n B \<and> repr P B" for n P
    using that point_double_refines ec_multiple_add unfolding mult_2 by blast
  show "\<exists>B. ec_multiple A (m + n) B \<and> repr (point_add False P Q) B"
    if "\<exists>B. ec_multiple A m B \<and> repr P B" "\<exists>B. ec_multiple A n B \<and> repr Q B" for m n P Q
    using that point_add_refines ec_multiple_add by blast
  show "\<exists>B. ec_multiple A (m + n) B \<and> repr (point_add True P Q) B"
    if "\<exists>B. ec_multiple A m B \<and> repr P B" "\<exists>B. ec_multiple A n B \<and> repr Q B" "\<not> at_inf Q" for m n P Q
    using that point_add_refines ec_multiple_add by blast
qed

section \<open>Back to affine coordinates\<close>

lemma red_felem_inv:
  assumes "red z Z" "\<not> prime_p dvd Z"
  shows "red (felem_inv z) (Z ^ (2 ^ 168 - 2 ^ 8 - 3))" "eqm prime_p (Z * Z ^ (2 ^ 168 - 2 ^ 8 - 3)) 1"
  using felem_inv_pow [OF rep64_mono [OF red_rep64 [OF assms(1)]]] inverse_p [OF assms(2)] by simp_all

lemma affine_x_refines:
  assumes "repr P (Aff x y)"
  shows "canonical (affine_x out P)" "fval (affine_x out P) = x mod prime_p"
proof -
  obtain a b c where P: "P = (a, b, c)" by (cases P) auto
  from assms have a: "red a (fval a)" and c: "red c (fval c)" and nz: "\<not> prime_p dvd fval c"
    and nz': "felem_is_zero c = 0" and X: "eqm prime_p (fval a) (x * (fval c)\<^sup>2)"
    using at_inf_iff [OF repr_redp [OF assms]] by (auto simp: P)
  define I where "I = fval c ^ (2 ^ 168 - 2 ^ 8 - 3)"
  note i = red_felem_inv [OF c nz, folded I_def]
  have "red (felem_reduce (felem_mul a (felem_reduce (felem_square (felem_inv c))))) (fval a * (I * I))"
    by (intro mul56 square56 red_rep64 a i(1))
  moreover have "eqm prime_p (fval a * (I * I)) x"
  proof -
    have "eqm prime_p (fval a * (I * I)) (x * (fval c)\<^sup>2 * (I * I))" by (intro eqm_mult X eqm_refl)
    also have "\<dots> = x * (fval c * I)\<^sup>2" by algebra
    also have "eqm prime_p \<dots> (x * 1\<^sup>2)" by (intro eqm_mult eqm_power i(2) eqm_refl)
    finally show ?thesis by simp
  qed
  ultimately have r: "red (felem_reduce (felem_mul a (felem_reduce (felem_square (felem_inv c))))) x"
    by (rule red_cong)
  have out: "affine_x out P =
      felem_contract (felem_reduce (felem_mul a (felem_reduce (felem_square (felem_inv c)))))"
    unfolding affine_x_def P Let_def using nz' by simp
  show "canonical (affine_x out P)" "fval (affine_x out P) = x mod prime_p"
    using felem_contract_canonical [OF red_reduced [OF r]] r by (simp_all add: out red_def eqm_def)
qed

section \<open>Lifting an abscissa\<close>

definition curve_bval :: int where
  "curve_bval = fval curve_b"

lemma red_curve_b: "red curve_b curve_bval"
  by (simp add: curve_b_def curve_bval_def red_def)

lemma ptwist_rhs_rep:
  assumes "red x X"
  shows "rep64 (2 ^ 57) (ptwist_rhs x) (X ^ 3 - 3 * X + curve_bval)"
proof -
  have three: "rep64 3 (3, 0, 0) 3" by (simp add: rep64_def)
  have "rep64 (2 ^ 56 + 3 * 2 ^ 56) (felem_diff64 (felem_reduce (felem_square x)) (3, 0, 0)) (X * X - 3)"
    by (rule felem_diff64_rep [OF red_rep64 [OF square56 [OF red_rep64 [OF assms]]] three]) simp_all
  then have "red (felem_reduce (felem_mul (felem_diff64 (felem_reduce (felem_square x)) (3, 0, 0)) x)) ((X * X - 3) * X)"
    by (rule felem_reduce_rep [OF felem_mul_rep [OF _ red_rep64 [OF assms]]]) simp_all
  from felem_sum64_rep [OF red_rep64 [OF this] red_rep64 [OF red_curve_b]]
  have "rep64 (2 ^ 57) (ptwist_rhs x) ((X * X - 3) * X + curve_bval)"
    by (simp add: ptwist_rhs_def Let_def)
  then show ?thesis
    by (rule rep64_cong) (simp add: algebra_simps power3_eq_cube)
qed

text \<open>The point handed to the multiplication is on the curve, with the given abscissa, when that
  abscissa belongs to the curve, and otherwise on the twist, with the negated abscissa.\<close>

lemma ptwist_lift_cases:
  assumes "red x X"
  shows "let (P, t) = ptwist_lift x; Z = X ^ 3 - 3 * X + curve_bval in
    (\<not> t \<longleftrightarrow> (\<exists>y. eqm prime_p (y\<^sup>2) Z)) \<and>
    curve_point (if t then - curve_bval else curve_bval) P \<and>
    (\<exists>y. repr P (Aff (if t then - X else X) y))"
proof -
  define Z where "Z = X ^ 3 - 3 * X + curve_bval"
  define z y where "z = ptwist_rhs x" and "y = felem_sqrt z"
  define r2 where "r2 = felem_reduce (felem_diff_128_64 (felem_square y) z)"
  define Y where "Y = Z ^ (2 ^ 166 - 2 ^ 6)"
  have z: "rep64 (2 ^ 57) z Z" unfolding z_def Z_def by (rule ptwist_rhs_rep [OF assms])
  have y: "red y Y" unfolding y_def Y_def by (rule felem_sqrt_pow [OF z])
  have r2: "red r2 (Y * Y - Z)"
    unfolding r2_def
    by (rule felem_reduce_rep [OF felem_diff_128_64_rep [OF felem_square_rep [OF red_rep64 [OF y]] z]]) simp_all
  have one: "red (1, 0, 0) 1" by (simp add: red_def)
  have test: "felem_is_zero r2 \<noteq> 0 \<longleftrightarrow> eqm prime_p (Y\<^sup>2) Z"
    using felem_is_zero_red [OF r2] by (simp add: eqm_dvd power2_eq_square)
  have sq: "eqm prime_p (Y\<^sup>2) Z \<longleftrightarrow> (\<exists>y. eqm prime_p (y\<^sup>2) Z)"
    using root_of_square unfolding Y_def by (blast intro: eqm_sym)
  have lift: "ptwist_lift x = (if felem_is_zero r2 \<noteq> 0 then ((x, y, 1, 0, 0), False)
      else ((felem_neg x, y, 1, 0, 0), True))"
    unfolding ptwist_lift_def Let_def z_def y_def r2_def ..
  have R: "repr P (Aff U Y)" if "redp P (U, Y, 1)" for P U
    by (rule repr_AffI [OF that]) (simp_all add: prime_p_def)
  show ?thesis
  proof (cases "eqm prime_p (Y\<^sup>2) Z")
    case True
    have P: "redp (x, y, 1, 0, 0) (X, Y, 1)" using assms y one by simp
    have "curve_point curve_bval (x, y, 1, 0, 0)"
      by (rule curve_pointI [OF P]) (use True in \<open>simp add: Z_def\<close>)
    then show ?thesis
      unfolding lift Z_def [symmetric] using test sq True R [OF P] by auto
  next
    case False
    then have "eqm prime_p (Y\<^sup>2) (- Z)" using root_p [of Z] unfolding Y_def by blast
    moreover have P: "redp (felem_neg x, y, 1, 0, 0) (- X, Y, 1)"
      using red_cong [OF felem_neg_gen(1) [OF red_reduced [OF assms]], of "- X"] assms y one
      by (auto simp: red_def intro: eqm_minus)
    ultimately have "curve_point (- curve_bval) (felem_neg x, y, 1, 0, 0)"
      by (intro curve_pointI [OF P]) (simp add: Z_def power3_eq_cube)
    then show ?thesis
      unfolding lift Z_def [symmetric] using test sq False R [OF P] by auto
  qed
qed

section \<open>The whole multiplication\<close>

lemma point_mul_refines:
  assumes "repr P A" "length s = 21"
  shows "(\<exists>B. ec_multiple A (nat (le_val s)) B \<and> repr (point_mul P s) B) \<or>
    (\<exists>i\<in>{1..<16}. ec_multiple A i Infinity)"
proof (cases "\<exists>i\<in>{1..<16}. at_inf (point_table P ! i)")
  case True
  then obtain i where i: "1 \<le> i" "i < 16" "at_inf (point_table P ! i)" by auto
  have "\<exists>B. ec_multiple A 1 B \<and> repr P B" using assms(1) ec_multiple_one by blast
  from ec_chain.table_ok_point_table [OF this] i(2)
  obtain B where "ec_multiple A i B" "repr (point_table P ! i) B"
    unfolding ec_chain.table_ok_def by blast
  with i show ?thesis using repr_inf by auto
next
  case False
  then have "\<exists>B. ec_multiple A (nat (le_val s)) B \<and> repr (point_mul P s) B"
    using assms ec_multiple_one [of A] by (intro ec_chain.rel_point_mul) auto
  then show ?thesis ..
qed

text \<open>The final conversion: negated on the twist and written as bytes.\<close>

lemma final_bytes:
  assumes "repr Q (Aff u v)"
    and w: "\<not> (t \<and> prime_p - 514 < u mod prime_p \<and> u mod prime_p \<le> prime_p - 257)"
  shows "le_val (felem_to_bin21 (if t then felem_neg (affine_x out Q) else affine_x out Q)) =
    (if t then - u else u) mod prime_p"
proof -
  note a = affine_x_refines [OF assms(1), of out]
  have r: "reduced (affine_x out Q)" using a(1) by (cases "affine_x out Q") (auto simp: canonical_def)
  have lt: "u mod prime_p < prime_p" by (simp add: prime_p_def)
  show ?thesis
  proof (cases t)
    case True
    then have "canonical (felem_neg (affine_x out Q)) \<and>
        fval (felem_neg (affine_x out Q)) = (- (u mod prime_p)) mod prime_p"
      using felem_neg_gen(2) [OF r] w lt unfolding a(2) by linarith
    with True show ?thesis by (simp add: le_val_canonical mod_minus_eq)
  next
    case False
    then show ?thesis using a by (simp add: le_val_canonical)
  qed
qed

lemma ptwist_pointmul_refines:
  assumes "length x = 21" "length seckey = 21"
  shows "\<exists>t y. let X = le_val x; n = nat (le_val seckey); A = Aff (if t then - X else X) y in
    (\<not> t \<longleftrightarrow> (\<exists>r. eqm prime_p (r\<^sup>2) (X ^ 3 - 3 * X + curve_bval))) \<and>
    ((\<exists>u v. ec_multiple A n (Aff u v) \<and>
        ((t \<and> prime_p - 514 < u mod prime_p \<and> u mod prime_p \<le> prime_p - 257) \<or>
         le_val (ptwist_pointmul past Qx0 x seckey) = (if t then - u else u) mod prime_p)) \<or>
     ec_multiple A n Infinity \<or> (\<exists>i\<in>{1..<16}. ec_multiple A i Infinity))"
proof -
  define X n where "X = le_val x" and "n = nat (le_val seckey)"
  obtain P t where lift: "ptwist_lift (bin21_to_felem past x) = (P, t)" by fastforce
  have "red (bin21_to_felem past x) X"
    using fval_bin21_to_felem [OF assms(1)] by (simp add: red_def X_def)
  from ptwist_lift_cases [OF this, unfolded lift Let_def prod.case] obtain y where
    sq: "\<not> t \<longleftrightarrow> (\<exists>r. eqm prime_p (r\<^sup>2) (X ^ 3 - 3 * X + curve_bval))"
    and P: "repr P (Aff (if t then - X else X) y)" by blast
  define A where "A = Aff (if t then - X else X) y"
  define out where "out = ptwist_pointmul past Qx0 x seckey"
  have out: "out = felem_to_bin21 (if t then felem_neg (affine_x Qx0 (point_mul P seckey))
      else affine_x Qx0 (point_mul P seckey))"
    by (simp add: out_def ptwist_pointmul_def lift)
  have "(\<exists>u v. ec_multiple A n (Aff u v) \<and>
        ((t \<and> prime_p - 514 < u mod prime_p \<and> u mod prime_p \<le> prime_p - 257) \<or>
         le_val out = (if t then - u else u) mod prime_p)) \<or>
     ec_multiple A n Infinity \<or> (\<exists>i\<in>{1..<16}. ec_multiple A i Infinity)"
    using point_mul_refines [OF P assms(2), folded A_def n_def]
  proof
    assume "\<exists>B. ec_multiple A n B \<and> repr (point_mul P seckey) B"
    then obtain B where B: "ec_multiple A n B" "repr (point_mul P seckey) B" by blast
    then show ?thesis
    proof (cases B)
      case (Aff u v)
      with B show ?thesis using final_bytes [of "point_mul P seckey" u v t Qx0] unfolding out by blast
    qed blast
  qed blast
  with sq show ?thesis
    unfolding Let_def A_def out_def X_def n_def by blast
qed

section \<open>Properties\<close>

text \<open>C25: \<open>felem_inv\<close> computes the inverse modulo \<open>p\<close> of every non-zero element.\<close>

theorem felem_inv_correct:
  assumes "reduced c" "\<not> prime_p dvd fval c"
  shows "reduced (felem_inv c) \<and> (fval c * fval (felem_inv c)) mod prime_p = 1"
proof -
  note i = red_felem_inv [OF red_self [OF assms(1)] assms(2)]
  have "eqm prime_p (fval c * fval (felem_inv c)) 1"
    using eqm_trans [OF eqm_mult [OF eqm_refl] i(2)] i(1) by (simp add: red_def)
  then show ?thesis using i(1) by (simp add: red_def eqm_def prime_p_def)
qed

theorem felem_inv_correct_witness:
  "reduced (felem_inv (2, 0, 0)) \<and> (2 * fval (felem_inv (2, 0, 0))) mod prime_p = 1"
  using felem_inv_correct [of "(2, 0, 0)"] by (simp add: prime_p_def)

text \<open>C26: \<open>felem_sqrt\<close> returns a square root of every square; of anything else it returns a square root
  of the negated element.\<close>

theorem felem_sqrt_correct:
  assumes "reduced c"
  shows "eqm prime_p ((fval (felem_sqrt c))\<^sup>2)
    (if \<exists>y. eqm prime_p (y\<^sup>2) (fval c) then fval c else - fval c)"
proof -
  define r where "r = fval c ^ (2 ^ 166 - 2 ^ 6)"
  have "red (felem_sqrt c) r"
    using felem_sqrt_pow [OF rep64_mono [OF red_rep64 [OF red_self [OF assms]]]] by (simp add: r_def)
  then have e: "eqm prime_p ((fval (felem_sqrt c))\<^sup>2) (r\<^sup>2)"
    by (intro eqm_power) (simp add: red_def)
  show ?thesis
  proof (cases "\<exists>y. eqm prime_p (y\<^sup>2) (fval c)")
    case True
    then have "eqm prime_p (r\<^sup>2) (fval c)" unfolding r_def using root_of_square [OF eqm_sym] by blast
    with True show ?thesis using eqm_trans [OF e] by simp
  next
    case False
    then have "eqm prime_p (r\<^sup>2) (- fval c)" using root_p [of "fval c"] unfolding r_def by blast
    with False show ?thesis using eqm_trans [OF e] by simp
  qed
qed

theorem felem_sqrt_correct_witness:
  "eqm prime_p ((fval (felem_sqrt (4, 0, 0)))\<^sup>2) 4"
proof -
  have "\<exists>y. eqm prime_p (y\<^sup>2) 4" by (rule exI [of _ 2]) simp
  then show ?thesis using felem_sqrt_correct [of "(4, 0, 0)"] by simp
qed

text \<open>C15: \<open>point_double\<close> refines the tangent law: on a representation of an affine point it returns a
  representation of its double, also for the point at infinity and for points of order two.\<close>

theorem point_double_correct:
  assumes "repr P A"
  shows "\<exists>C. ec_add A A C \<and> repr (point_double P) C"
  by (rule point_double_refines [OF assms])

theorem point_double_correct_witness:
  "\<exists>C. ec_add (Aff 2 5) (Aff 2 5) C \<and> repr (point_double ((2, 0, 0), (5, 0, 0), (1, 0, 0))) C"
  by (rule point_double_correct) (simp add: red_def felem_is_zero_def two56m1_def)

text \<open>C14: \<open>point_add\<close> refines the chord and tangent law in every case: two different points, equal
  points, opposite points, and the point at infinity on either side, except when the output
  overwrites point 1 and only point 2 is at infinity.\<close>

theorem point_add_correct:
  assumes "repr P A" "repr Q B" "\<not> (ip \<and> at_inf Q \<and> \<not> at_inf P)"
  shows "\<exists>C. ec_add A B C \<and> repr (point_add ip P Q) C"
  by (rule point_add_refines [OF assms])

theorem point_add_correct_witness:
  "\<exists>C. ec_add (Aff 2 5) (Aff 3 7) C \<and>
     repr (point_add True ((2, 0, 0), (5, 0, 0), (1, 0, 0)) ((3, 0, 0), (7, 0, 0), (1, 0, 0))) C"
  by (rule point_add_correct) (simp_all add: red_def felem_is_zero_def two56m1_def)

text \<open>In the excepted case the result is the point at infinity instead of point 1.\<close>

lemma point_add_inplace_infinity:
  assumes "repr P (Aff x y)" "repr Q Infinity"
  shows "repr (point_add True P Q) Infinity"
proof -
  note r = repr_redp [OF assms(1)] repr_redp [OF assms(2)]
  have "at_inf Q" "\<not> at_inf P" using assms by simp_all
  then have d: "redp (point_add True P Q) (jadd (pval P) (pval Q))" and "prime_p dvd jZ (pval Q)"
    using point_add_cases(5) [OF r, of True] at_inf_iff [OF r(2)] by simp_all
  then have "prime_p dvd jZ (jadd (pval P) (pval Q))" by (simp add: jZ_jadd)
  with d show ?thesis by (rule repr_InfI)
qed

text \<open>Every point that \<open>point_mul\<close> returns for a point of the curve \<open>y^2 = x^3 - 3 x + B\<close> is on
  that curve and partially reduced, for all scalars.\<close>

lemma point_mul_on_curve:
  assumes "curve_point B P" "length s = 21"
  shows "curve_point B (point_mul P s)"
  using curve_chain.rel_point_mul [OF assms(1) _ assms(2)] by simp

text \<open>C6: \<open>point_mul\<close> computes the multiple of the point given by the little-endian scalar, in the
  affine law. The only exception is a point of order below sixteen: an entry of the table is then
  the point at infinity.\<close>

theorem point_mul_correct:
  assumes "repr P A" "length s = 21"
  shows "(\<exists>B. ec_multiple A (nat (le_val s)) B \<and> repr (point_mul P s) B) \<or>
    (\<exists>i\<in>{1..<16}. ec_multiple A i Infinity)"
  by (rule point_mul_refines [OF assms])

theorem point_mul_correct_witness:
  "(\<exists>B. ec_multiple (Aff 1 1) (nat (le_val (replicate 21 0x5a))) B \<and>
      repr (point_mul ((1, 0, 0), (1, 0, 0), (1, 0, 0)) (replicate 21 0x5a)) B) \<or>
    (\<exists>i\<in>{1..<16}. ec_multiple (Aff 1 1) i Infinity)"
  by (rule point_mul_correct) (simp_all add: red_def felem_is_zero_def two56m1_def)



end
