(* ===== verification/Tag.thy ===== *)
theory Tag
  imports Affine
begin

text \<open>
  Tags: \<open>src/telex-station/station/tag/tag.c\<close> (the copies of \<open>gen_tag\<close> and \<open>check_tag\<close> in
  \<open>rclient.c\<close> and \<open>rserv.c\<close> are the same code), the key files of \<open>genkeys.c\<close>, and the two programs
  that write and validate a file of tags. \<open>ptwist.h\<close> sets \<open>PTWIST_PUZZLE_STRENGTH\<close> to 0, so that the
  client puzzle is compiled out and a tag is 21 bytes of abscissa followed by 7 bytes of hash.

  SHA-256 is the parameter \<open>SHA256\<close>; the bytes drawn by \<open>RAND_bytes\<close> are arguments. \<open>m\<close> gives, for
  each call of \<open>ptwist_pointmul\<close>, the byte behind its input array and the contents of its
  uninitialised local \<open>Qx\<close>. Files are byte lists, \<open>None\<close> when \<open>fopen\<close> fails; a program that calls
  \<open>exit(1)\<close> returns \<open>Inl\<close>.
\<close>

section \<open>Definitions\<close>

definition PTWIST_BYTES :: nat where "PTWIST_BYTES = 21"
definition PTWIST_TAG_BYTES :: nat where "PTWIST_TAG_BYTES = 28"
definition PTWIST_HASH_SHOWBYTES :: nat where "PTWIST_HASH_SHOWBYTES = (224 - 168 - 0) div 8"

record tag_keys =
  maingen :: bytes
  twistgen :: bytes
  mainpub :: bytes
  twistpub :: bytes

datatype exit_error = Fopen | Fread | Assert

type_synonym stack = "nat \<Rightarrow> byte \<times> coord"
type_synonym hash = "bytes \<Rightarrow> bytes"

definition pointmul :: "stack \<Rightarrow> nat \<Rightarrow> bytes \<Rightarrow> bytes \<Rightarrow> bytes" where
  "pointmul m i x seckey = ptwist_pointmul (fst (m i)) (snd (m i)) (take PTWIST_BYTES x) seckey"

definition gen_tag :: "hash \<Rightarrow> stack \<Rightarrow> tag_keys \<Rightarrow> byte \<Rightarrow> bytes \<Rightarrow> bytes \<Rightarrow> bytes \<times> bytes" where
  "gen_tag SHA256 m K rand1 seckey context =
     (let usetwist = rand1 AND 1;
          tag = replicate PTWIST_TAG_BYTES 0xAA;
          tag = pointmul m 0 (if usetwist \<noteq> 0 then twistgen K else maingen K) seckey @
                drop PTWIST_BYTES tag;
          sharedsec = pointmul m 1 (if usetwist \<noteq> 0 then twistpub K else mainpub K) seckey;
          taghashout = SHA256 (sharedsec @ context);
          tag = take PTWIST_BYTES tag @ take PTWIST_HASH_SHOWBYTES taghashout
      in (tag, take 16 (drop 16 taghashout)))"

text \<open>\<open>check_tag\<close> returns its result code and the contents of \<open>key\<close>.\<close>

definition check_tag :: "hash \<Rightarrow> stack \<Rightarrow> bytes \<Rightarrow> bytes \<Rightarrow> bytes \<Rightarrow> bytes \<Rightarrow> int \<times> bytes" where
  "check_tag SHA256 m key privkey tag context =
     (let sharedsec = pointmul m 0 tag privkey;
          taghashout = SHA256 (sharedsec @ context);
          ret = (if take PTWIST_HASH_SHOWBYTES (drop PTWIST_BYTES tag) \<noteq>
                    take PTWIST_HASH_SHOWBYTES taghashout then 1 else 0);
          key = (if ret = 0 then take 16 (drop 16 taghashout) else key)
      in (ret, key))"

definition tag_init :: "tag_keys \<Rightarrow> tag_keys" where
  "tag_init K = K \<lparr>maingen := (replicate PTWIST_BYTES 0)[0 := 2], twistgen := replicate PTWIST_BYTES 0\<rparr>"

definition tag_load_pubkey :: "bytes option \<Rightarrow> tag_keys \<Rightarrow> exit_error + tag_keys" where
  "tag_load_pubkey file K = (case file of
     None \<Rightarrow> Inl Fopen
   | Some bs \<Rightarrow>
       if length bs < PTWIST_BYTES then Inl Fread
       else let K = K \<lparr>mainpub := take PTWIST_BYTES bs\<rparr>; bs = drop PTWIST_BYTES bs in
         if length bs < PTWIST_BYTES then Inl Fread
         else Inr (K \<lparr>twistpub := take PTWIST_BYTES bs\<rparr>))"

definition tag_load_pubkey_bytes :: "bytes \<Rightarrow> nat \<Rightarrow> tag_keys \<Rightarrow> exit_error + tag_keys" where
  "tag_load_pubkey_bytes keybytes len K =
     (if len \<noteq> PTWIST_BYTES + PTWIST_BYTES then Inl Assert
      else Inr (K \<lparr>mainpub := take PTWIST_BYTES keybytes,
                   twistpub := take PTWIST_BYTES (drop PTWIST_BYTES keybytes)\<rparr>))"

definition tag_load_privkey :: "bytes option \<Rightarrow> exit_error + bytes" where
  "tag_load_privkey file = (case file of
     None \<Rightarrow> Inl Fopen
   | Some bs \<Rightarrow> if length bs < PTWIST_BYTES then Inl Fread else Inr (take PTWIST_BYTES bs))"

text \<open>\<open>genkeys\<close> returns the files \<open>privkey\<close> and \<open>pubkey\<close>; \<open>random\<close> is what \<open>/dev/random\<close> yields.\<close>

definition genkeys_main :: "stack \<Rightarrow> bytes \<Rightarrow> exit_error + (bytes \<times> bytes)" where
  "genkeys_main m random =
     (if length random < PTWIST_BYTES then Inl Fread
      else let privkey = take PTWIST_BYTES random;
               maingen = (replicate PTWIST_BYTES 0)[0 := 2];
               twistgen = replicate PTWIST_BYTES 0;
               mainpub = pointmul m 0 maingen privkey;
               twistpub = pointmul m 1 twistgen privkey
           in Inr (privkey, mainpub @ twistpub))"

definition tool_context :: bytes where
  "tool_context = [0x63, 0x6f, 0x6e, 0x74, 0x65, 0x78, 0x74]"

text \<open>\<open>rclient\<close>: \<open>draws\<close> lists what \<open>RAND_bytes\<close> returns for each tag. The result is the file \<open>tags\<close>.\<close>

definition rclient_main :: "hash \<Rightarrow> stack \<Rightarrow> bytes option \<Rightarrow> (byte \<times> bytes) list \<Rightarrow> tag_keys \<Rightarrow> exit_error + bytes" where
  "rclient_main SHA256 m pubkey draws K =
     (let K = K \<lparr>maingen := (replicate PTWIST_BYTES 0)[0 := 2], twistgen := replicate PTWIST_BYTES 0\<rparr> in
      case tag_load_pubkey pubkey K of
        Inl e \<Rightarrow> Inl e
      | Inr K \<Rightarrow> Inr (concat (map (\<lambda>(rand1, seckey). fst (gen_tag SHA256 m K rand1 seckey tool_context)) draws)))"

text \<open>\<open>rserv\<close>: whole tags are read from the file until \<open>fread\<close> comes up short.\<close>

function rserv_loop :: "hash \<Rightarrow> stack \<Rightarrow> bytes \<Rightarrow> bytes \<Rightarrow> int \<Rightarrow> int \<Rightarrow> int \<times> int" where
  "rserv_loop SHA256 m privkey file tottagged totuntagged =
     (if length file < PTWIST_TAG_BYTES then (tottagged, totuntagged)
      else let res = fst (check_tag SHA256 m (replicate 16 0) privkey (take PTWIST_TAG_BYTES file) tool_context)
           in rserv_loop SHA256 m privkey (drop PTWIST_TAG_BYTES file)
                (tottagged + (if res = 0 then 1 else 0)) (totuntagged + (if res \<noteq> 0 then 1 else 0)))"
  by pat_completeness auto
termination
  by (relation "measure (\<lambda>(h, m, k, file, t, u). length file)") (auto simp: PTWIST_TAG_BYTES_def)

declare rserv_loop.simps [simp del]

definition rserv_main :: "hash \<Rightarrow> stack \<Rightarrow> bytes option \<Rightarrow> bytes option \<Rightarrow> exit_error + (int \<times> int)" where
  "rserv_main SHA256 m privkey tags =
     (case tag_load_privkey privkey of
        Inl e \<Rightarrow> Inl e
      | Inr privkey \<Rightarrow> (case tags of None \<Rightarrow> Inl Fopen
          | Some file \<Rightarrow> Inr (rserv_loop SHA256 m privkey file 0 0)))"

lemmas tag_sizes = PTWIST_BYTES_def PTWIST_TAG_BYTES_def PTWIST_HASH_SHOWBYTES_def

section \<open>Tags and keys\<close>

lemma length_pointmul [simp]: "length (pointmul m i x k) = 21"
  by (simp add: pointmul_def ptwist_pointmul_def case_prod_beta Let_def)

definition tag_gen :: "tag_keys \<Rightarrow> byte \<Rightarrow> bytes" where
  "tag_gen K rand1 = (if rand1 AND 1 \<noteq> 0 then twistgen K else maingen K)"

definition tag_pub :: "tag_keys \<Rightarrow> byte \<Rightarrow> bytes" where
  "tag_pub K rand1 = (if rand1 AND 1 \<noteq> 0 then twistpub K else mainpub K)"

lemma gen_tag_eq:
  "gen_tag SHA256 m K rand1 seckey context =
    (let h = SHA256 (pointmul m 1 (tag_pub K rand1) seckey @ context)
     in (pointmul m 0 (tag_gen K rand1) seckey @ take 7 h, take 16 (drop 16 h)))"
  by (simp add: gen_tag_def tag_gen_def tag_pub_def Let_def tag_sizes)

lemma check_tag_eq:
  "check_tag SHA256 m key privkey tag context =
    (let h = SHA256 (pointmul m 0 tag privkey @ context)
     in if take 7 (drop 21 tag) = take 7 h then (0, take 16 (drop 16 h)) else (1, key))"
  by (simp add: check_tag_def Let_def tag_sizes)

lemma pointmul_take: "pointmul m i (take 21 x) k = pointmul m i x k"
  by (simp add: pointmul_def tag_sizes)

lemma check_gen_tag:
  assumes "pointmul m' 0 (pointmul m 0 (tag_gen K rand1) seckey) privkey =
      pointmul m 1 (tag_pub K rand1) seckey"
  shows "check_tag SHA256 m' key privkey (fst (gen_tag SHA256 m K rand1 seckey context)) context =
    (0, snd (gen_tag SHA256 m K rand1 seckey context))"
proof -
  define h where "h = SHA256 (pointmul m 1 (tag_pub K rand1) seckey @ context)"
  define t where "t = pointmul m 0 (tag_gen K rand1) seckey @ take 7 h"
  have "pointmul m' 0 t privkey = pointmul m' 0 (take 21 t) privkey" by (simp only: pointmul_take)
  then have "pointmul m' 0 t privkey = pointmul m 1 (tag_pub K rand1) seckey"
    using assms by (simp add: t_def)
  then have "SHA256 (pointmul m' 0 t privkey @ context) = h" by (simp only: h_def)
  moreover have "gen_tag SHA256 m K rand1 seckey context = (t, take 16 (drop 16 h))"
    by (simp add: gen_tag_eq Let_def t_def h_def)
  moreover have "take 7 (drop 21 t) = take 7 h" by (simp add: t_def)
  ultimately show ?thesis by (simp add: check_tag_eq Let_def)
qed

lemma length_gen_tag:
  assumes "\<And>x. length (SHA256 x) = 32"
  shows "length (fst (gen_tag SHA256 m K rand1 seckey context)) = 28"
  by (simp add: gen_tag_eq Let_def assms)

lemma rserv_loop_tags:
  assumes "\<And>t. t \<in> set tags \<Longrightarrow> length t = 28 \<and> fst (check_tag SHA256 m (replicate 16 0) privkey t tool_context) = 0"
  shows "rserv_loop SHA256 m privkey (concat tags) a b = (a + int (length tags), b)"
  using assms
proof (induction tags arbitrary: a)
  case Nil
  then show ?case by (simp add: rserv_loop.simps tag_sizes)
next
  case (Cons t tags)
  then have t: "length t = 28" "fst (check_tag SHA256 m (replicate 16 0) privkey t tool_context) = 0"
    by simp_all
  have "rserv_loop SHA256 m privkey (concat (t # tags)) a b =
      rserv_loop SHA256 m privkey (concat tags) (a + 1) b"
    using t by (subst rserv_loop.simps) (simp add: tag_sizes Let_def)
  with Cons show ?case by simp
qed

section \<open>Generators\<close>

text \<open>A non-zero residue and its negative are not both squares, since \<open>p\<close> is 3 modulo 4.\<close>

lemma not_both_squares:
  assumes "eqm prime_p (y\<^sup>2) z" "eqm prime_p (r\<^sup>2) (- z)" "\<not> prime_p dvd z"
  shows False
proof -
  define e :: nat where "e = 2 ^ 167 - 2 ^ 7 - 1"
  have odd: "odd e" by (simp add: e_def)
  have one: "eqm prime_p (w ^ e) 1" if "eqm prime_p (v\<^sup>2) w" "\<not> prime_p dvd w" for v w
  proof -
    have "\<not> prime_p dvd v"
      using that eqm_dvd_cong [OF that(1)] by (auto simp: prime_p_dvd_power)
    moreover have "(v\<^sup>2) ^ e = v ^ (2 ^ 168 - 2 ^ 8 - 2)"
      unfolding power_mult [symmetric] by (rule arg_cong [of _ _ "\<lambda>k. v ^ k"]) (simp add: e_def)
    ultimately have "eqm prime_p ((v\<^sup>2) ^ e) 1" using fermat_p by (simp only:)
    with eqm_power [OF that(1), of e] show ?thesis by (meson eqm_sym eqm_trans)
  qed
  have "eqm prime_p (z ^ e) 1" "eqm prime_p ((- z) ^ e) 1"
    using one [OF assms(1,3)] one [OF assms(2)] assms(3) by simp_all
  then have "eqm prime_p (z ^ e) 1" "eqm prime_p (- (z ^ e)) 1"
    using odd by simp_all
  from eqm_add [OF this] have "eqm prime_p 0 2" by simp
  then show False by (simp add: eqm_def prime_p_def)
qed

lemma curve_bval_literal: "curve_bval = 114301813541519167821195403070898020343878856329174"
  by (simp add: curve_bval_def curve_b_def)

lemma main_on_curve: "\<exists>r. eqm prime_p (r\<^sup>2) (2 ^ 3 - 3 * 2 + curve_bval)"
proof
  show "eqm prime_p (342581008510239659405023808572191026457361540109042\<^sup>2) (2 ^ 3 - 3 * 2 + curve_bval)"
    unfolding eqm_def prime_p_def curve_bval_literal by simp
qed

lemma minus_b_square: "eqm prime_p (153780321692872162569527073222283666804656881279974\<^sup>2) (- curve_bval)"
  unfolding eqm_def prime_p_def curve_bval_literal by simp

lemma twist_off_curve: "\<not> (\<exists>r. eqm prime_p (r\<^sup>2) (0 ^ 3 - 3 * 0 + curve_bval))"
proof
  assume "\<exists>r. eqm prime_p (r\<^sup>2) (0 ^ 3 - 3 * 0 + curve_bval)"
  then obtain r where "eqm prime_p (r\<^sup>2) curve_bval" by auto
  then show False
    by (rule not_both_squares [OF _ minus_b_square]) (simp add: curve_bval_literal prime_p_def)
qed

section \<open>Properties\<close>

text \<open>The station accepts a tag exactly when its last seven bytes are the start of the hash of
  the shared secret and the context; it then hands out the last sixteen bytes of the hash as key,
  and otherwise leaves the key alone and returns 1.\<close>

lemma check_tag_accepts:
  "check_tag SHA256 m key privkey tag context =
    (let h = SHA256 (pointmul m 0 tag privkey @ context)
     in if take 7 (drop 21 tag) = take 7 h then (0, take 16 (drop 16 h)) else (1, key))"
  by (rule check_tag_eq)

text \<open>C7: a tag that a client generates is accepted by the station that holds the private key, and both
  sides derive the same key, whenever the two orders of multiplication give the same point
  (Diffie-Hellman).\<close>

theorem gen_check_tag:
  assumes "pointmul m' 0 (pointmul m 0 (tag_gen K rand1) seckey) privkey =
      pointmul m 1 (tag_pub K rand1) seckey"
  shows "check_tag SHA256 m' key privkey (fst (gen_tag SHA256 m K rand1 seckey context)) context =
    (0, snd (gen_tag SHA256 m K rand1 seckey context))"
  by (rule check_gen_tag [OF assms])

theorem gen_check_tag_witness:
  "let m = (\<lambda>i. (0, (0, 0, 0))); k = replicate 21 9; g = (replicate 21 0)[0 := 2];
       K = \<lparr>maingen = g, twistgen = replicate 21 0, mainpub = pointmul m 1 g k, twistpub = []\<rparr>
   in check_tag (\<lambda>x. replicate 32 5) m [] k (fst (gen_tag (\<lambda>x. replicate 32 5) m K 0 k [1])) [1] =
      (0, snd (gen_tag (\<lambda>x. replicate 32 5) m K 0 k [1]))"
  unfolding Let_def
  by (rule gen_check_tag) (simp add: tag_gen_def tag_pub_def pointmul_def)

text \<open>C29: the three tools together. The key files that \<open>genkeys\<close> writes and the file of tags that
  \<open>rclient\<close> writes are read back by \<open>rserv\<close>, which counts every tag as tagged and none as untagged,
  when the two orders of multiplication agree for every draw.\<close>

theorem tag_pipeline:
  assumes "\<And>x. length (SHA256 x) = 32"
    and "genkeys_main m0 random = Inr (privfile, pubfile)"
    and "\<forall>(rand1, seckey)\<in>set draws. let i = (if rand1 AND 1 \<noteq> 0 then 1 else 0);
           g = (if rand1 AND 1 \<noteq> 0 then replicate 21 0 else (replicate 21 0)[0 := 2])
         in pointmul m2 0 (pointmul m1 0 g seckey) privfile = pointmul m1 1 (pointmul m0 i g privfile) seckey"
  shows "\<exists>tags. rclient_main SHA256 m1 (Some pubfile) draws K = Inr tags \<and>
    rserv_main SHA256 m2 (Some privfile) (Some tags) = Inr (int (length draws), 0)"
proof -
  define g h :: bytes where "g = (replicate 21 0)[0 := 2]" and "h = replicate 21 0"
  have priv: "length privfile = 21" and pub: "pubfile = pointmul m0 0 g privfile @ pointmul m0 1 h privfile"
    using assms(2) by (auto simp: genkeys_main_def tag_sizes Let_def g_def h_def split: if_splits)
  define K' where "K' = K \<lparr>maingen := g, twistgen := h, mainpub := pointmul m0 0 g privfile,
      twistpub := pointmul m0 1 h privfile\<rparr>"
  define tags where "tags = map (\<lambda>(rand1, seckey). fst (gen_tag SHA256 m1 K' rand1 seckey tool_context)) draws"
  have "rclient_main SHA256 m1 (Some pubfile) draws K = Inr (concat tags)"
    by (simp add: rclient_main_def tag_load_pubkey_def pub tag_sizes tags_def K'_def g_def h_def Let_def)
  moreover have "length t = 28 \<and> fst (check_tag SHA256 m2 (replicate 16 0) privfile t tool_context) = 0"
    if "t \<in> set tags" for t
  proof -
    from that obtain r s where d: "(r, s) \<in> set draws" and t: "t = fst (gen_tag SHA256 m1 K' r s tool_context)"
      unfolding tags_def by auto
    have "pointmul m2 0 (pointmul m1 0 (tag_gen K' r) s) privfile = pointmul m1 1 (tag_pub K' r) s"
      using assms(3) d by (auto simp: K'_def tag_gen_def tag_pub_def g_def h_def Let_def split: if_splits)
    from check_gen_tag [OF this] show ?thesis
      unfolding t using length_gen_tag [OF assms(1)] by simp
  qed
  then have "rserv_main SHA256 m2 (Some privfile) (Some (concat tags)) = Inr (int (length draws), 0)"
    using rserv_loop_tags [of tags SHA256 m2 privfile 0 0] priv
    by (simp add: rserv_main_def tag_load_privkey_def tag_sizes) (simp add: tags_def)
  ultimately show ?thesis by blast
qed

theorem tag_pipeline_witness:
  "let m = (\<lambda>i. (0, (0, 0, 0))); k = replicate 21 9 in
   \<exists>pubfile tags. genkeys_main m k = Inr (k, pubfile) \<and>
     rclient_main (\<lambda>x. replicate 32 5) m (Some pubfile) [(0, k), (1, k)]
       \<lparr>maingen = [], twistgen = [], mainpub = [], twistpub = []\<rparr> = Inr tags \<and>
     rserv_main (\<lambda>x. replicate 32 5) m (Some k) (Some tags) = Inr (2, 0)"
proof -
  define m where "m = (\<lambda>i :: nat. (0 :: byte, (0, 0, 0) :: coord))"
  define k :: bytes where "k = replicate 21 9"
  have m: "pointmul m (Suc 0) x y = pointmul m 0 x y" for x y by (simp add: pointmul_def m_def)
  obtain pubfile where g: "genkeys_main m k = Inr (k, pubfile)"
    by (simp add: genkeys_main_def tag_sizes k_def Let_def)
  have "\<exists>tags. rclient_main (\<lambda>x. replicate 32 5) m (Some pubfile) [(0, k), (1, k)]
       \<lparr>maingen = [], twistgen = [], mainpub = [], twistpub = []\<rparr> = Inr tags \<and>
     rserv_main (\<lambda>x. replicate 32 5) m (Some k) (Some tags) = Inr (int (length [(0 :: byte, k), (1, k)]), 0)"
    by (rule tag_pipeline [OF _ g]) (auto simp: Let_def m)
  with g show ?thesis unfolding Let_def m_def k_def by simp
qed

text \<open>The two generators that \<open>tag_init\<close> and \<open>genkeys\<close> use are on the two curves they stand for: the
  abscissa 2 lifts to a point of the curve, the abscissa 0 to a point of the twist.\<close>

lemma generators_lift:
  "curve_point curve_bval (fst (ptwist_lift (bin21_to_felem past (maingen (tag_init K))))) \<and>
   \<not> snd (ptwist_lift (bin21_to_felem past (maingen (tag_init K)))) \<and>
   curve_point (- curve_bval) (fst (ptwist_lift (bin21_to_felem past (twistgen (tag_init K))))) \<and>
   snd (ptwist_lift (bin21_to_felem past (twistgen (tag_init K))))"
proof -
  have "(replicate 21 0)[0 := 2] = (2 :: byte) # replicate 20 0" by (simp add: numeral_eq_Suc)
  then have "le_val (maingen (tag_init K)) = 2" by (simp add: tag_init_def tag_sizes le_val_zeros)
  then have "red (bin21_to_felem past (maingen (tag_init K))) 2"
    using fval_bin21_to_felem [of "maingen (tag_init K)" past]
    by (simp add: tag_init_def tag_sizes red_def)
  note l = ptwist_lift_cases [OF this]
  have "red (bin21_to_felem past (twistgen (tag_init K))) 0"
    using fval_bin21_to_felem [of "twistgen (tag_init K)" past]
    by (simp add: tag_init_def tag_sizes red_def le_val_zeros)
  note l' = ptwist_lift_cases [OF this]
  show ?thesis
    using l l' main_on_curve twist_off_curve by (auto simp: Let_def split: prod.splits)
qed

end
