(* ===== verification/Client_Ssl.thy ===== *)
theory Client_Ssl
  imports Tag Ssl_Api
begin

text \<open>
  TLS set-up of the client: \<open>src/telex-client/ssl.c\<close>, built without \<open>PUBKEY_DATA_\<close>. A connection's
  client random is the time followed by a tag, and its Diffie-Hellman exponent is derived from the
  tag's secret. The results of OpenSSL, the time and the random bytes are arguments.
\<close>

section \<open>Definitions\<close>

record telex_conf =
  notblocked_host :: string
  notblocked_port :: int
  ca_list :: string
  keyfile :: string
  dns_base :: bool
  ssl_ctx :: bool
  count_tunnels :: u32
  count_open_tunnels :: u32

text \<open>\<open>ssl_log_errors\<close> empties OpenSSL's queue of errors, given as a list, and counts them.\<close>

fun ssl_log_errors :: "nat list \<Rightarrow> nat \<Rightarrow> nat" where
  "ssl_log_errors [] count = count"
| "ssl_log_errors (err # errs) count = (if err = 0 then count else ssl_log_errors errs (count + 1))"

text \<open>\<open>ssl_init\<close>: the result of \<open>RAND_poll\<close>, whether the context can be created and the certificates be
  loaded, and the contents of the key file. An unreadable key file ends the process.\<close>

definition ssl_init ::
  "int \<Rightarrow> bool \<Rightarrow> bool \<Rightarrow> bytes option \<Rightarrow> telex_conf \<Rightarrow> tag_keys \<Rightarrow> exit_error + int \<times> telex_conf \<times> tag_keys" where
  "ssl_init rand_poll ctx_new load_cas keyfile_bytes conf K =
     (if ssl_ctx conf then Inr (0, conf, K)
      else if rand_poll = 0 then Inr (- 1, conf, K)
      else let conf = conf \<lparr>ssl_ctx := ctx_new\<rparr>
           in if \<not> ctx_new then Inr (- 1, conf, K)
              else if \<not> load_cas then Inr (- 1, conf, K)
              else and_then (tag_load_pubkey keyfile_bytes (tag_init K)) (\<lambda>K. Inr (0, conf, K)))"

text \<open>Whether \<open>ssl_done\<close> frees the context.\<close>

definition ssl_done :: "telex_conf \<Rightarrow> bool" where
  "ssl_done conf \<longleftrightarrow> ssl_ctx conf"

text \<open>The client's own copy of the key derivation.\<close>

definition prg_label :: bytes where
  "prg_label = [0x54, 0x65, 0x6c, 0x65, 0x78, 0x20, 0x50, 0x52, 0x47]"

fun client_key_blocks :: "(bytes \<Rightarrow> bytes \<Rightarrow> bytes) \<Rightarrow> bytes \<Rightarrow> bytes \<Rightarrow> u32 list \<Rightarrow> bytes \<Rightarrow> bytes option" where
  "client_key_blocks hmac secret buf [] out = Some buf"
| "client_key_blocks hmac secret buf (i # is) out =
     (let out = hmac secret (out @ prg_label @ le_bytes 4 i)
      in if length out \<noteq> SHA256_DIGEST_LENGTH then None
         else client_key_blocks hmac secret (buf @ out) is out)"

definition client_dh_key :: "(bytes \<Rightarrow> bytes \<Rightarrow> bytes) \<Rightarrow> bytes \<Rightarrow> int option" where
  "client_dh_key hmac state_secret =
     (case client_key_blocks hmac (take 16 state_secret) [] [0, 1, 2, 3] [] of
        None \<Rightarrow> None
      | Some buf \<Rightarrow> Some (be_val (buf[0 := (buf ! 0 OR push_bit 6 1) AND 0x7f])))"

record telex_crypto =
  tc_tag :: bytes
  tc_secret :: bytes
  telex_client_random :: bytes
  telex_dh_priv_key :: int

text \<open>\<open>ssl_new_telex\<close>: \<open>None\<close> when the key derivation fails its assertion, \<open>Some (- 1, _)\<close> when the SSL
  object cannot be created.\<close>

definition tag_context :: "u32 \<Rightarrow> u32 \<Rightarrow> bytes" where
  "tag_context server_ip time = le_bytes 4 server_ip @ be_bytes 4 time @ [0]"

definition ssl_new_telex ::
  "hash \<Rightarrow> (bytes \<Rightarrow> bytes \<Rightarrow> bytes) \<Rightarrow> stack \<Rightarrow> tag_keys \<Rightarrow> byte \<Rightarrow> bytes \<Rightarrow> u32 \<Rightarrow> bool \<Rightarrow> u32 \<Rightarrow> telex_crypto \<Rightarrow>
    (int \<times> telex_crypto) option" where
  "ssl_new_telex SHA256 hmac m K rand1 seckey time ssl_new server_ip c =
     (if \<not> ssl_new then Some (- 1, c)
      else case gen_tag SHA256 m K rand1 seckey (tag_context server_ip time) of
        (tag, secret) \<Rightarrow>
          (case client_dh_key hmac secret of
             None \<Rightarrow> None
           | Some priv \<Rightarrow> Some (0, \<lparr>tc_tag = tag, tc_secret = secret,
               telex_client_random = be_bytes 4 time @ tag, telex_dh_priv_key = priv\<rparr>)))"

section \<open>The two key derivations\<close>

lemma client_key_blocks_eq:
  "client_key_blocks hmac secret buf (map word_of_nat [i..<i + n]) out =
     map_option (\<lambda>b. buf @ b) (dh_key_loop hmac secret i n out)"
proof (induction n arbitrary: i buf out)
  case (Suc n)
  have l: "map (word_of_nat :: nat \<Rightarrow> u32) [i..<i + Suc n] = word_of_nat i # map word_of_nat [Suc i..<Suc i + n]"
    by (simp add: upt_conv_Cons del: upt_Suc)
  have "client_key_blocks hmac secret buf (map word_of_nat [i..<i + Suc n]) out =
      (let out = hmac secret (out @ uniq @ le_bytes 4 (word_of_nat i :: u32))
       in if length out \<noteq> SHA256_DIGEST_LENGTH then None
          else client_key_blocks hmac secret (buf @ out) (map word_of_nat [Suc i..<Suc i + n]) out)"
    unfolding l client_key_blocks.simps by (simp add: prg_label_def uniq_def)
  then show ?case by (simp only: Suc.IH dh_key_loop.simps) (auto simp: Let_def option.map_comp comp_def intro: option.map_cong)
qed simp

lemma client_dh_key_eq: "client_dh_key hmac secret = telex_ssl_get_dh_key hmac secret"
proof -
  have u: "map word_of_nat [0..<0 + 4] = [0, 1, 2, 3 :: u32]" by (simp add: upt_conv_Cons)
  have "client_key_blocks hmac (take 16 secret) [] [0, 1, 2, 3] [] = dh_key_loop hmac (take 16 secret) 0 4 []"
    using client_key_blocks_eq [of hmac "take 16 secret" "[]" 0 4 "[]", unfolded u] by (simp only: option.map_ident append_Nil)
  moreover have "buf[0 := (buf ! 0 OR x) AND y] = (buf[0 := buf ! 0 OR x])[0 := buf[0 := buf ! 0 OR x] ! 0 AND y]"
    for buf :: bytes and x y by (cases buf) simp_all
  ultimately show ?thesis
    by (simp add: client_dh_key_def telex_ssl_get_dh_key_def SHA256_DIGEST_LENGTH_def Let_def split: option.split)
qed

section \<open>The client hello\<close>

lemma length_gen_tag_7: "(\<forall>x. 7 \<le> length (SHA256 x)) \<Longrightarrow> length (fst (gen_tag SHA256 m K r s c)) = 28"
  by (simp add: gen_tag_def Let_def tag_sizes)

text \<open>The 28 bytes after the time are the tag, and the station recovers the secret from them.\<close>

lemma check_new_telex:
  assumes "pointmul m' 0 (pointmul m 0 (tag_gen K rand1) seckey) privkey = pointmul m 1 (tag_pub K rand1) seckey"
    and "ssl_new_telex SHA256 hmac m K rand1 seckey time True server_ip c0 = Some (0, c)"
  shows "check_tag SHA256 m' key privkey (drop 4 (telex_client_random c)) (tag_context server_ip time) = (0, tc_secret c)"
    and "Some (telex_dh_priv_key c) = telex_ssl_get_dh_key hmac (tc_secret c)"
proof -
  obtain tag secret where t: "gen_tag SHA256 m K rand1 seckey (tag_context server_ip time) = (tag, secret)"
    by fastforce
  with assms(2) obtain priv where p: "client_dh_key hmac secret = Some priv"
    "c = \<lparr>tc_tag = tag, tc_secret = secret, telex_client_random = be_bytes 4 time @ tag, telex_dh_priv_key = priv\<rparr>"
    by (auto simp: ssl_new_telex_def split: option.splits)
  show "check_tag SHA256 m' key privkey (drop 4 (telex_client_random c)) (tag_context server_ip time) = (0, tc_secret c)"
    using check_gen_tag [OF assms(1), of SHA256 key "tag_context server_ip time"] t p(2) by simp
  show "Some (telex_dh_priv_key c) = telex_ssl_get_dh_key hmac (tc_secret c)"
    using p by (simp add: client_dh_key_eq)
qed

lemma new_telex_some:
  assumes "\<forall>k m. length (hmac k m) = SHA256_DIGEST_LENGTH"
  shows "\<exists>c. ssl_new_telex SHA256 hmac m K rand1 seckey time True server_ip c0 = Some (0, c)"
proof -
  obtain tag secret where t: "gen_tag SHA256 m K rand1 seckey (tag_context server_ip time) = (tag, secret)"
    by fastforce
  obtain n where "client_dh_key hmac secret = Some n" using dh_key_some [OF assms] client_dh_key_eq by metis
  with t show ?thesis by (simp add: ssl_new_telex_def)
qed

lemma new_telex_parts:
  assumes "ssl_new_telex SHA256 hmac m K rand1 seckey time True server_ip c0 = Some (0, c)" "\<forall>x. length (SHA256 x) = 32"
  shows "\<exists>tag. telex_client_random c = be_bytes 4 time @ tag \<and> length tag = 28" "length (tc_secret c) = 16"
    "client_dh_key hmac (tc_secret c) = Some (telex_dh_priv_key c)"
proof -
  obtain tag secret where t: "gen_tag SHA256 m K rand1 seckey (tag_context server_ip time) = (tag, secret)"
    by fastforce
  with assms(1) obtain priv where p: "client_dh_key hmac secret = Some priv"
    "c = \<lparr>tc_tag = tag, tc_secret = secret, telex_client_random = be_bytes 4 time @ tag, telex_dh_priv_key = priv\<rparr>"
    by (auto simp: ssl_new_telex_def split: option.splits)
  have "length tag = 28" using length_gen_tag_7 [of SHA256 m K rand1 seckey "tag_context server_ip time"] assms(2) t by simp
  then show "\<exists>tag. telex_client_random c = be_bytes 4 time @ tag \<and> length tag = 28" using p(2) by simp
  show "length (tc_secret c) = 16" using t p(2) assms(2) by (auto simp: gen_tag_def Let_def)
  show "client_dh_key hmac (tc_secret c) = Some (telex_dh_priv_key c)" using p by simp
qed

section \<open>Properties\<close>

text \<open>C5: client and station agree. From the client random of a hello, the station recovers with its
  private key the secret of the tag, and from it the client's Diffie-Hellman exponent; so it computes
  the premaster secret that the server computes from the client's public value \<open>g ^ x mod p\<close>. It is
  assumed that the two orders of point multiplication agree, and that \<open>DH_compute_key\<close> encodes the
  power of the peer's public value.\<close>

theorem station_learns_premaster:
  assumes "pointmul m' 0 (pointmul m 0 (tag_gen K rand1) seckey) privkey = pointmul m 1 (tag_pub K rand1) seckey"
    and "ssl_new_telex SHA256 hmac m K rand1 seckey time True server_ip c0 = Some (0, c)"
    and "\<forall>p x y. dh_compute p x y = Some (enc (y ^ nat x mod p))"
  shows "\<exists>secret x. check_tag SHA256 m' key privkey (drop 4 (telex_client_random c)) (tag_context server_ip time) = (0, secret) \<and>
    telex_ssl_get_dh_key hmac secret = Some x \<and> x = telex_dh_priv_key c \<and>
    telex_get_shared_secret True dh_compute x p (g ^ b mod p) =
      (int (length (enc ((g ^ nat x mod p) ^ b mod p))), enc ((g ^ nat x mod p) ^ b mod p))"
proof -
  have "telex_get_shared_secret True dh_compute x p (g ^ b mod p) =
      (int (length (enc ((g ^ nat x mod p) ^ b mod p))), enc ((g ^ nat x mod p) ^ b mod p))" for x
    using assms(3) by (simp add: telex_get_shared_secret_def dh_commute [of g "nat x" p b])
  then show ?thesis using check_new_telex [OF assms(1,2)] by metis
qed

theorem station_learns_premaster_witness:
  "let m = (\<lambda>i. (0, (0, 0, 0))); k = replicate 21 9; g = (replicate 21 0)[0 := 2];
       K = \<lparr>maingen = g, twistgen = replicate 21 0, mainpub = pointmul m 1 g k, twistpub = []\<rparr>;
       hmac = (\<lambda>k m. take 32 (k @ m @ replicate 32 0)); SHA256 = (\<lambda>x. replicate 32 5)
   in \<exists>c secret x. ssl_new_telex SHA256 hmac m K 0 k 1000 True 0x0100007f
        \<lparr>tc_tag = [], tc_secret = [], telex_client_random = [], telex_dh_priv_key = 0\<rparr> = Some (0, c) \<and>
      check_tag SHA256 m [] k (drop 4 (telex_client_random c)) (tag_context 0x0100007f 1000) = (0, secret) \<and>
      telex_ssl_get_dh_key hmac secret = Some x \<and> x = telex_dh_priv_key c"
proof -
  define m :: stack where "m = (\<lambda>i. (0, (0, 0, 0)))"
  define k :: bytes where "k = replicate 21 9"
  define g :: bytes where "g = (replicate 21 0)[0 := 2]"
  define K where "K = \<lparr>maingen = g, twistgen = replicate 21 0, mainpub = pointmul m 1 g k, twistpub = []\<rparr>"
  define hmac :: "bytes \<Rightarrow> bytes \<Rightarrow> bytes" where "hmac = (\<lambda>k m. take 32 (k @ m @ replicate 32 0))"
  define h :: "bytes \<Rightarrow> bytes" where "h = (\<lambda>x. replicate 32 5)"
  define c0 where "c0 = \<lparr>tc_tag = [], tc_secret = [], telex_client_random = [], telex_dh_priv_key = 0\<rparr>"
  have eq: "pointmul m 0 (pointmul m 0 (tag_gen K 0) k) k = pointmul m 1 (tag_pub K 0) k"
    by (simp add: tag_gen_def tag_pub_def pointmul_def K_def m_def)
  have "\<forall>k m. length (hmac k m) = SHA256_DIGEST_LENGTH" by (auto simp: hmac_def SHA256_DIGEST_LENGTH_def min_def)
  from new_telex_some [OF this] obtain c where
    c: "ssl_new_telex h hmac m K 0 k 1000 True 0x0100007f c0 = Some (0, c)" by blast
  from station_learns_premaster [OF eq c, of "\<lambda>p x y. Some [word_of_int (y ^ nat x mod p)]" "\<lambda>v. [word_of_int v]" "[]"] c
  show ?thesis
    unfolding Let_def m_def [symmetric] k_def [symmetric] g_def [symmetric] K_def [symmetric] hmac_def [symmetric]
      h_def [symmetric] c0_def [symmetric]
    by blast
qed



end
