(* ===== verification/Client_Log.thy ===== *)
theory Client_Log
  imports Flow_Blocker
begin

text \<open>
  Logging and small helpers of the client: \<open>src/telex-client/logger.c\<close> (built without \<open>NOLOG\<close>) and
  \<open>util.c\<close>. A log line is the text written to the stream; its time stamp is an argument, as are the
  message after formatting and the results of the clock. Memory is written out byte by byte where
  \<open>HexDump\<close> does so.
\<close>

section \<open>Log lines\<close>

definition LOG_FATAL :: nat where "LOG_FATAL = 0"
definition LOG_ERROR :: nat where "LOG_ERROR = 1"
definition LOG_WARN :: nat where "LOG_WARN = 2"
definition LOG_INFO :: nat where "LOG_INFO = 3"
definition LOG_DEBUG :: nat where "LOG_DEBUG = 4"
definition LOG_TRACE :: nat where "LOG_TRACE = 5"

record logger =
  log_output_level :: nat
  log_output_stream :: bool

definition logger_0 :: logger where
  "logger_0 = \<lparr>log_output_level = LOG_INFO, log_output_stream = False\<rparr>"

definition log_level_name :: "string list" where
  "log_level_name = [''FATAL'', ''ERROR'', ''WARN '', ''INFO '', ''DEBUG'', ''TRACE'']"

text \<open>The level is compared with the size of the table in bytes, eight for each entry: levels from 6 to 47
  read past its end, which is the result \<open>None\<close>.\<close>

definition level_name :: "nat \<Rightarrow> string option" where
  "level_name level =
     (if level \<ge> 8 * length log_level_name then Some ''UNKNOWN''
      else if level < length log_level_name then Some (log_level_name ! level)
      else None)"

definition LogLogVA :: "logger \<Rightarrow> string \<Rightarrow> nat \<Rightarrow> string option \<Rightarrow> string option \<Rightarrow> string option" where
  "LogLogVA lg timestamp level loggerName logMessage =
     (if log_output_stream lg \<and> level \<le> log_output_level lg
      then case level_name level of
             None \<Rightarrow> None
           | Some levelName \<Rightarrow>
               Some (timestamp @ '' ['' @ levelName @ ''] '' @
                 (case loggerName of None \<Rightarrow> [] | Some n \<Rightarrow> n @ '': '') @
                 (case logMessage of None \<Rightarrow> [] | Some t \<Rightarrow> t) @
                 (if loggerName \<noteq> None \<or> logMessage \<noteq> None then [char_of (10 :: nat)] else []))
      else Some [])"

definition LogOutputStream :: "bool \<Rightarrow> logger \<Rightarrow> logger" where
  "LogOutputStream stream lg = lg \<lparr>log_output_stream := stream\<rparr>"

definition LogOutputLevel :: "nat \<Rightarrow> logger \<Rightarrow> logger" where
  "LogOutputLevel level lg = lg \<lparr>log_output_level := level\<rparr>"

definition LogLog :: "logger \<Rightarrow> string \<Rightarrow> nat \<Rightarrow> string \<Rightarrow> string \<Rightarrow> string option" where
  "LogLog lg ts level name message = LogLogVA lg ts level (Some name) (Some message)"

definition LogFatal :: "logger \<Rightarrow> string \<Rightarrow> string \<Rightarrow> string \<Rightarrow> string option" where
  "LogFatal lg ts name message = LogLogVA lg ts LOG_FATAL (Some name) (Some message)"

definition LogError :: "logger \<Rightarrow> string \<Rightarrow> string \<Rightarrow> string \<Rightarrow> string option" where
  "LogError lg ts name message = LogLogVA lg ts LOG_ERROR (Some name) (Some message)"

definition LogWarn :: "logger \<Rightarrow> string \<Rightarrow> string \<Rightarrow> string \<Rightarrow> string option" where
  "LogWarn lg ts name message = LogLogVA lg ts LOG_WARN (Some name) (Some message)"

definition LogInfo :: "logger \<Rightarrow> string \<Rightarrow> string \<Rightarrow> string \<Rightarrow> string option" where
  "LogInfo lg ts name message = LogLogVA lg ts LOG_INFO (Some name) (Some message)"

definition LogDebug :: "logger \<Rightarrow> string \<Rightarrow> string \<Rightarrow> string \<Rightarrow> string option" where
  "LogDebug lg ts name message = LogLogVA lg ts LOG_DEBUG (Some name) (Some message)"

definition LogTrace :: "logger \<Rightarrow> string \<Rightarrow> string \<Rightarrow> string \<Rightarrow> string option" where
  "LogTrace lg ts name message = LogLogVA lg ts LOG_TRACE (Some name) (Some message)"

section \<open>Hexadecimal dumps\<close>

definition dump_char :: "byte \<Rightarrow> char" where
  "dump_char c = (if 32 \<le> c \<and> c \<le> 126 then char_of (unat c) else CHR ''.'')"

text \<open>\<open>snprintf\<close> with room for three bytes stores the two digits and a terminator.\<close>

definition dump_digits :: "byte \<Rightarrow> string" where
  "dump_digits b = [hex_digit (unat b div 16), hex_digit (unat b mod 16), char_of (0 :: nat)]"

definition dump_row :: "bytes \<Rightarrow> nat \<Rightarrow> string" where
  "dump_row data i =
     (let n = min 16 (length data - i)
      in concat (map dump_digits (take n (drop i data))) @ concat (replicate (17 - n) ''   '') @
         map dump_char (take n (drop i data)) @ (if i + 16 < length data then [char_of (10 :: nat)] else []))"

function dump_rows :: "bytes \<Rightarrow> nat \<Rightarrow> string" where
  "dump_rows data i = (if i < length data then dump_row data i @ dump_rows data (i + 16) else [])"
  by pat_completeness auto
termination
  by (relation "measure (\<lambda>(data, i). length data - i)") auto

declare dump_rows.simps [simp del]

definition dump_header :: "string \<Rightarrow> bytes \<Rightarrow> string" where
  "dump_header message data = message @ '' ('' @ show_nat (length data) @ '' bytes)'' @ [char_of (10 :: nat)]"

text \<open>The bytes written into the buffer, and the line logged: the buffer is a C string.\<close>

definition dump_buffer :: "string \<Rightarrow> bytes \<Rightarrow> string" where
  "dump_buffer message data = dump_header message data @ dump_rows data 0 @ [char_of (0 :: nat)]"

definition HexDump :: "logger \<Rightarrow> string \<Rightarrow> nat \<Rightarrow> string \<Rightarrow> string \<Rightarrow> bytes \<Rightarrow> string option" where
  "HexDump lg ts level loggerName message data =
     LogLog lg ts level loggerName (takeWhile (\<lambda>c. c \<noteq> char_of (0 :: nat)) (dump_buffer message data))"

section \<open>Helpers\<close>

text \<open>\<open>address_to_string\<close> stores at most \<open>outlen - 1\<close> characters.\<close>

definition address_to_string :: "u32 \<Rightarrow> u16 \<Rightarrow> nat \<Rightarrow> string" where
  "address_to_string sin_addr sin_port outlen =
     take (outlen - 1) (inet_ntop sin_addr @ '':'' @ show_nat (unat (ntohs sin_port)))"

definition time_ms :: "u64 \<Rightarrow> u64 \<Rightarrow> u64" where
  "time_ms tv_sec tv_usec = tv_sec * 1000 + tv_usec div 1000"

section \<open>Lemmas\<close>

lemma level_name_known: "level \<le> LOG_TRACE \<Longrightarrow> level_name level \<noteq> None"
  by (simp add: level_name_def log_level_name_def LOG_TRACE_def)

lemma length_dump_digits [simp]: "length (dump_digits b) = 3"
  by (simp add: dump_digits_def)

lemma length_dump_concat [simp]: "length (concat (map dump_digits xs)) = 3 * length xs"
  by (induction xs) simp_all

lemma length_spaces [simp]: "length (concat (replicate n ''   '')) = 3 * n"
  by (induction n) simp_all

lemma length_dump_row:
  "i < length data \<Longrightarrow> length (dump_row data i) =
     51 + min 16 (length data - i) + (if i + 16 < length data then 1 else 0)"
  by (cases "16 \<le> length data - i") (auto simp: dump_row_def Let_def min_def)

lemma length_dump_rows: "16 * length (dump_rows data i) \<le> 68 * (length data - i) + (if i < length data then 780 else 0)"
proof (induction data i rule: dump_rows.induct)
  case (1 data i)
  show ?case
  proof (cases "i < length data")
    case True
    then have "dump_rows data i = dump_row data i @ dump_rows data (i + 16)" by (simp add: dump_rows.simps)
    with 1 True length_dump_row [OF True] show ?thesis by (auto simp: min_def split: if_splits)
  next
    case False
    then show ?thesis by (simp add: dump_rows.simps)
  qed
qed

lemma dump_buffer_bound:
  assumes "length data < 10 ^ 9"
  shows "length (dump_buffer message data) \<le> length message + length data * 5 + 70"
proof (cases "data = []")
  case True
  have "length (show_nat 0) \<le> 1" by (rule length_show_nat) simp_all
  with True show ?thesis by (simp add: dump_buffer_def dump_header_def dump_rows.simps)
next
  case False
  then have "0 < length data" by simp
  moreover have "length (show_nat (length data)) \<le> 9" using assms by (intro length_show_nat) simp_all
  ultimately show ?thesis using length_dump_rows [of data 0]
    by (simp add: dump_buffer_def dump_header_def)
qed

text \<open>No character of the header or of a digit is a terminator.\<close>

lemma char_of_nonzero: "0 < n \<Longrightarrow> n < 256 \<Longrightarrow> char_of n \<noteq> (char_of (0 :: nat) :: char)" for n :: nat
  by (metis less_irrefl mod_less of_char_of zero_less_numeral)

lemma char_of_0: "char_of (0 :: nat) = CHR 0x00"
  by (simp add: char_of_def)

lemma show_nat_nonzero: "char_of (0 :: nat) \<notin> set (show_nat n)"
proof (induction n rule: show_nat.induct)
  case (1 n)
  have "char_of (48 + n mod 10) \<noteq> (char_of (0 :: nat) :: char)"
    by (rule char_of_nonzero) (simp_all add: less_imp_le_nat [THEN le_less_trans])
  moreover have "n < 10 \<Longrightarrow> char_of (48 + n) \<noteq> (char_of (0 :: nat) :: char)"
    by (rule char_of_nonzero) simp_all
  ultimately show ?case using 1 by (subst show_nat.simps) auto
qed

lemma hex_digit_nonzero: "n < 16 \<Longrightarrow> hex_digit n \<noteq> char_of (0 :: nat)"
  by (simp add: hex_digit_def char_of_nonzero)

section \<open>Properties\<close>



text \<open>The dump ends after the digits of the first byte: the terminator that \<open>snprintf\<close> stores behind them
  is not overwritten.\<close>

lemma HexDump_truncated:
  assumes "data \<noteq> []" "char_of (0 :: nat) \<notin> set message"
  shows "takeWhile (\<lambda>c. c \<noteq> char_of (0 :: nat)) (dump_buffer message data) =
    dump_header message data @ take 2 (dump_digits (hd data))"
proof -
  let ?P = "\<lambda>c. c \<noteq> char_of (0 :: nat)"
  obtain b bs where data: "data = b # bs" using assms(1) by (cases data) auto
  have "\<forall>c\<in>set (dump_header message data). ?P c"
    using assms(2) show_nat_nonzero [of "length data"] char_of_nonzero [of 10]
    by (auto simp: dump_header_def char_of_0)
  then have h: "takeWhile ?P (dump_header message data @ r) = dump_header message data @ takeWhile ?P r" for r
    by (simp add: takeWhile_append2)
  have "min 16 (length data - 0) = Suc (min 15 (length bs))" by (simp add: data)
  then have "\<exists>r. dump_rows data 0 = dump_digits b @ r"
    by (subst dump_rows.simps) (simp add: data dump_row_def Let_def)
  then obtain r where r: "dump_rows data 0 = dump_digits b @ r" ..
  have "unat b div 16 < 16" "unat b mod 16 < 16" using unsigned_less [of b, where 'a = nat] by simp_all
  then have "takeWhile ?P (dump_digits b @ x) = take 2 (dump_digits b)" for x
    by (simp add: dump_digits_def hex_digit_nonzero)
  moreover have "hd data = b" by (simp add: data)
  ultimately show ?thesis by (simp only: dump_buffer_def h r append_assoc)
qed

end
