(* ===== verification/Client_Proxy.thy ===== *)
theory Client_Proxy
  imports Client_Ssl Client_Log
begin

text \<open>
  The client: tunnels (\<open>src/telex-client/proxy.c\<close>), the listener (\<open>listener.c\<close>) and the command line
  (\<open>client.c\<close>). A tunnel relays between a local connection and a TLS connection to the server. It is
  represented with the two buffer events of libevent; the third one, below the TLS filter, and the
  SSL object are only counted. A buffer event records everything it has received (\<open>rx\<close>) and handed to
  its peer (\<open>tx\<close>) beside its two buffers. Log messages are left out here; the failed assertions of the
  resource counters are results.
\<close>

section \<open>Buffer events\<close>

datatype side = Local | Remote

datatype write_callback = Drained_write | Close_on_finished_write

record bufferevent =
  rx :: bytes
  tx :: bytes
  inbuf :: bytes
  outbuf :: bytes
  rd :: bool
  wr :: bool
  read_set :: bool
  write_set :: "write_callback option"
  event_set :: bool
  wm_low :: nat
  wm_high :: nat

definition bufferevent_new :: bufferevent where
  "bufferevent_new = \<lparr>rx = [], tx = [], inbuf = [], outbuf = [], rd = False, wr = True, read_set = False,
     write_set = None, event_set = False, wm_low = 0, wm_high = 0\<rparr>"

definition setcb :: "bool \<Rightarrow> write_callback option \<Rightarrow> bool \<Rightarrow> bufferevent \<Rightarrow> bufferevent" where
  "setcb r w ev b = b \<lparr>read_set := r, write_set := w, event_set := ev\<rparr>"

section \<open>Tunnels\<close>

record telex_state =
  tid :: u32
  start_ms :: u64
  local_bev :: "bufferevent option"
  remote_bev :: "bufferevent option"
  remotetcp :: bool
  in_local :: u64
  in_remote :: u64
  ts_ssl :: bool
  crypto :: telex_crypto
  resolving :: bool

fun bev :: "side \<Rightarrow> telex_state \<Rightarrow> bufferevent option" where
  "bev Local t = local_bev t"
| "bev Remote t = remote_bev t"

fun bev_update :: "side \<Rightarrow> (bufferevent \<Rightarrow> bufferevent) \<Rightarrow> telex_state \<Rightarrow> telex_state" where
  "bev_update Local f t = t \<lparr>local_bev := map_option f (local_bev t)\<rparr>"
| "bev_update Remote f t = t \<lparr>remote_bev := map_option f (remote_bev t)\<rparr>"

fun partner :: "side \<Rightarrow> side" where
  "partner Local = Remote"
| "partner Remote = Local"

fun count_in :: "side \<Rightarrow> nat \<Rightarrow> telex_state \<Rightarrow> telex_state" where
  "count_in Local len t = t \<lparr>in_local := in_local t + word_of_nat len\<rparr>"
| "count_in Remote len t = t \<lparr>in_remote := in_remote t + word_of_nat len\<rparr>"

definition MAX_OUTPUT_BUFFER :: nat where
  "MAX_OUTPUT_BUFFER = 512 * 1024"

text \<open>\<open>read_cb\<close> on the buffer event of one side.\<close>

definition read_cb :: "side \<Rightarrow> telex_state \<Rightarrow> telex_state" where
  "read_cb s t =
     (case bev s t of
        None \<Rightarrow> t
      | Some b \<Rightarrow>
          (let src = inbuf b;
               t = count_in s (length src) t;
               t = bev_update s (\<lambda>b. b \<lparr>inbuf := []\<rparr>) t
           in case bev (partner s) t of
                None \<Rightarrow> t
              | Some p \<Rightarrow>
                  (let dst = outbuf p @ src;
                       t = bev_update (partner s) (\<lambda>p. p \<lparr>outbuf := dst\<rparr>) t
                   in if length dst \<ge> MAX_OUTPUT_BUFFER
                      then bev_update s (\<lambda>b. b \<lparr>rd := False\<rparr>)
                             (bev_update (partner s) (\<lambda>p. (setcb True (Some Drained_write) True p)
                                \<lparr>wm_low := MAX_OUTPUT_BUFFER div 2, wm_high := MAX_OUTPUT_BUFFER\<rparr>) t)
                      else t)))"

definition drained_write_cb :: "side \<Rightarrow> telex_state \<Rightarrow> telex_state" where
  "drained_write_cb s t =
     bev_update (partner s) (\<lambda>p. p \<lparr>rd := True\<rparr>)
       (bev_update s (\<lambda>b. (setcb True None True b) \<lparr>wm_low := 0, wm_high := 0\<rparr>) t)"

text \<open>The next two functions return whether the tunnel is to be cleaned up.\<close>

definition close_on_finished_write_cb :: "side \<Rightarrow> telex_state \<Rightarrow> bool" where
  "close_on_finished_write_cb s t \<longleftrightarrow> (case bev s t of None \<Rightarrow> False | Some b \<Rightarrow> outbuf b = [])"

datatype bev_events = BEV_Events (connected: bool) (eof: bool) (err: bool)

definition flush_pending :: "side \<Rightarrow> telex_state \<Rightarrow> telex_state" where
  "flush_pending s t =
     (case bev s t of None \<Rightarrow> t | Some b \<Rightarrow> if inbuf b \<noteq> [] then read_cb s t else t)"

definition event_cb :: "side \<Rightarrow> bev_events \<Rightarrow> telex_state \<Rightarrow> bool \<times> telex_state" where
  "event_cb s ev t =
     (if connected ev
      then (False, bev_update Remote (\<lambda>b. b \<lparr>rd := True, wr := True\<rparr>)
                     (bev_update Local (\<lambda>b. b \<lparr>rd := True, wr := True\<rparr>) t))
      else if eof ev
      then case bev (partner s) t of
             None \<Rightarrow> (True, t)
           | Some p \<Rightarrow>
               (let t = flush_pending s t
                in case bev (partner s) t of
                     None \<Rightarrow> (True, t)
                   | Some p \<Rightarrow>
                       if outbuf p \<noteq> []
                       then (False, bev_update (partner s) (\<lambda>p. (setcb False (Some Close_on_finished_write) True p) \<lparr>rd := False\<rparr>) t)
                       else (True, t))
      else if err ev then (True, t)
      else (False, t))"

section \<open>The tunnels of a client\<close>

datatype client_fault = Counter_Negative | Key_Assertion

record client =
  conf :: telex_conf
  tunnels :: "nat \<Rightarrow> telex_state option"
  ref_BEV :: int
  ref_STATE :: int
  ref_SSL :: int

definition dec_BEV :: "bool \<Rightarrow> client \<Rightarrow> client_fault + client" where
  "dec_BEV present c =
     (if \<not> present then Inr c
      else if ref_BEV c - 1 < 0 then Inl Counter_Negative
      else Inr (c \<lparr>ref_BEV := ref_BEV c - 1\<rparr>))"

definition dec_SSL :: "bool \<Rightarrow> client \<Rightarrow> client_fault + client" where
  "dec_SSL present c =
     (if \<not> present then Inr c
      else if ref_SSL c - 1 < 0 then Inl Counter_Negative
      else Inr (c \<lparr>ref_SSL := ref_SSL c - 1\<rparr>))"

definition open_tunnels :: "(u32 \<Rightarrow> u32) \<Rightarrow> client \<Rightarrow> client" where
  "open_tunnels f c = c \<lparr>conf := (conf c) \<lparr>count_open_tunnels := f (count_open_tunnels (conf c))\<rparr>\<rparr>"

definition StateInit :: "u64 \<Rightarrow> nat \<Rightarrow> client \<Rightarrow> client" where
  "StateInit ms p c =
     (let c = c \<lparr>ref_STATE := ref_STATE c + 1\<rparr>;
          t = \<lparr>tid = count_tunnels (conf c), start_ms = ms, local_bev = None, remote_bev = None, remotetcp = False,
               in_local = 0, in_remote = 0, ts_ssl = False,
               crypto = \<lparr>tc_tag = replicate 28 0, tc_secret = replicate 16 0, telex_client_random = [], telex_dh_priv_key = 0\<rparr>,
               resolving = False\<rparr>;
          c = c \<lparr>conf := (conf c) \<lparr>count_tunnels := count_tunnels (conf c) + 1\<rparr>\<rparr>
      in (open_tunnels (\<lambda>n. n + 1) c) \<lparr>tunnels := (tunnels c)(p \<mapsto> t)\<rparr>)"

definition StateCleanup :: "nat \<Rightarrow> client \<Rightarrow> client_fault + client" where
  "StateCleanup p c =
     (case tunnels c p of
        None \<Rightarrow> Inr c
      | Some t \<Rightarrow>
          and_then (dec_BEV (local_bev t \<noteq> None) c) (\<lambda>c.
          and_then (dec_BEV (remote_bev t \<noteq> None) c) (\<lambda>c.
          and_then (dec_BEV (remotetcp t) c) (\<lambda>c.
          and_then (dec_SSL (ts_ssl t) c) (\<lambda>c.
            let c = open_tunnels (\<lambda>n. n - 1) c
            in if ref_STATE c - 1 < 0 then Inl Counter_Negative
               else Inr (c \<lparr>ref_STATE := ref_STATE c - 1, tunnels := (tunnels c)(p := None)\<rparr>))))))"

text \<open>\<open>proxy_accept_cb\<close>: whether the two buffer events can be created.\<close>

definition set_tunnel :: "nat \<Rightarrow> telex_state \<Rightarrow> client \<Rightarrow> client" where
  "set_tunnel p t c = c \<lparr>tunnels := (tunnels c)(p \<mapsto> t)\<rparr>"

definition proxy_accept_cb :: "u64 \<Rightarrow> bool \<Rightarrow> bool \<Rightarrow> nat \<Rightarrow> client \<Rightarrow> client_fault + client" where
  "proxy_accept_cb ms local_ok remotetcp_ok p c =
     (let c = StateInit ms p c
      in case tunnels c p of
           None \<Rightarrow> Inr c
         | Some t \<Rightarrow>
             if \<not> local_ok then StateCleanup p c
             else let t = t \<lparr>local_bev := Some bufferevent_new\<rparr>;
                      c = set_tunnel p t (c \<lparr>ref_BEV := ref_BEV c + 1\<rparr>)
                  in if \<not> remotetcp_ok then StateCleanup p c
                     else Inr (set_tunnel p (t \<lparr>remotetcp := True, resolving := True\<rparr>) (c \<lparr>ref_BEV := ref_BEV c + 1\<rparr>)))"

text \<open>\<open>proxy_notblocked_getaddrinfo_cb\<close>: \<open>ai\<close> is the address found, \<open>telex\<close> the result of
  \<open>ssl_new_telex\<close>, and \<open>remote_ok\<close> whether the TLS filter can be created.\<close>

definition proxy_notblocked_getaddrinfo_cb ::
  "u32 option \<Rightarrow> (u32 \<Rightarrow> telex_crypto \<Rightarrow> (int \<times> telex_crypto) option) \<Rightarrow> bool \<Rightarrow> nat \<Rightarrow> client \<Rightarrow> client_fault + client" where
  "proxy_notblocked_getaddrinfo_cb ai telex remote_ok p c =
     (case tunnels c p of
        None \<Rightarrow> Inr c
      | Some t \<Rightarrow>
          (let t = t \<lparr>resolving := False\<rparr>; c = set_tunnel p t c
           in case ai of
                None \<Rightarrow> StateCleanup p c
              | Some server_ip \<Rightarrow>
                  (case telex server_ip (crypto t) of
                     None \<Rightarrow> Inl Key_Assertion
                   | Some (r, k) \<Rightarrow>
                       if r < 0 then StateCleanup p c
                       else let t = t \<lparr>crypto := k, ts_ssl := True\<rparr>;
                                c = set_tunnel p t (c \<lparr>ref_SSL := ref_SSL c + 1\<rparr>)
                            in if \<not> remote_ok then StateCleanup p c
                               else let t = t \<lparr>remote_bev := Some (setcb True None True bufferevent_new),
                                              local_bev := map_option (setcb True None True) (local_bev t)\<rparr>
                                    in Inr (set_tunnel p t (c \<lparr>ref_BEV := ref_BEV c + 1\<rparr>)))))"

section \<open>The event loop\<close>

text \<open>Data arrives while reading is enabled; output is sent while writing is enabled; a read callback is
  called when there is input, a write callback when the output is not longer than the low-water mark.\<close>

definition receive :: "bytes \<Rightarrow> bufferevent \<Rightarrow> bufferevent" where
  "receive d b = b \<lparr>rx := rx b @ d, inbuf := inbuf b @ d\<rparr>"

definition transmit :: "nat \<Rightarrow> bufferevent \<Rightarrow> bufferevent" where
  "transmit n b = b \<lparr>tx := tx b @ take n (outbuf b), outbuf := drop n (outbuf b)\<rparr>"

text \<open>What can happen to one tunnel after it has been set up; \<open>None\<close> is its cleanup.\<close>

inductive tunnel_step :: "telex_state \<Rightarrow> telex_state option \<Rightarrow> bool" where
  recv: "bev s t = Some b \<Longrightarrow> rd b \<Longrightarrow> tunnel_step t (Some (bev_update s (receive d) t))"
| send: "bev s t = Some b \<Longrightarrow> wr b \<Longrightarrow> tunnel_step t (Some (bev_update s (transmit n) t))"
| read: "bev s t = Some b \<Longrightarrow> read_set b \<Longrightarrow> inbuf b \<noteq> [] \<Longrightarrow> tunnel_step t (Some (read_cb s t))"
| drained: "bev s t = Some b \<Longrightarrow> write_set b = Some Drained_write \<Longrightarrow> length (outbuf b) \<le> wm_low b \<Longrightarrow>
    tunnel_step t (Some (drained_write_cb s t))"
| finished: "bev s t = Some b \<Longrightarrow> write_set b = Some Close_on_finished_write \<Longrightarrow> length (outbuf b) \<le> wm_low b \<Longrightarrow>
    tunnel_step t (if close_on_finished_write_cb s t then None else Some t)"
| event: "bev s t = Some b \<Longrightarrow> event_set b \<Longrightarrow> event_cb s ev t = (cleanup, t') \<Longrightarrow>
    tunnel_step t (if cleanup then None else Some t')"

text \<open>All tunnels: \<open>T\<close> is the function that the client's calls of \<open>ssl_new_telex\<close> compute; its key derivation
  does not fail (\<open>dh_key_some\<close>).\<close>

inductive client_step ::
  "(u32 \<Rightarrow> telex_crypto \<Rightarrow> int \<times> telex_crypto) \<Rightarrow> client_fault + client \<Rightarrow> client_fault + client \<Rightarrow> bool" for T where
  accept: "tunnels c p = None \<Longrightarrow> client_step T (Inr c) (proxy_accept_cb ms lok rok p c)"
| resolved: "tunnels c p = Some t \<Longrightarrow> resolving t \<Longrightarrow>
    client_step T (Inr c) (proxy_notblocked_getaddrinfo_cb ai (\<lambda>ip k. Some (T ip k)) rok p c)"
| run: "tunnels c p = Some t \<Longrightarrow> \<not> resolving t \<Longrightarrow> tunnel_step t (Some t') \<Longrightarrow>
    client_step T (Inr c) (Inr (set_tunnel p t' c))"
| close: "tunnels c p = Some t \<Longrightarrow> \<not> resolving t \<Longrightarrow> tunnel_step t None \<Longrightarrow>
    client_step T (Inr c) (StateCleanup p c)"

section \<open>Listener and command line\<close>

text \<open>\<open>listener_init_local\<close>: the address bound, in network order, when the socket can be bound.\<close>

definition listener_init_local :: "int \<Rightarrow> bool \<Rightarrow> (u32 \<times> u16) option" where
  "listener_init_local port bound =
     (if bound then Some (le_word (be_bytes 4 (0x7f000001 :: u32)), le_word (be_bytes 2 (word_of_int port :: u16))) else None)"

text \<open>\<open>InitAndListenLoop\<close>: which of its objects can be created. It returns after the event loop.\<close>

definition InitAndListenLoop :: "bool \<Rightarrow> bool \<Rightarrow> bool \<Rightarrow> bool \<Rightarrow> int \<Rightarrow> telex_conf \<Rightarrow> int \<times> telex_conf" where
  "InitAndListenLoop base dns bound signal port cf =
     (if \<not> base then (1, cf)
      else let cf = cf \<lparr>dns_base := dns\<rparr>
           in if \<not> dns then (1, cf)
              else if listener_init_local port bound = None then (1, cf)
              else if \<not> signal then (1, cf)
              else (0, cf))"

definition telex_client_conf :: "int \<Rightarrow> string \<Rightarrow> string \<Rightarrow> string \<Rightarrow> telex_conf" where
  "telex_client_conf remote_port remote_host key cas =
     \<lparr>notblocked_host = remote_host, notblocked_port = remote_port, ca_list = cas, keyfile = key, dns_base = False,
      ssl_ctx = False, count_tunnels = 0, count_open_tunnels = 0\<rparr>"

text \<open>\<open>telex_client\<close>: its result, the logger, and whether the TLS context and the resolver are freed in the end.\<close>

definition telex_client ::
  "(telex_conf \<Rightarrow> exit_error + int \<times> telex_conf) \<Rightarrow> (int \<Rightarrow> telex_conf \<Rightarrow> int \<times> telex_conf) \<Rightarrow> logger \<Rightarrow>
    int \<Rightarrow> int \<Rightarrow> int \<Rightarrow> string \<Rightarrow> string \<Rightarrow> string \<Rightarrow> exit_error + int \<times> logger \<times> bool \<times> bool" where
  "telex_client init loop lg listen_port remote_port debug_level remote_host key cas =
     (let lg = (if debug_level \<ge> 0 then LogOutputLevel (nat debug_level) (LogOutputStream True lg) else lg)
      in and_then (init (telex_client_conf remote_port remote_host key cas))
           (\<lambda>(r, cf). if r < 0 then Inr (1, lg, False, False)
              else let (ret, cf) = loop listen_port cf
                   in Inr (ret, lg, ssl_ctx cf \<and> ssl_done cf, dns_base cf)))"

text \<open>\<open>strtok\<close> twice with the delimiter \<open>:\<close>, on a buffer: the string left at its start and the second token.\<close>

definition strtok_host :: "string \<Rightarrow> string \<times> string option" where
  "strtok_host h =
     (let colon = (\<lambda>c. c = CHR '':'');
          rest = dropWhile colon h;
          tok = takeWhile (Not \<circ> colon) rest;
          rest' = dropWhile colon (dropWhile (Not \<circ> colon) rest)
      in if rest = [] then (h, None)
         else (takeWhile colon h @ tok, if rest' = [] then None else Some (takeWhile (Not \<circ> colon) rest')))"

datatype host_arg = Unterminated | Invalid_Port int | Remote_Host string int

text \<open>The host argument: \<open>strncpy\<close> leaves no terminator when 254 characters or more are given.\<close>

definition parse_host :: "string \<Rightarrow> host_arg" where
  "parse_host host =
     (if length host \<ge> 254 then Unterminated
      else case strtok_host host of
             (h, None) \<Rightarrow> Remote_Host h 443
           | (h, Some pstr) \<Rightarrow>
               let port = strtol pstr
               in if port < 1 \<or> port > 65535 then Invalid_Port port else Remote_Host h port)"

datatype client_main = Client_Return int | Client_Undefined | Client_Run string int int int

text \<open>\<open>main\<close>: the counts of argtable2, the number of arguments and the values of its options. The last case
  is the call of \<open>telex_client\<close> with the host, its port, the listening port and the debug level.\<close>

definition client_main :: "nat \<Rightarrow> nat \<Rightarrow> nat \<Rightarrow> int option \<Rightarrow> int option \<Rightarrow> string \<Rightarrow> client_main" where
  "client_main help_count nerrors argc lport debug host =
     (if help_count > 0 then Client_Return 0
      else if nerrors > 0 then Client_Return 1
      else if argc = 1 then Client_Return 0
      else case parse_host host of
             Unterminated \<Rightarrow> Client_Undefined
           | Invalid_Port port \<Rightarrow> Client_Return 1
           | Remote_Host h port \<Rightarrow>
               Client_Run h port (case lport of None \<Rightarrow> 8888 | Some n \<Rightarrow> n) (case debug of None \<Rightarrow> 3 | Some n \<Rightarrow> n))"

section \<open>Relaying\<close>

text \<open>What has been received on one side is what has been sent on the other, followed by what is waiting in
  the two buffers.\<close>

definition relays :: "bufferevent \<Rightarrow> bufferevent \<Rightarrow> bool" where
  "relays b p \<longleftrightarrow> rx b = tx p @ outbuf p @ inbuf b"

definition relay_ok :: "telex_state \<Rightarrow> bool" where
  "relay_ok t \<longleftrightarrow> (\<forall>l r. local_bev t = Some l \<longrightarrow> remote_bev t = Some r \<longrightarrow> relays l r \<and> relays r l)"

lemma bev_bev_update [simp]:
  "bev s (bev_update s' f t) = (if s = s' then map_option f (bev s t) else bev s t)"
  by (cases s; cases s') simp_all

lemma bev_count_in [simp]: "bev s (count_in s' n t) = bev s t"
  by (cases s; cases s') simp_all

lemma partner_simps [simp]: "partner s \<noteq> s" "s \<noteq> partner s" "partner (partner s) = s"
  by (cases s; simp)+

lemma side_all: "(\<forall>s. P s) \<longleftrightarrow> P Local \<and> P Remote"
  by (metis side.exhaust)

lemma relay_ok_bev: "relay_ok t \<longleftrightarrow> (\<forall>s b p. bev s t = Some b \<longrightarrow> bev (partner s) t = Some p \<longrightarrow> relays b p)"
  unfolding relay_ok_def side_all by auto

lemma relay_ok_update:
  assumes "relay_ok t" "\<And>b p. relays b p \<Longrightarrow> relays (f b) p" "\<And>b p. relays b p \<Longrightarrow> relays b (f p)"
  shows "relay_ok (bev_update s f t)"
  using assms unfolding relay_ok_bev by (auto split: if_splits)

lemma relays_flags [simp]:
  "relays (b \<lparr>rd := x\<rparr>) p = relays b p" "relays b (p \<lparr>rd := x\<rparr>) = relays b p"
  "relays (b \<lparr>wr := x\<rparr>) p = relays b p" "relays b (p \<lparr>wr := x\<rparr>) = relays b p"
  "relays (b \<lparr>wm_low := m\<rparr>) p = relays b p" "relays b (p \<lparr>wm_low := m\<rparr>) = relays b p"
  "relays (b \<lparr>wm_high := m\<rparr>) p = relays b p" "relays b (p \<lparr>wm_high := m\<rparr>) = relays b p"
  "relays (setcb r w e b) p = relays b p" "relays b (setcb r w e p) = relays b p"
  by (simp_all add: relays_def setcb_def)

lemma relays_receive: "relays b p \<Longrightarrow> relays (receive d b) p" "relays b p \<Longrightarrow> relays b (receive d p)"
  by (simp_all add: relays_def receive_def)

lemma relays_transmit: "relays b p \<Longrightarrow> relays (transmit n b) p" "relays b p \<Longrightarrow> relays b (transmit n p)"
  by (simp_all add: relays_def transmit_def)

lemma relay_ok_read_cb:
  assumes "relay_ok t"
  shows "relay_ok (read_cb s t)"
proof (cases "bev s t")
  case None
  with assms show ?thesis by (simp add: read_cb_def)
next
  case (Some b)
  show ?thesis
  proof (cases "bev (partner s) t")
    case None
    then show ?thesis
      using Some by (cases s) (simp_all add: read_cb_def Let_def relay_ok_def)
  next
    case p: (Some p)
    define t1 where "t1 = bev_update (partner s) (\<lambda>q. q \<lparr>outbuf := outbuf p @ inbuf b\<rparr>)
      (bev_update s (\<lambda>b. b \<lparr>inbuf := []\<rparr>) (count_in s (length (inbuf b)) t))"
    have "relay_ok t1"
      using assms Some p by (cases s) (simp_all add: relay_ok_def t1_def relays_def)
    then have "relay_ok (bev_update s (\<lambda>b. b \<lparr>rd := False\<rparr>) (bev_update (partner s)
        (\<lambda>p. (setcb True (Some Drained_write) True p) \<lparr>wm_low := MAX_OUTPUT_BUFFER div 2, wm_high := MAX_OUTPUT_BUFFER\<rparr>) t1))"
      by (intro relay_ok_update) simp_all
    with \<open>relay_ok t1\<close> show ?thesis
      using Some p by (simp add: read_cb_def Let_def t1_def)
  qed
qed

lemma relay_ok_flush: "relay_ok t \<Longrightarrow> relay_ok (flush_pending s t)"
  by (simp add: flush_pending_def relay_ok_read_cb split: option.split)

lemma relay_ok_event_cb:
  assumes "relay_ok t" "event_cb s ev t = (cleanup, t')"
  shows "relay_ok t'"
proof -
  have "relay_ok (bev_update Remote (\<lambda>b. b \<lparr>rd := True, wr := True\<rparr>) (bev_update Local (\<lambda>b. b \<lparr>rd := True, wr := True\<rparr>) t))"
    by (intro relay_ok_update assms(1)) simp_all
  moreover have "relay_ok (bev_update (partner s) (\<lambda>p. (setcb False (Some Close_on_finished_write) True p) \<lparr>rd := False\<rparr>) (flush_pending s t))"
    by (intro relay_ok_update relay_ok_flush assms(1)) simp_all
  ultimately show ?thesis
    using assms relay_ok_flush [OF assms(1), of s] unfolding event_cb_def Let_def
    by (auto split: if_splits option.splits)
qed

lemma relay_ok_step:
  assumes "tunnel_step t (Some t')" "relay_ok t"
  shows "relay_ok t'"
  using assms(1)
proof (cases rule: tunnel_step.cases)
  case (recv s b d)
  then show ?thesis using relay_ok_update [OF assms(2), of "receive d" s] relays_receive by simp
next
  case (send s b n)
  then show ?thesis using relay_ok_update [OF assms(2), of "transmit n" s] relays_transmit by simp
next
  case (read s b)
  then show ?thesis using relay_ok_read_cb [OF assms(2)] by simp
next
  case (drained s b)
  have "relay_ok (drained_write_cb s t)"
    unfolding drained_write_cb_def by (intro relay_ok_update assms(2)) simp_all
  with drained show ?thesis by simp
next
  case (finished s b)
  with assms(2) show ?thesis by (simp split: if_splits)
next
  case (event s b ev cleanup t'')
  with relay_ok_event_cb [OF assms(2)] show ?thesis by (auto split: if_splits)
qed

section \<open>Resource counters\<close>

text \<open>A tunnel in order: either it waits for the address of the server, without a remote side, or it is
  complete. In both cases its data is intact.\<close>

definition tunnel_ok :: "telex_state \<Rightarrow> bool" where
  "tunnel_ok t \<longleftrightarrow> relay_ok t \<and> local_bev t \<noteq> None \<and> remotetcp t \<and>
     (resolving t \<longrightarrow> remote_bev t = None \<and> \<not> ts_ssl t \<and> local_bev t = Some bufferevent_new) \<and>
     (\<not> resolving t \<longrightarrow> remote_bev t \<noteq> None \<and> ts_ssl t)"

definition bevs :: "telex_state \<Rightarrow> int" where
  "bevs t = of_bool (local_bev t \<noteq> None) + of_bool (remote_bev t \<noteq> None) + of_bool (remotetcp t)"

definition ssls :: "telex_state \<Rightarrow> int" where
  "ssls t = of_bool (ts_ssl t)"

definition total :: "(telex_state \<Rightarrow> int) \<Rightarrow> client \<Rightarrow> int" where
  "total f c = (\<Sum>p\<in>dom (tunnels c). f (the (tunnels c p)))"

definition counters_ok :: "client \<Rightarrow> bool" where
  "counters_ok c \<longleftrightarrow> finite (dom (tunnels c)) \<and> ref_STATE c = int (card (dom (tunnels c))) \<and>
     ref_BEV c = total bevs c \<and> ref_SSL c = total ssls c \<and>
     count_open_tunnels (conf c) = word_of_nat (card (dom (tunnels c)))"

definition client_ok :: "client \<Rightarrow> bool" where
  "client_ok c \<longleftrightarrow> counters_ok c \<and> (\<forall>p t. tunnels c p = Some t \<longrightarrow> tunnel_ok t)"

lemma total_split:
  assumes "finite (dom (tunnels c))" "tunnels c p = Some t"
  shows "total f c = f t + (\<Sum>q\<in>dom (tunnels c) - {p}. f (the (tunnels c q)))"
  using sum.remove [OF assms(1), of p "\<lambda>q. f (the (tunnels c q))"] assms(2) by (simp add: total_def domI)

lemma total_set:
  assumes "finite (dom (tunnels c))" "tunnels c p = Some t" "tunnels c' = (tunnels c)(p \<mapsto> t')"
  shows "total f c' = total f c - f t + f t'"
proof -
  have "dom (tunnels c') = dom (tunnels c)" using assms(2,3) by auto
  moreover have "(\<Sum>q\<in>dom (tunnels c) - {p}. f (the (tunnels c' q))) = (\<Sum>q\<in>dom (tunnels c) - {p}. f (the (tunnels c q)))"
    by (rule sum.cong) (simp_all add: assms(3))
  ultimately show ?thesis
    using total_split [OF assms(1,2), of f] total_split [of c' p t' f] assms by simp
qed

lemma total_new:
  assumes "finite (dom (tunnels c))" "tunnels c p = None" "tunnels c' = (tunnels c)(p \<mapsto> t')"
  shows "total f c' = total f c + f t'"
proof -
  have d: "dom (tunnels c') - {p} = dom (tunnels c)" "finite (dom (tunnels c'))" using assms by auto
  have "(\<Sum>q\<in>dom (tunnels c). f (the (tunnels c' q))) = total f c"
    unfolding total_def by (rule sum.cong) (use assms in auto)
  moreover have "tunnels c' p = Some t'" by (simp add: assms(3))
  ultimately show ?thesis using total_split [OF d(2), of p t' f] unfolding d(1) by simp
qed

lemma total_del:
  assumes "finite (dom (tunnels c))" "tunnels c p = Some t" "tunnels c' = (tunnels c)(p := None)"
  shows "total f c' = total f c - f t"
proof -
  have "dom (tunnels c') = dom (tunnels c) - {p}" using assms(3) by auto
  then have "total f c' = (\<Sum>q\<in>dom (tunnels c) - {p}. f (the (tunnels c q)))"
    unfolding total_def by (intro sum.cong) (simp_all add: assms(3))
  then show ?thesis using total_split [OF assms(1,2), of f] by simp
qed

lemma total_ge: "finite (dom (tunnels c)) \<Longrightarrow> tunnels c p = Some t \<Longrightarrow> (\<And>u. 0 \<le> f u) \<Longrightarrow> f t \<le> total f c"
  by (simp add: total_split sum_nonneg)

lemma counts_nonneg: "0 \<le> bevs t" "0 \<le> ssls t"
  by (simp_all add: bevs_def ssls_def)

lemma counters_set:
  assumes "counters_ok c" "tunnels c p = Some t" "tunnels c' = (tunnels c)(p \<mapsto> t')" "ref_STATE c' = ref_STATE c"
    "ref_BEV c' = ref_BEV c - bevs t + bevs t'" "ref_SSL c' = ref_SSL c - ssls t + ssls t'"
    "count_open_tunnels (conf c') = count_open_tunnels (conf c)"
  shows "counters_ok c'"
proof -
  have f: "finite (dom (tunnels c))" using assms(1) by (simp add: counters_ok_def)
  moreover have "dom (tunnels c') = dom (tunnels c)" using assms(2,3) by auto
  ultimately show ?thesis
    using assms total_set [OF f assms(2,3), of bevs] total_set [OF f assms(2,3), of ssls] by (simp add: counters_ok_def)
qed

lemma cleanup_counters:
  assumes "counters_ok c" "tunnels c p = Some t"
  shows "\<exists>c'. StateCleanup p c = Inr c' \<and> counters_ok c' \<and> tunnels c' = (tunnels c)(p := None)"
proof -
  have f: "finite (dom (tunnels c))" using assms(1) by (simp add: counters_ok_def)
  have b: "bevs t \<le> ref_BEV c" and s: "ssls t \<le> ref_SSL c"
    using assms f total_ge [OF f assms(2), of bevs] total_ge [OF f assms(2), of ssls] counts_nonneg
    by (simp_all add: counters_ok_def)
  have n: "0 < card (dom (tunnels c))" using f assms(2) by (auto simp: card_gt_0_iff)
  then have r: "0 < ref_STATE c" using assms(1) by (simp add: counters_ok_def)
  define c' where "c' = c \<lparr>conf := (conf c) \<lparr>count_open_tunnels := count_open_tunnels (conf c) - 1\<rparr>,
    tunnels := (tunnels c)(p := None), ref_BEV := ref_BEV c - bevs t, ref_STATE := ref_STATE c - 1, ref_SSL := ref_SSL c - ssls t\<rparr>"
  have "StateCleanup p c = Inr c'"
    using assms(2) b s r unfolding StateCleanup_def dec_BEV_def dec_SSL_def open_tunnels_def bevs_def ssls_def c'_def
    by (cases "local_bev t"; cases "remote_bev t"; cases "remotetcp t"; cases "ts_ssl t") simp_all
  moreover have "counters_ok c'"
  proof -
    have "dom (tunnels c') = dom (tunnels c) - {p}" by (auto simp: c'_def)
    moreover from this have "card (dom (tunnels c)) = Suc (card (dom (tunnels c')))"
      using f assms(2) by (metis card.remove domI)
    ultimately show ?thesis
      using assms(1) f total_del [OF f assms(2), of c' bevs] total_del [OF f assms(2), of c' ssls]
      by (simp add: counters_ok_def c'_def)
  qed
  ultimately show ?thesis by (auto simp: c'_def)
qed

lemma cleanup_client_ok:
  assumes "counters_ok c" "tunnels c p = Some t" "\<forall>q u. q \<noteq> p \<longrightarrow> tunnels c q = Some u \<longrightarrow> tunnel_ok u"
  shows "\<exists>c'. StateCleanup p c = Inr c' \<and> client_ok c'"
  using cleanup_counters [OF assms(1,2)] assms(3) by (auto simp: client_ok_def)

lemma accept_client_ok:
  assumes "client_ok c" "tunnels c p = None"
  shows "\<exists>c'. proxy_accept_cb ms lok rok p c = Inr c' \<and> client_ok c'"
proof -
  have f: "finite (dom (tunnels c))" and co: "counters_ok c" using assms(1) by (simp_all add: client_ok_def counters_ok_def)
  define c1 where "c1 = StateInit ms p c"
  obtain t where t: "tunnels c1 = (tunnels c)(p \<mapsto> t)" "local_bev t = None" "remote_bev t = None" "\<not> remotetcp t" "\<not> ts_ssl t"
    by (simp add: c1_def StateInit_def Let_def open_tunnels_def)
  have c1: "ref_STATE c1 = ref_STATE c + 1" "ref_BEV c1 = ref_BEV c" "ref_SSL c1 = ref_SSL c"
    "count_open_tunnels (conf c1) = count_open_tunnels (conf c) + 1"
    by (simp_all add: c1_def StateInit_def Let_def open_tunnels_def)
  have "dom (tunnels c1) = insert p (dom (tunnels c))" "p \<notin> dom (tunnels c)" using t(1) assms(2) by auto
  then have o1: "counters_ok c1"
    using co f c1 t(2-5) total_new [OF f assms(2) t(1), of bevs] total_new [OF f assms(2) t(1), of ssls]
    by (simp add: counters_ok_def bevs_def ssls_def)
  have other: "\<forall>q u. q \<noteq> p \<longrightarrow> tunnels c1 q = Some u \<longrightarrow> tunnel_ok u"
    using assms(1) by (simp add: t(1) client_ok_def)
  have p1: "tunnels c1 p = Some t" by (simp add: t(1))
  define t2 where "t2 = t \<lparr>local_bev := Some bufferevent_new\<rparr>"
  define c2 where "c2 = set_tunnel p t2 (c1 \<lparr>ref_BEV := ref_BEV c1 + 1\<rparr>)"
  have o2: "counters_ok c2"
    by (rule counters_set [OF o1 p1, where t' = t2]) (simp_all add: c2_def set_tunnel_def t2_def bevs_def ssls_def t)
  have p2: "tunnels c2 p = Some t2" "\<forall>q u. q \<noteq> p \<longrightarrow> tunnels c2 q = Some u \<longrightarrow> tunnel_ok u"
    using other by (simp_all add: c2_def set_tunnel_def)
  define t3 where "t3 = t2 \<lparr>remotetcp := True, resolving := True\<rparr>"
  define c3 where "c3 = set_tunnel p t3 (c2 \<lparr>ref_BEV := ref_BEV c2 + 1\<rparr>)"
  have "counters_ok c3"
    by (rule counters_set [OF o2 p2(1), where t' = t3]) (simp_all add: c3_def set_tunnel_def t3_def t2_def bevs_def ssls_def t)
  moreover have "tunnel_ok t3" by (simp add: t3_def t2_def tunnel_ok_def relay_ok_def t)
  ultimately have "client_ok c3" using p2(2) by (auto simp: client_ok_def c3_def set_tunnel_def)
  then show ?thesis
    using cleanup_client_ok [OF o1 p1 other] cleanup_client_ok [OF o2 p2]
    unfolding proxy_accept_cb_def Let_def c1_def [symmetric] p1 option.case t2_def [symmetric] c2_def [symmetric]
      t3_def [symmetric] c3_def [symmetric]
    by simp
qed

lemma resolved_client_ok:
  assumes "client_ok c" "tunnels c p = Some t" "resolving t"
  shows "\<exists>c'. proxy_notblocked_getaddrinfo_cb ai (\<lambda>ip k. Some (T ip k)) rok p c = Inr c' \<and> client_ok c'"
proof -
  have co: "counters_ok c" and tk: "tunnel_ok t" using assms(1,2) by (auto simp: client_ok_def)
  have tt: "remote_bev t = None" "\<not> ts_ssl t" "local_bev t = Some bufferevent_new" "remotetcp t"
    using tk assms(3) by (simp_all add: tunnel_ok_def)
  define t1 where "t1 = t \<lparr>resolving := False\<rparr>"
  define c1 where "c1 = set_tunnel p t1 c"
  have o1: "counters_ok c1"
    by (rule counters_set [OF co assms(2), where t' = t1]) (simp_all add: c1_def set_tunnel_def t1_def bevs_def ssls_def)
  have p1: "tunnels c1 p = Some t1" "\<forall>q u. q \<noteq> p \<longrightarrow> tunnels c1 q = Some u \<longrightarrow> tunnel_ok u"
    using assms(1) by (simp_all add: c1_def set_tunnel_def client_ok_def)
  show ?thesis
  proof (cases ai)
    case None
    then show ?thesis
      using cleanup_client_ok [OF o1 p1] assms(2)
      by (simp add: proxy_notblocked_getaddrinfo_cb_def Let_def t1_def [symmetric] c1_def [symmetric])
  next
    case (Some ip)
    obtain r k where T: "T ip (crypto t1) = (r, k)" by fastforce
    define t2 where "t2 = t1 \<lparr>crypto := k, ts_ssl := True\<rparr>"
    define c2 where "c2 = set_tunnel p t2 (c1 \<lparr>ref_SSL := ref_SSL c1 + 1\<rparr>)"
    have o2: "counters_ok c2"
      by (rule counters_set [OF o1 p1(1), where t' = t2]) (simp_all add: c2_def set_tunnel_def t2_def t1_def bevs_def ssls_def tt)
    have p2: "tunnels c2 p = Some t2" "\<forall>q u. q \<noteq> p \<longrightarrow> tunnels c2 q = Some u \<longrightarrow> tunnel_ok u"
      using p1(2) by (simp_all add: c2_def set_tunnel_def)
    define t3 where "t3 = t2 \<lparr>remote_bev := Some (setcb True None True bufferevent_new),
      local_bev := map_option (setcb True None True) (local_bev t2)\<rparr>"
    define c3 where "c3 = set_tunnel p t3 (c2 \<lparr>ref_BEV := ref_BEV c2 + 1\<rparr>)"
    have "counters_ok c3"
      by (rule counters_set [OF o2 p2(1), where t' = t3]) (simp_all add: c3_def set_tunnel_def t3_def t2_def t1_def bevs_def ssls_def tt)
    moreover have "tunnel_ok t3"
      by (simp add: t3_def t2_def t1_def tunnel_ok_def relay_ok_def tt relays_def bufferevent_new_def setcb_def)
    ultimately have "client_ok c3" using p2(2) by (auto simp: client_ok_def c3_def set_tunnel_def)
    then show ?thesis
      using cleanup_client_ok [OF o1 p1] cleanup_client_ok [OF o2 p2] Some T
      unfolding proxy_notblocked_getaddrinfo_cb_def Let_def assms(2) option.case t1_def [symmetric] c1_def [symmetric]
      by (simp add: t2_def [symmetric] c2_def [symmetric] t3_def [symmetric] c3_def [symmetric])
  qed
qed

text \<open>Running a tunnel changes neither which of its objects exist nor whether it is resolving.\<close>

lemma shape_update [simp]:
  "local_bev (bev_update s f t) = None \<longleftrightarrow> local_bev t = None" "remote_bev (bev_update s f t) = None \<longleftrightarrow> remote_bev t = None"
  "remotetcp (bev_update s f t) = remotetcp t" "ts_ssl (bev_update s f t) = ts_ssl t"
  "resolving (bev_update s f t) = resolving t"
  by (cases s; simp)+

lemma shape_count_in [simp]:
  "local_bev (count_in s n t) = local_bev t" "remote_bev (count_in s n t) = remote_bev t"
  "remotetcp (count_in s n t) = remotetcp t" "ts_ssl (count_in s n t) = ts_ssl t" "resolving (count_in s n t) = resolving t"
  by (cases s; simp)+

definition same_shape :: "telex_state \<Rightarrow> telex_state \<Rightarrow> bool" where
  "same_shape t t' \<longleftrightarrow> (local_bev t' = None \<longleftrightarrow> local_bev t = None) \<and> (remote_bev t' = None \<longleftrightarrow> remote_bev t = None) \<and>
     remotetcp t' = remotetcp t \<and> ts_ssl t' = ts_ssl t \<and> resolving t' = resolving t"

lemma shape_refl [simp]: "same_shape t t"
  by (simp add: same_shape_def)

lemma shape_upd [simp]: "same_shape t (bev_update s f t') = same_shape t t'" "same_shape t (count_in s n t') = same_shape t t'"
  by (simp_all add: same_shape_def)

lemma shape_read_cb [simp]: "same_shape t (read_cb s t)"
  by (simp add: read_cb_def Let_def split: option.split)

lemma shape_flush [simp]: "same_shape t (flush_pending s t)"
  by (simp add: flush_pending_def split: option.split)

lemma shape_event_cb: "event_cb s ev t = (cleanup, t') \<Longrightarrow> same_shape t t'"
  unfolding event_cb_def Let_def by (auto simp del: bev_update.simps split: if_splits option.splits)

lemma shape_drained [simp]: "same_shape t (drained_write_cb s t)"
  by (simp add: drained_write_cb_def)

lemma shape_step: "tunnel_step t (Some t') \<Longrightarrow> same_shape t t'"
  by (erule tunnel_step.cases) (auto dest: shape_event_cb split: if_splits)

lemma run_client_ok:
  assumes "client_ok c" "tunnels c p = Some t" "\<not> resolving t" "tunnel_step t (Some t')"
  shows "client_ok (set_tunnel p t' c)"
proof -
  have sh: "same_shape t t'" by (rule shape_step [OF assms(4)])
  have tk: "tunnel_ok t" and co: "counters_ok c" using assms(1,2) by (auto simp: client_ok_def)
  have "counters_ok (set_tunnel p t' c)"
    by (rule counters_set [OF co assms(2), where t' = t'])
      (use sh in \<open>simp_all add: set_tunnel_def bevs_def ssls_def same_shape_def\<close>)
  moreover have "tunnel_ok t'"
    using relay_ok_step [OF assms(4)] tk sh assms(3) by (simp add: tunnel_ok_def same_shape_def)
  ultimately show ?thesis using assms(1) by (auto simp: client_ok_def set_tunnel_def)
qed

definition client_init :: "client_fault + client \<Rightarrow> bool" where
  "client_init r \<longleftrightarrow> (\<exists>cf. count_open_tunnels cf = 0 \<and>
     r = Inr \<lparr>conf = cf, tunnels = (\<lambda>p. None), ref_BEV = 0, ref_STATE = 0, ref_SSL = 0\<rparr>)"

definition client_inv :: "client_fault + client \<Rightarrow> bool" where
  "client_inv r \<longleftrightarrow> (\<exists>c. r = Inr c \<and> client_ok c)"

interpretation client: invariant_system client_init "client_step T" client_inv for T
proof
  show "client_inv s" if "client_init s" for s
    using that by (auto simp: client_init_def client_inv_def client_ok_def counters_ok_def total_def)
  show "client_inv t" if "client_inv s" "client_step T s t" for s t
    using that(2,1)
  proof (cases rule: client_step.cases)
    case (accept c p ms lok rok)
    with that(1) accept_client_ok [of c p ms lok rok] show ?thesis by (auto simp: client_inv_def)
  next
    case (resolved c p t' ai rok)
    with that(1) resolved_client_ok [of c p t' ai T rok] show ?thesis by (auto simp: client_inv_def)
  next
    case (run c p t' t'')
    with that(1) run_client_ok [of c p t' t''] show ?thesis by (auto simp: client_inv_def)
  next
    case (close c p t')
    with that(1) have "client_ok c" by (simp add: client_inv_def)
    then have "\<exists>c'. StateCleanup p c = Inr c' \<and> client_ok c'"
      using close by (intro cleanup_client_ok [where t = t']) (auto simp: client_ok_def)
    with close show ?thesis by (auto simp: client_inv_def)
  qed
qed

section \<open>The host argument\<close>

lemma takeWhile_colon:
  "CHR '':'' \<notin> set h \<Longrightarrow> takeWhile (Not \<circ> (\<lambda>c. c = CHR '':'')) (h @ CHR '':'' # r) = h"
  "CHR '':'' \<notin> set h \<Longrightarrow> dropWhile (Not \<circ> (\<lambda>c. c = CHR '':'')) (h @ CHR '':'' # r) = CHR '':'' # r"
  "CHR '':'' \<notin> set h \<Longrightarrow> takeWhile (Not \<circ> (\<lambda>c. c = CHR '':'')) h = h"
  "CHR '':'' \<notin> set h \<Longrightarrow> dropWhile (Not \<circ> (\<lambda>c. c = CHR '':'')) h = []"
  by (induction h) auto

lemma strtok_host_port:
  assumes "CHR '':'' \<notin> set h" "CHR '':'' \<notin> set d" "h \<noteq> []" "d \<noteq> []"
  shows "strtok_host (h @ '':'' @ d) = (h, Some d)"
proof -
  have n: "dropWhile (\<lambda>c. c = CHR '':'') (x @ r) = x @ r" "takeWhile (\<lambda>c. c = CHR '':'') (x @ r) = []"
    if "CHR '':'' \<notin> set x" "x \<noteq> []" for x r
    using that by (auto simp: neq_Nil_conv)
  have "strtok_host (h @ CHR '':'' # d) = (h, Some d)"
    using n(1) [OF assms(2,4), of "[]"] assms(3,4)
    unfolding strtok_host_def Let_def n [OF assms(1,3)] takeWhile_colon(1,2) [OF assms(1)]
    by (simp add: takeWhile_colon(3) [OF assms(2)])
  then show ?thesis by simp
qed

section \<open>Properties\<close>

text \<open>C9: a tunnel neither loses, invents nor reorders data, whatever the order of events. In every
  reachable state of the client, what a tunnel has received on either side is what it has sent on the
  other, followed by the output buffer of that side and the input buffer of this.\<close>

theorem relay_intact:
  assumes "reachable client_init (client_step T) (Inr c)" "tunnels c p = Some t" "local_bev t = Some l" "remote_bev t = Some r"
  shows "rx l = tx r @ outbuf r @ inbuf l \<and> rx r = tx l @ outbuf l @ inbuf r"
proof -
  have "relay_ok t"
    using client.reachable_inv [OF assms(1)] assms(2) by (auto simp: client_inv_def client_ok_def tunnel_ok_def)
  with assms(3,4) show ?thesis unfolding relay_ok_def relays_def by blast
qed

text \<open>A run: a tunnel is accepted, its server found, the handshake done, three bytes arrive and two of them are
  sent on.\<close>

definition client_0 :: client where
  "client_0 = \<lparr>conf = telex_client_conf 443 ''h'' ''pubkey'' ''root.pem'', tunnels = (\<lambda>p. None), ref_BEV = 0, ref_STATE = 0, ref_SSL = 0\<rparr>"

definition tunnel_1 :: telex_state where
  "tunnel_1 = \<lparr>tid = 0, start_ms = 0, local_bev = Some (setcb True None True bufferevent_new),
     remote_bev = Some (setcb True None True bufferevent_new), remotetcp = True, in_local = 0, in_remote = 0, ts_ssl = True,
     crypto = \<lparr>tc_tag = [], tc_secret = [], telex_client_random = [], telex_dh_priv_key = 0\<rparr>, resolving = False\<rparr>"

definition crypto_0 :: "u32 \<Rightarrow> telex_crypto \<Rightarrow> int \<times> telex_crypto" where
  "crypto_0 ip k = (0, \<lparr>tc_tag = [], tc_secret = [], telex_client_random = [], telex_dh_priv_key = 0\<rparr>)"

definition tunnel_0 :: telex_state where
  "tunnel_0 = \<lparr>tid = 0, start_ms = 0, local_bev = Some bufferevent_new, remote_bev = None, remotetcp = True,
      in_local = 0, in_remote = 0, ts_ssl = False, crypto = \<lparr>tc_tag = replicate 28 0, tc_secret = replicate 16 0,
      telex_client_random = [], telex_dh_priv_key = 0\<rparr>, resolving = True\<rparr>"

lemma reach_tunnel_1: "\<exists>c. reachable client_init (client_step crypto_0) (Inr c) \<and> tunnels c 2 = Some tunnel_1"
proof -
  have "client_init (Inr client_0)" by (simp add: client_init_def client_0_def telex_client_conf_def)
  then have r0: "reachable client_init (client_step crypto_0) (Inr client_0)" by (rule reachable_init)
  have "client_step crypto_0 (Inr client_0) (proxy_accept_cb 0 True True 2 client_0)"
    by (rule accept) (simp add: client_0_def)
  moreover have "\<exists>c1. proxy_accept_cb 0 True True 2 client_0 = Inr c1 \<and> tunnels c1 2 = Some tunnel_0"
    by (simp add: proxy_accept_cb_def StateInit_def Let_def open_tunnels_def set_tunnel_def client_0_def telex_client_conf_def
        tunnel_0_def)
  ultimately obtain c1 where c1: "client_step crypto_0 (Inr client_0) (Inr c1)" "tunnels c1 2 = Some tunnel_0" by metis
  have "client_step crypto_0 (Inr c1) (proxy_notblocked_getaddrinfo_cb (Some 7) (\<lambda>ip k. Some (crypto_0 ip k)) True 2 c1)"
    by (rule resolved [OF c1(2)]) (simp add: tunnel_0_def)
  moreover have "\<exists>c2. proxy_notblocked_getaddrinfo_cb (Some 7) (\<lambda>ip k. Some (crypto_0 ip k)) True 2 c1 = Inr c2 \<and>
      tunnels c2 2 = Some tunnel_1"
    using c1(2) by (simp add: proxy_notblocked_getaddrinfo_cb_def Let_def set_tunnel_def crypto_0_def tunnel_1_def tunnel_0_def)
  ultimately obtain c2 where c2: "client_step crypto_0 (Inr c1) (Inr c2)" "tunnels c2 2 = Some tunnel_1" by metis
  from reachable_step [OF reachable_step [OF r0 c1(1)] c2(1)] c2(2) show ?thesis by blast
qed

lemma reach_run:
  assumes "\<exists>c. reachable client_init (client_step T) (Inr c) \<and> tunnels c p = Some t" "\<not> resolving t" "tunnel_step t (Some t')"
  shows "\<exists>c. reachable client_init (client_step T) (Inr c) \<and> tunnels c p = Some t'"
proof -
  obtain c where c: "reachable client_init (client_step T) (Inr c)" "tunnels c p = Some t" using assms(1) by blast
  from reachable_step [OF c(1) run [OF c(2) assms(2,3)]] show ?thesis by (auto simp: set_tunnel_def)
qed

theorem relay_intact_witness:
  "\<exists>c t l r. reachable client_init (client_step crypto_0) (Inr c) \<and> tunnels c 2 = Some t \<and> local_bev t = Some l \<and>
     remote_bev t = Some r \<and> rx l = [1, 2, 3] \<and> tx r = [1, 2] \<and> outbuf r = [3] \<and> inbuf l = []"
proof -
  define b1 where "b1 = setcb True None True bufferevent_new \<lparr>rd := True, wr := True\<rparr>"
  define t1 where "t1 = tunnel_1 \<lparr>local_bev := Some b1, remote_bev := Some b1\<rparr>"
  define t2 where "t2 = t1 \<lparr>local_bev := Some (receive [1, 2, 3] b1)\<rparr>"
  define t3 where "t3 = t1 \<lparr>in_local := 3, local_bev := Some (b1 \<lparr>rx := [1, 2, 3]\<rparr>), remote_bev := Some (b1 \<lparr>outbuf := [1, 2, 3]\<rparr>)\<rparr>"
  define t4 where "t4 = t3 \<lparr>remote_bev := Some (transmit 2 (b1 \<lparr>outbuf := [1, 2, 3]\<rparr>))\<rparr>"
  have e: "event_cb Remote (BEV_Events True False False) tunnel_1 = (False, t1)"
    by (simp add: event_cb_def tunnel_1_def t1_def b1_def)
  have "tunnel_step tunnel_1 (if False then None else Some t1)"
    by (rule event [where b = "setcb True None True bufferevent_new", OF _ _ e]) (simp_all add: tunnel_1_def setcb_def bufferevent_new_def)
  then have "tunnel_step tunnel_1 (Some t1)" by simp
  note r1 = reach_run [OF reach_tunnel_1 _ this]
  have "tunnel_step t1 (Some (bev_update Local (receive [1, 2, 3]) t1))"
    by (rule recv [where b = b1]) (simp_all add: t1_def b1_def)
  then have s2: "tunnel_step t1 (Some t2)" by (simp add: t1_def t2_def)
  have "tunnel_step t2 (Some (read_cb Local t2))"
    by (rule read [where b = "receive [1, 2, 3] b1"]) (simp_all add: t2_def b1_def receive_def setcb_def bufferevent_new_def)
  moreover have "read_cb Local t2 = t3"
    by (simp add: read_cb_def t2_def t1_def t3_def b1_def receive_def tunnel_1_def setcb_def bufferevent_new_def MAX_OUTPUT_BUFFER_def Let_def)
  ultimately have s3: "tunnel_step t2 (Some t3)" by simp
  have "tunnel_step t3 (Some (bev_update Remote (transmit 2) t3))"
    by (rule send [where b = "b1 \<lparr>outbuf := [1, 2, 3]\<rparr>"]) (simp_all add: t3_def b1_def)
  then have s4: "tunnel_step t3 (Some t4)" by (simp add: t3_def t4_def)
  have n: "\<not> resolving tunnel_1" "\<not> resolving t1" "\<not> resolving t2" "\<not> resolving t3"
    by (simp_all add: tunnel_1_def t1_def t2_def t3_def)
  obtain c where c: "reachable client_init (client_step crypto_0) (Inr c)" "tunnels c 2 = Some t4"
    using reach_run [OF reach_run [OF reach_run [OF r1 [OF n(1)] n(2) s2] n(3) s3] n(4) s4] by blast
  have b: "local_bev t4 = Some (b1 \<lparr>rx := [1, 2, 3]\<rparr>)" "remote_bev t4 = Some (transmit 2 (b1 \<lparr>outbuf := [1, 2, 3]\<rparr>))"
    by (simp_all add: t4_def t3_def)
  from relay_intact [OF c b] have "rx (b1 \<lparr>rx := [1, 2, 3]\<rparr>) =
      tx (transmit 2 (b1 \<lparr>outbuf := [1, 2, 3]\<rparr>)) @ outbuf (transmit 2 (b1 \<lparr>outbuf := [1, 2, 3]\<rparr>)) @ inbuf (b1 \<lparr>rx := [1, 2, 3]\<rparr>)"
    by blast
  with c b show ?thesis
    by (intro exI conjI) (assumption | simp add: transmit_def b1_def setcb_def bufferevent_new_def)+
qed

text \<open>C17: the resource counters are exact and their assertions never fail. Every reachable result of the client
  is a state, never a failed assertion, in which the counters are the numbers of tunnels, buffer events
  and SSL objects that exist; a tunnel has three buffer events and an SSL object exactly when the address of its
  server has been found, and two and none before.\<close>

theorem client_counters:
  assumes "reachable client_init (client_step T) r"
  shows "\<exists>c. r = Inr c \<and> ref_STATE c = int (card (dom (tunnels c))) \<and> ref_BEV c = total bevs c \<and> ref_SSL c = total ssls c \<and>
     count_open_tunnels (conf c) = word_of_nat (card (dom (tunnels c))) \<and>
     (\<forall>p t. tunnels c p = Some t \<longrightarrow> bevs t = (if resolving t then 2 else 3) \<and> ssls t = (if resolving t then 0 else 1))"
proof -
  obtain c where c: "r = Inr c" "client_ok c" using client.reachable_inv [OF assms] by (auto simp: client_inv_def)
  then have "bevs t = (if resolving t then 2 else 3) \<and> ssls t = (if resolving t then 0 else 1)" if "tunnels c p = Some t" for p t
    using that by (auto simp: client_ok_def tunnel_ok_def bevs_def ssls_def)
  with c show ?thesis by (auto simp: client_ok_def counters_ok_def)
qed

theorem client_counters_witness:
  "\<exists>c. reachable client_init (client_step crypto_0) (Inr c) \<and> tunnels c 2 = Some tunnel_1 \<and> ref_BEV c = total bevs c \<and>
     bevs tunnel_1 = 3 \<and> ssls tunnel_1 = 1"
proof -
  obtain c where c: "reachable client_init (client_step crypto_0) (Inr c)" "tunnels c 2 = Some tunnel_1"
    using reach_tunnel_1 by blast
  moreover have "\<not> resolving tunnel_1" by (simp add: tunnel_1_def)
  ultimately show ?thesis using client_counters [OF c(1)] by auto
qed

lemma flush_pending_bev:
  assumes "bev s t = Some b" "bev (partner s) t = Some p"
  shows "\<exists>b' p'. bev s (flush_pending s t) = Some b' \<and> bev (partner s) (flush_pending s t) = Some p' \<and> inbuf b' = [] \<and>
     rx b' = rx b \<and> tx p' = tx p"
  using assms by (auto simp: flush_pending_def read_cb_def Let_def setcb_def)

text \<open>C18: the end of one side loses nothing of what it sent. When a buffer event of a tunnel in order reports its end of
  file, either all that was received from it has been sent to its partner and the tunnel is cleaned up, or the tunnel
  stays, all the rest is in the output of the partner, nothing more is read from the partner, and its
  write callback is the one that closes the tunnel as soon as, and not before, this output has been sent.\<close>

theorem eof_complete:
  assumes "relay_ok t" "bev s t = Some b" "bev (partner s) t = Some p" "\<not> connected ev" "eof ev"
    "event_cb s ev t = (cleanup, t')"
  shows "(cleanup \<and> rx b = tx p) \<or>
     (\<not> cleanup \<and> (\<exists>p'. bev (partner s) t' = Some p' \<and> outbuf p' \<noteq> [] \<and> rx b = tx p @ outbuf p' \<and> \<not> rd p' \<and>
        \<not> read_set p' \<and> write_set p' = Some Close_on_finished_write \<and>
        (\<forall>n. close_on_finished_write_cb (partner s) (bev_update (partner s) (transmit n) t') \<longleftrightarrow> n \<ge> length (outbuf p'))))"
proof -
  obtain b' p' where f: "bev s (flush_pending s t) = Some b'" "bev (partner s) (flush_pending s t) = Some p'"
    "inbuf b' = []" "rx b' = rx b" "tx p' = tx p"
    using flush_pending_bev [OF assms(2,3)] by blast
  have "rx b = tx p @ outbuf p'"
  proof -
    have "relays b' p'"
      using relay_ok_flush [OF assms(1), of s] f(1,2) unfolding relay_ok_bev by blast
    then show ?thesis using f(3-5) by (simp add: relays_def)
  qed
  moreover define t'' where "t'' = bev_update (partner s)
    (\<lambda>p. (setcb False (Some Close_on_finished_write) True p) \<lparr>rd := False\<rparr>) (flush_pending s t)"
  have e: "event_cb s ev t = (if outbuf p' \<noteq> [] then (False, t'') else (True, flush_pending s t))"
    using assms(3-5) f(2) by (simp add: event_cb_def t''_def)
  have q: "bev (partner s) t'' = Some ((setcb False (Some Close_on_finished_write) True p') \<lparr>rd := False\<rparr>)"
    using f(2) by (simp add: t''_def)
  have c: "close_on_finished_write_cb (partner s) (bev_update (partner s) (transmit n) t'') \<longleftrightarrow> n \<ge> length (outbuf p')" for n
    using q by (simp add: close_on_finished_write_cb_def transmit_def setcb_def)
  show ?thesis
  proof (cases "outbuf p' = []")
    case True
    with calculation e assms(6) show ?thesis by simp
  next
    case False
    with e assms(6) have "\<not> cleanup" "t' = t''" by simp_all
    with False calculation q c show ?thesis by (simp add: setcb_def)
  qed
qed

definition tunnel_eof :: telex_state where
  "tunnel_eof = tunnel_1 \<lparr>local_bev := Some (receive [1, 2] (setcb True None True bufferevent_new))\<rparr>"

theorem eof_complete_witness:
  "fst (event_cb Local (BEV_Events False True False) tunnel_eof) = False \<and>
   (\<exists>p'. remote_bev (snd (event_cb Local (BEV_Events False True False) tunnel_eof)) = Some p' \<and> outbuf p' = [1, 2] \<and> \<not> rd p' \<and>
      write_set p' = Some Close_on_finished_write)"
proof -
  define l r where "l = receive [1, 2] (setcb True None True bufferevent_new)" and "r = setcb True None True bufferevent_new"
  have b: "bev Local tunnel_eof = Some l" "bev (partner Local) tunnel_eof = Some r" "relay_ok tunnel_eof"
    by (simp_all add: tunnel_eof_def tunnel_1_def l_def r_def relay_ok_def relays_def receive_def setcb_def bufferevent_new_def)
  have "rx l = [1, 2]" "tx r = []" by (simp_all add: l_def r_def receive_def setcb_def bufferevent_new_def)
  then show ?thesis
    using eof_complete [OF b(3,1,2), of "BEV_Events False True False" "fst (event_cb Local (BEV_Events False True False) tunnel_eof)"
        "snd (event_cb Local (BEV_Events False True False) tunnel_eof)"] by auto
qed

text \<open>The host argument is read as it is written: a host without colons and a port between 1 and 65535, joined by a
  colon, are the server and the port that the client uses, if they fit the buffer; a host alone is used with port 443.\<close>

lemma host_roundtrip:
  assumes "CHR '':'' \<notin> set h" "h \<noteq> []" "1 \<le> n" "n \<le> 65535" "length (h @ '':'' @ show_nat n) < 254"
  shows "parse_host (h @ '':'' @ show_nat n) = Remote_Host h (int n) \<and> parse_host h = Remote_Host h 443"
proof -
  have d: "CHR '':'' \<notin> set (show_nat n)" using show_nat_digits [of n] is_digitD by (auto simp: list_all_iff)
  have c: "hd h \<noteq> CHR '':''" using assms(1,2) by (auto simp: neq_Nil_conv)
  have "strtok_host h = (h, None)"
  proof -
    have "dropWhile (\<lambda>c. c = CHR '':'') h = h" "takeWhile (\<lambda>c. c = CHR '':'') h = []" using c assms(2) by (cases h; simp)+
    then show ?thesis
      unfolding strtok_host_def Let_def using takeWhile_colon(3,4) [OF assms(1)] assms(2) by (simp del: dropWhile_eq_Nil_conv)
  qed
  moreover have "strtol (show_nat n) = int n" by (rule strtol_show_nat) (use assms(4) in simp)
  ultimately show ?thesis
    using assms strtok_host_port [OF assms(1) d assms(2) show_nat_nonempty] unfolding parse_host_def by simp
qed

end
