(* ===== verification/Telex_Server.thy ===== *)
theory Telex_Server
  imports Client_Proxy
begin

text \<open>
  The Telex server (\<open>src/old-telex-station-backup/telex-server\<close>): a web server's front end that is a station of its own. It ends
  the TLS connections of its clients and relays each to one of two local services, depending on the tag in the client
  random. Its relay (\<open>read_cb\<close>, \<open>drained_write_cb\<close>, \<open>close_on_finished_write_cb\<close>, and \<open>event_cb\<close> but for its first branch) is the code
  of the client's, with the service as the local side and the client as the remote one, so that it is the one of
  \<open>Client_Proxy\<close>. Tags are those of \<open>Tag\<close>. The results of libevent and OpenSSL are arguments; a null pointer that is used is a
  fault.
\<close>

section \<open>State\<close>

record server_conf =
  sv_keyfile :: string
  sv_dh_file :: string
  sv_privkey :: bytes
  sv_dns_base :: bool
  sv_ssl_ctx :: bool
  sv_tag_port :: int
  sv_untag_port :: int
  sv_total_connections :: u32
  sv_count_open_tunnels :: u32

text \<open>A connection: the part that the relay works on, where the service is, and the client random of its SSL object and local address
  of its socket, once they are read.\<close>

record server_conn =
  sv_relay :: telex_state
  sv_service :: "(u32 \<times> u16) option"
  sv_hello :: "(bytes \<times> u32) option"

record telex_server =
  sv_conf :: server_conf
  sv_conns :: "nat \<Rightarrow> server_conn option"
  sv_sbios :: nat

datatype server_fault = Server_Null

text \<open>What an event of a connection finds: the client random, the local address, and whether the service's buffer event can be created.\<close>

record accept_env =
  ae_client_random :: bytes
  ae_local_addr :: u32
  ae_service_ok :: bool

section \<open>Connections\<close>

definition server_context :: "accept_env \<Rightarrow> bytes" where
  "server_context e = le_bytes 4 (ae_local_addr e) @ take 4 (ae_client_random e) @ [0]"

definition ssl_accept_cb :: "hash \<Rightarrow> stack \<Rightarrow> accept_env \<Rightarrow> server_conf \<Rightarrow> server_conn \<Rightarrow> server_fault + server_conn" where
  "ssl_accept_cb SHA256 m e cf c =
     (let t = sv_relay c
      in if \<not> remotetcp t \<or> \<not> ae_service_ok e then Inl Server_Null
         else case check_tag SHA256 m (tc_secret (crypto t)) (sv_privkey cf) (drop 4 (ae_client_random e)) (server_context e) of
           (r, secret) \<Rightarrow>
             let port = (if r = 0 then sv_tag_port cf else sv_untag_port cf)
             in Inr (c \<lparr>sv_relay := t \<lparr>local_bev := Some (setcb True None True bufferevent_new), crypto := (crypto t) \<lparr>tc_secret := secret\<rparr>\<rparr>,
                       sv_service := Some (le_word (be_bytes 4 (0x7f000001 :: u32)), le_word (be_bytes 2 (word_of_int port :: u16))),
                       sv_hello := Some (ae_client_random e, ae_local_addr e)\<rparr>))"

definition server_StateInit :: "u64 \<Rightarrow> nat \<Rightarrow> telex_server \<Rightarrow> telex_server" where
  "server_StateInit ms p w =
     (let t = \<lparr>tid = sv_total_connections (sv_conf w), start_ms = ms, local_bev = None, remote_bev = None, remotetcp = False,
               in_local = 0, in_remote = 0, ts_ssl = False,
               crypto = \<lparr>tc_tag = [], tc_secret = replicate 16 0, telex_client_random = [], telex_dh_priv_key = 0\<rparr>, resolving = False\<rparr>;
          cf = sv_conf w;
          cf = cf \<lparr>sv_total_connections := sv_total_connections cf + 1\<rparr>;
          cf = cf \<lparr>sv_count_open_tunnels := sv_count_open_tunnels cf + 1\<rparr>
      in w \<lparr>sv_conf := cf, sv_conns := (sv_conns w)(p \<mapsto> \<lparr>sv_relay = t, sv_service = None, sv_hello = None\<rparr>)\<rparr>)"

text \<open>All that a connection holds is freed with it, whatever of it is there.\<close>

definition server_StateCleanup :: "nat \<Rightarrow> telex_server \<Rightarrow> telex_server" where
  "server_StateCleanup p w =
     (case sv_conns w p of
        None \<Rightarrow> w
      | Some c \<Rightarrow> w \<lparr>sv_conf := (sv_conf w) \<lparr>sv_count_open_tunnels := sv_count_open_tunnels (sv_conf w) - 1\<rparr>, sv_conns := (sv_conns w)(p := None)\<rparr>)"

definition set_conn :: "nat \<Rightarrow> server_conn \<Rightarrow> telex_server \<Rightarrow> telex_server" where
  "set_conn p c w = w \<lparr>sv_conns := (sv_conns w)(p \<mapsto> c)\<rparr>"

text \<open>\<open>tcp_accept_cb\<close>: whether the socket's buffer event, the SSL object and the TLS filter can be created. The BIO is not used.\<close>

definition tcp_accept_cb :: "u64 \<Rightarrow> bool \<Rightarrow> bool \<Rightarrow> bool \<Rightarrow> nat \<Rightarrow> telex_server \<Rightarrow> server_fault + telex_server" where
  "tcp_accept_cb ms sock_ok ssl_ok filter_ok p w =
     (let w = server_StateInit ms p w
      in case sv_conns w p of
           None \<Rightarrow> Inr w
         | Some c \<Rightarrow>
             let c = c \<lparr>sv_relay := (sv_relay c) \<lparr>remotetcp := sock_ok\<rparr>\<rparr>;
                 w = set_conn p c (w \<lparr>sv_sbios := sv_sbios w + 1\<rparr>)
             in if \<not> ssl_ok then Inr w
                else let c = c \<lparr>sv_relay := (sv_relay c) \<lparr>ts_ssl := True\<rparr>\<rparr>
                     in if \<not> filter_ok then Inl Server_Null
                        else Inr (set_conn p (c \<lparr>sv_relay := (sv_relay c) \<lparr>remote_bev := Some (setcb True None True bufferevent_new)\<rparr>\<rparr>) w))"

text \<open>The result says whether the connection is to be cleaned up.\<close>

definition server_event_cb :: "hash \<Rightarrow> stack \<Rightarrow> accept_env \<Rightarrow> server_conf \<Rightarrow> side \<Rightarrow> bev_events \<Rightarrow> server_conn \<Rightarrow> server_fault + bool \<times> server_conn" where
  "server_event_cb SHA256 m e cf s ev c =
     (if connected ev
      then and_then (if local_bev (sv_relay c) = None then ssl_accept_cb SHA256 m e cf c else Inr c) (\<lambda>c.
             Inr (False, c \<lparr>sv_relay := bev_update Remote (\<lambda>b. b \<lparr>rd := True, wr := True\<rparr>)
                              (bev_update Local (\<lambda>b. b \<lparr>rd := True, wr := True\<rparr>) (sv_relay c))\<rparr>))
      else case event_cb s ev (sv_relay c) of (cleanup, t) \<Rightarrow> Inr (cleanup, c \<lparr>sv_relay := t\<rparr>))"

section \<open>The event loop\<close>

text \<open>One event of a connection: \<open>None\<close> is its cleanup. \<open>E\<close> says what an event may find.\<close>

inductive conn_step :: "hash \<Rightarrow> stack \<Rightarrow> (accept_env \<Rightarrow> bool) \<Rightarrow> server_conf \<Rightarrow> server_conn \<Rightarrow> server_fault + server_conn option \<Rightarrow> bool" for SHA256 m E cf where
  conn_recv: "bev s (sv_relay c) = Some b \<Longrightarrow> rd b \<Longrightarrow>
    conn_step SHA256 m E cf c (Inr (Some (c \<lparr>sv_relay := bev_update s (receive d) (sv_relay c)\<rparr>)))"
| conn_send: "bev s (sv_relay c) = Some b \<Longrightarrow> wr b \<Longrightarrow>
    conn_step SHA256 m E cf c (Inr (Some (c \<lparr>sv_relay := bev_update s (transmit n) (sv_relay c)\<rparr>)))"
| conn_read: "bev s (sv_relay c) = Some b \<Longrightarrow> read_set b \<Longrightarrow> inbuf b \<noteq> [] \<Longrightarrow>
    conn_step SHA256 m E cf c (Inr (Some (c \<lparr>sv_relay := read_cb s (sv_relay c)\<rparr>)))"
| conn_drained: "bev s (sv_relay c) = Some b \<Longrightarrow> write_set b = Some Drained_write \<Longrightarrow> length (outbuf b) \<le> wm_low b \<Longrightarrow>
    conn_step SHA256 m E cf c (Inr (Some (c \<lparr>sv_relay := drained_write_cb s (sv_relay c)\<rparr>)))"
| conn_finished: "bev s (sv_relay c) = Some b \<Longrightarrow> write_set b = Some Close_on_finished_write \<Longrightarrow> length (outbuf b) \<le> wm_low b \<Longrightarrow>
    conn_step SHA256 m E cf c (Inr (if close_on_finished_write_cb s (sv_relay c) then None else Some c))"
| conn_event: "bev s (sv_relay c) = Some b \<Longrightarrow> event_set b \<Longrightarrow> E e \<Longrightarrow>
    conn_step SHA256 m E cf c (and_then (server_event_cb SHA256 m e cf s ev c) (\<lambda>(cleanup, c'). Inr (if cleanup then None else Some c')))"

inductive server_step :: "hash \<Rightarrow> stack \<Rightarrow> (accept_env \<Rightarrow> bool) \<Rightarrow> server_fault + telex_server \<Rightarrow> server_fault + telex_server \<Rightarrow> bool" for SHA256 m E where
  sv_accept: "sv_conns w p = None \<Longrightarrow> server_step SHA256 m E (Inr w) (tcp_accept_cb ms sock_ok ssl_ok filter_ok p w)"
| sv_run: "sv_conns w p = Some c \<Longrightarrow> conn_step SHA256 m E (sv_conf w) c (Inr (Some c')) \<Longrightarrow>
    server_step SHA256 m E (Inr w) (Inr (set_conn p c' w))"
| sv_close: "sv_conns w p = Some c \<Longrightarrow> conn_step SHA256 m E (sv_conf w) c (Inr None) \<Longrightarrow>
    server_step SHA256 m E (Inr w) (Inr (server_StateCleanup p w))"
| sv_fault: "sv_conns w p = Some c \<Longrightarrow> conn_step SHA256 m E (sv_conf w) c (Inl f) \<Longrightarrow> server_step SHA256 m E (Inr w) (Inl f)"

section \<open>Start\<close>

text \<open>\<open>init_ssl\<close>: whether the context can be created, the certificate and the key be loaded and the parameters' file be opened, and what
  \<open>SSL_CTX_set_tmp_dh\<close> returns.\<close>

definition init_ssl :: "bool \<Rightarrow> int \<Rightarrow> int \<Rightarrow> bool \<Rightarrow> int \<Rightarrow> server_conf \<Rightarrow> int \<times> server_conf" where
  "init_ssl ctx_new chain_file key_file dh_open set_dh cf =
     (let cf = cf \<lparr>sv_ssl_ctx := ctx_new\<rparr>
      in if \<not> ctx_new then (- 1, cf)
         else if chain_file = 0 then (- 1, cf)
         else if key_file = 0 then (- 1, cf)
         else if \<not> dh_open then (- 1, cf)
         else if set_dh < 0 then (- 1, cf)
         else (0, cf))"

text \<open>\<open>InitAndListenLoop\<close> of the server: which of its objects can be created.\<close>

definition server_InitAndListenLoop :: "bool \<Rightarrow> bool \<Rightarrow> bool \<Rightarrow> bool \<Rightarrow> bool \<Rightarrow> int \<Rightarrow> server_conf \<Rightarrow> int \<times> server_conf" where
  "server_InitAndListenLoop base dns bound sigint sigpipe port cf =
     (if \<not> base then (1, cf)
      else let cf = cf \<lparr>sv_dns_base := dns\<rparr>
           in if \<not> dns then (1, cf)
              else if listener_init_local port bound = None then (1, cf)
              else if \<not> sigint then (1, cf)
              else if \<not> sigpipe then (1, cf)
              else (0, cf))"

definition telex_server_run ::
  "(server_conf \<Rightarrow> int \<times> server_conf) \<Rightarrow> (int \<Rightarrow> server_conf \<Rightarrow> int \<times> server_conf) \<Rightarrow> bytes option \<Rightarrow> logger \<Rightarrow> int \<Rightarrow> int \<Rightarrow> int \<Rightarrow> string \<Rightarrow> string \<Rightarrow>
    exit_error + int \<times> logger \<times> server_conf" where
  "telex_server_run init loop privkey_file lg listen_port local_service_port local_telex_port kf dhfile =
     (let lg = LogOutputLevel 9 (LogOutputStream True lg)
      in and_then (tag_load_privkey privkey_file) (\<lambda>privkey.
           let cf = \<lparr>sv_keyfile = kf, sv_dh_file = dhfile, sv_privkey = privkey, sv_dns_base = False, sv_ssl_ctx = False,
                 sv_tag_port = local_telex_port, sv_untag_port = local_service_port, sv_total_connections = 0, sv_count_open_tunnels = 0\<rparr>
           in case init cf of (r, cf) \<Rightarrow>
                if r < 0 then Inr (1, lg, cf) else Inr (0, lg, snd (loop listen_port cf))))"

section \<open>The invariant\<close>

text \<open>The service for a client random and a local address.\<close>

definition service_for :: "hash \<Rightarrow> stack \<Rightarrow> server_conf \<Rightarrow> bytes \<Rightarrow> u32 \<Rightarrow> u32 \<times> u16" where
  "service_for SHA256 m cf random addr =
     (let tagged = fst (check_tag SHA256 m [] (sv_privkey cf) (drop 4 random) (le_bytes 4 addr @ take 4 random @ [0])) = 0
      in (le_word (be_bytes 4 (0x7f000001 :: u32)), le_word (be_bytes 2 (word_of_int (if tagged then sv_tag_port cf else sv_untag_port cf) :: u16))))"

definition server_conn_ok :: "hash \<Rightarrow> stack \<Rightarrow> server_conf \<Rightarrow> server_conn \<Rightarrow> bool" where
  "server_conn_ok SHA256 m cf c \<longleftrightarrow> relay_ok (sv_relay c) \<and>
     (local_bev (sv_relay c) = None \<longrightarrow> remote_bev (sv_relay c) \<in> {None, Some (setcb True None True bufferevent_new)}) \<and>
     (local_bev (sv_relay c) \<noteq> None \<longrightarrow> (\<exists>random addr. sv_hello c = Some (random, addr) \<and> sv_service c = Some (service_for SHA256 m cf random addr)))"

definition server_ok :: "hash \<Rightarrow> stack \<Rightarrow> telex_server \<Rightarrow> bool" where
  "server_ok SHA256 m w \<longleftrightarrow> finite (dom (sv_conns w)) \<and> sv_count_open_tunnels (sv_conf w) = word_of_nat (card (dom (sv_conns w))) \<and>
     (\<forall>p c. sv_conns w p = Some c \<longrightarrow> server_conn_ok SHA256 m (sv_conf w) c)"

lemma check_tag_code: "fst (check_tag SHA256 m key privkey tag ctx) = fst (check_tag SHA256 m [] privkey tag ctx)"
  by (simp add: check_tag_def Let_def)

lemma conn_ok_ports:
  assumes "sv_privkey cf' = sv_privkey cf" "sv_tag_port cf' = sv_tag_port cf" "sv_untag_port cf' = sv_untag_port cf"
  shows "server_conn_ok SHA256 m cf' = server_conn_ok SHA256 m cf"
  using assms by (simp add: server_conn_ok_def service_for_def Let_def fun_eq_iff)

text \<open>An event of the relay keeps a connection with a service.\<close>

lemma relayed_conn_ok:
  assumes "server_conn_ok SHA256 m cf c" "local_bev (sv_relay c) \<noteq> None" "relay_ok t" "same_shape (sv_relay c) t"
  shows "server_conn_ok SHA256 m cf (c \<lparr>sv_relay := t\<rparr>)"
  using assms by (auto simp: server_conn_ok_def same_shape_def)

lemma tunnel_conn_ok:
  assumes "server_conn_ok SHA256 m cf c" "local_bev (sv_relay c) \<noteq> None" "tunnel_step (sv_relay c) (Some t)"
  shows "server_conn_ok SHA256 m cf (c \<lparr>sv_relay := t\<rparr>)"
  using relayed_conn_ok [OF assms(1,2) relay_ok_step [OF assms(3)] shape_step [OF assms(3)]] assms(1) by (simp add: server_conn_ok_def)

lemma accepted_conn_ok:
  assumes "server_conn_ok SHA256 m cf c" "local_bev (sv_relay c) = None" "ssl_accept_cb SHA256 m e cf c = Inr c'"
  shows "server_conn_ok SHA256 m cf c'" "local_bev (sv_relay c') \<noteq> None"
proof -
  let ?ct = "check_tag SHA256 m (tc_secret (crypto (sv_relay c))) (sv_privkey cf) (drop 4 (ae_client_random e)) (server_context e)"
  have "relay_ok (sv_relay c')" "sv_hello c' = Some (ae_client_random e, ae_local_addr e)" "local_bev (sv_relay c') \<noteq> None"
    using assms by (auto simp: ssl_accept_cb_def Let_def server_conn_ok_def relay_ok_def relays_def setcb_def bufferevent_new_def split: if_splits prod.splits)
  moreover have "sv_service c' = Some (service_for SHA256 m cf (ae_client_random e) (ae_local_addr e))"
    using assms(3) check_tag_code [of SHA256 m "tc_secret (crypto (sv_relay c))" "sv_privkey cf" "drop 4 (ae_client_random e)" "server_context e"]
    unfolding ssl_accept_cb_def service_for_def server_context_def Let_def
    by (cases ?ct) (auto simp: server_context_def split: if_splits)
  ultimately show "server_conn_ok SHA256 m cf c'" "local_bev (sv_relay c') \<noteq> None" by (auto simp: server_conn_ok_def)
qed

lemma enabled_conn_ok:
  assumes "server_conn_ok SHA256 m cf c" "local_bev (sv_relay c) \<noteq> None"
  shows "server_conn_ok SHA256 m cf (c \<lparr>sv_relay := bev_update Remote (\<lambda>b. b \<lparr>rd := True, wr := True\<rparr>)
    (bev_update Local (\<lambda>b. b \<lparr>rd := True, wr := True\<rparr>) (sv_relay c))\<rparr>)"
proof (rule relayed_conn_ok [OF assms])
  show "relay_ok (bev_update Remote (\<lambda>b. b \<lparr>rd := True, wr := True\<rparr>) (bev_update Local (\<lambda>b. b \<lparr>rd := True, wr := True\<rparr>) (sv_relay c)))"
    using assms(1) by (intro relay_ok_update) (simp_all add: server_conn_ok_def)
qed (simp add: same_shape_def)

lemma event_conn_ok:
  assumes "server_conn_ok SHA256 m cf c" "bev s (sv_relay c) = Some b" "server_event_cb SHA256 m e cf s ev c = Inr (cleanup, c')" "\<not> cleanup"
  shows "server_conn_ok SHA256 m cf c'"
proof (cases "connected ev")
  case True
  then obtain c1 where c1: "(if local_bev (sv_relay c) = None then ssl_accept_cb SHA256 m e cf c else Inr c) = Inr c1"
    "c' = c1 \<lparr>sv_relay := bev_update Remote (\<lambda>b. b \<lparr>rd := True, wr := True\<rparr>)
      (bev_update Local (\<lambda>b. b \<lparr>rd := True, wr := True\<rparr>) (sv_relay c1))\<rparr>"
    using assms(3) unfolding server_event_cb_def and_then_def by (auto split: sum.splits)
  then have "server_conn_ok SHA256 m cf c1 \<and> local_bev (sv_relay c1) \<noteq> None"
    using accepted_conn_ok [OF assms(1)] assms(1) by (auto split: if_splits)
  then show ?thesis unfolding c1(2) by (intro enabled_conn_ok) simp_all
next
  case False
  then obtain t where t: "event_cb s ev (sv_relay c) = (cleanup, t)" "c' = c \<lparr>sv_relay := t\<rparr>"
    using assms(3) by (auto simp: server_event_cb_def split: prod.splits)
  show ?thesis
  proof (cases "local_bev (sv_relay c)")
    case None
    with assms(2) have "s = Remote" by (cases s) simp_all
    with t False assms(1,4) None show ?thesis by (auto simp: event_cb_def split: if_splits)
  next
    case (Some l)
    have "relay_ok t" using relay_ok_event_cb [OF _ t(1)] assms(1) by (simp add: server_conn_ok_def)
    with Some shape_event_cb [OF t(1)] show ?thesis unfolding t(2) by (intro relayed_conn_ok [OF assms(1)]) simp_all
  qed
qed

lemma step_conn_ok:
  assumes "server_conn_ok SHA256 m cf c" "conn_step SHA256 m E cf c (Inr (Some c'))"
  shows "server_conn_ok SHA256 m cf c'"
proof -
  have new: "s = Remote \<and> b = setcb True None True bufferevent_new" if "local_bev (sv_relay c) = None" "bev s (sv_relay c) = Some b" for s b
    using that assms(1) by (cases s) (auto simp: server_conn_ok_def)
  have fresh: "\<not> rd (setcb True None True bufferevent_new)" "inbuf (setcb True None True bufferevent_new) = []"
    "write_set (setcb True None True bufferevent_new) = None" "transmit n (setcb True None True bufferevent_new) = setcb True None True bufferevent_new" for n
    by (simp_all add: setcb_def bufferevent_new_def transmit_def)
  from assms(2) show ?thesis
  proof (cases rule: conn_step.cases)
    case (conn_recv s b d)
    then have "local_bev (sv_relay c) \<noteq> None" using new fresh by blast
    from tunnel_conn_ok [OF assms(1) this recv [OF conn_recv(2,3)]] conn_recv(1) show ?thesis by simp
  next
    case (conn_send s b n)
    show ?thesis
    proof (cases "local_bev (sv_relay c) = None")
      case True
      then have s: "s = Remote" "remote_bev (sv_relay c) = Some (setcb True None True bufferevent_new)" using new [OF True conn_send(2)] conn_send(2) by auto
      then have "c' = c" using conn_send(1) fresh(4) by simp
      with assms(1) show ?thesis by simp
    next
      case False
      from tunnel_conn_ok [OF assms(1) this send [OF conn_send(2,3)]] conn_send(1) show ?thesis by simp
    qed
  next
    case (conn_read s b)
    then have "local_bev (sv_relay c) \<noteq> None" using new fresh by metis
    from tunnel_conn_ok [OF assms(1) this read [OF conn_read(2-4)]] conn_read(1) show ?thesis by simp
  next
    case (conn_drained s b)
    then have "local_bev (sv_relay c) \<noteq> None" using new fresh by (metis option.distinct(1))
    from tunnel_conn_ok [OF assms(1) this drained [OF conn_drained(2-4)]] conn_drained(1) show ?thesis by simp
  next
    case (conn_finished s b)
    with assms(1) show ?thesis by (simp split: if_splits)
  next
    case (conn_event s b e ev)
    then obtain cleanup where "server_event_cb SHA256 m e cf s ev c = Inr (cleanup, c')" "\<not> cleanup"
      by (auto simp: and_then_def split: sum.splits if_splits)
    with event_conn_ok [OF assms(1) conn_event(2)] show ?thesis by blast
  qed
qed

lemma accept_server_ok:
  assumes "server_ok SHA256 m w" "sv_conns w p = None" "tcp_accept_cb ms sock_ok ssl_ok filter_ok p w = Inr w'"
  shows "server_ok SHA256 m w'"
proof -
  have w: "sv_conf w' = sv_conf (server_StateInit ms p w)" and c: "\<exists>c. sv_conns w' = (sv_conns w)(p \<mapsto> c) \<and>
      local_bev (sv_relay c) = None \<and> remote_bev (sv_relay c) \<in> {None, Some (setcb True None True bufferevent_new)}"
    using assms(3) by (auto simp: tcp_accept_cb_def server_StateInit_def set_conn_def Let_def split: if_splits)
  from c obtain c where c: "sv_conns w' = (sv_conns w)(p \<mapsto> c)" "local_bev (sv_relay c) = None"
    "remote_bev (sv_relay c) \<in> {None, Some (setcb True None True bufferevent_new)}" by blast
  have "server_conn_ok SHA256 m (sv_conf w') = server_conn_ok SHA256 m (sv_conf w)"
    by (rule conn_ok_ports) (simp_all add: w server_StateInit_def Let_def)
  moreover have "sv_count_open_tunnels (sv_conf w') = sv_count_open_tunnels (sv_conf w) + 1" by (simp add: w server_StateInit_def Let_def)
  moreover have "dom (sv_conns w') = insert p (dom (sv_conns w))" "p \<notin> dom (sv_conns w)" using c(1) assms(2) by auto
  moreover have "server_conn_ok SHA256 m (sv_conf w) c" using c(2,3) by (auto simp: server_conn_ok_def relay_ok_def)
  ultimately show ?thesis using assms(1) c(1) by (simp add: server_ok_def)
qed

lemma set_conn_server_ok:
  assumes "server_ok SHA256 m w" "sv_conns w p = Some c" "server_conn_ok SHA256 m (sv_conf w) c'"
  shows "server_ok SHA256 m (set_conn p c' w)"
proof -
  have "dom (sv_conns (set_conn p c' w)) = dom (sv_conns w)" using assms(2) by (auto simp: set_conn_def)
  then show ?thesis using assms(1,3) by (simp add: server_ok_def set_conn_def)
qed

lemma cleanup_server_ok:
  assumes "server_ok SHA256 m w" "sv_conns w p = Some c"
  shows "server_ok SHA256 m (server_StateCleanup p w)"
proof -
  let ?w = "server_StateCleanup p w"
  have "server_conn_ok SHA256 m (sv_conf ?w) = server_conn_ok SHA256 m (sv_conf w)"
    by (rule conn_ok_ports) (simp_all add: server_StateCleanup_def split: option.split)
  moreover have d: "dom (sv_conns ?w) = dom (sv_conns w) - {p}" using assms(2) by (auto simp: server_StateCleanup_def)
  moreover have "card (dom (sv_conns w)) = Suc (card (dom (sv_conns w) - {p}))"
    using assms by (metis card.remove domI server_ok_def)
  ultimately show ?thesis using assms by (simp add: server_ok_def server_StateCleanup_def)
qed

definition server_init :: "server_fault + telex_server \<Rightarrow> bool" where
  "server_init r \<longleftrightarrow> (\<exists>cf. sv_count_open_tunnels cf = 0 \<and> r = Inr \<lparr>sv_conf = cf, sv_conns = (\<lambda>p. None), sv_sbios = 0\<rparr>)"

definition server_inv :: "hash \<Rightarrow> stack \<Rightarrow> server_fault + telex_server \<Rightarrow> bool" where
  "server_inv SHA256 m r \<longleftrightarrow> (\<forall>w. r = Inr w \<longrightarrow> server_ok SHA256 m w)"

interpretation server: invariant_system server_init "server_step SHA256 m E" "server_inv SHA256 m" for SHA256 m E
proof
  show "server_inv SHA256 m s" if "server_init s" for s
    using that by (auto simp: server_init_def server_inv_def server_ok_def)
  show "server_inv SHA256 m t" if "server_inv SHA256 m s" "server_step SHA256 m E s t" for s t
    using that(2)
  proof (cases rule: server_step.cases)
    case (sv_accept w p ms sock_ok ssl_ok filter_ok)
    with that(1) accept_server_ok [of SHA256 m w p ms sock_ok ssl_ok filter_ok] show ?thesis by (auto simp: server_inv_def)
  next
    case (sv_run w p c c')
    with that(1) have ok: "server_ok SHA256 m w" by (simp add: server_inv_def)
    with sv_run(3) have "server_conn_ok SHA256 m (sv_conf w) c" by (simp add: server_ok_def)
    from set_conn_server_ok [OF ok sv_run(3) step_conn_ok [OF this sv_run(4)]] sv_run(2) show ?thesis by (simp add: server_inv_def)
  next
    case (sv_close w p c)
    with that(1) cleanup_server_ok [of SHA256 m w p c] show ?thesis by (simp add: server_inv_def)
  next
    case (sv_fault w p c f)
    then show ?thesis by (simp add: server_inv_def)
  qed
qed

text \<open>A connection whose SSL object could not be created has no callbacks, so that nothing ever cleans it up.\<close>

lemma ssl_failure_leaks:
  assumes "tcp_accept_cb ms sock_ok False filter_ok p w = Inr w'"
  shows "\<exists>c. sv_conns w' p = Some c \<and> (\<forall>r. \<not> conn_step SHA256 m E (sv_conf w') c r)"
proof -
  obtain c where c: "sv_conns w' p = Some c" "local_bev (sv_relay c) = None" "remote_bev (sv_relay c) = None"
    using assms by (auto simp: tcp_accept_cb_def server_StateInit_def set_conn_def Let_def)
  then have "bev s (sv_relay c) = None" for s by (cases s) simp_all
  then have "\<not> conn_step SHA256 m E (sv_conf w') c r" for r by (auto elim: conn_step.cases)
  with c(1) show ?thesis by blast
qed

section \<open>Properties\<close>

text \<open>C19: in every reachable state of the server, a connection with a service is connected to the port for tagged connections of the local
  host if the tag in its client random is one for the address that the client has connected to, and to the other port otherwise;
  what has been received from either side is what has been sent to the other, followed by what is in the buffers; and the counter of open
  tunnels is the number of connections.\<close>

theorem server_relays:
  assumes "reachable server_init (server_step SHA256 m E) (Inr w)" "sv_conns w p = Some c" "local_bev (sv_relay c) = Some l" "remote_bev (sv_relay c) = Some r"
  shows "(\<exists>random addr. sv_hello c = Some (random, addr) \<and> sv_service c = Some (le_word (be_bytes 4 (0x7f000001 :: u32)), le_word (be_bytes 2 (word_of_int
      (if fst (check_tag SHA256 m [] (sv_privkey (sv_conf w)) (drop 4 random) (le_bytes 4 addr @ take 4 random @ [0])) = 0
       then sv_tag_port (sv_conf w) else sv_untag_port (sv_conf w)) :: u16)))) \<and>
    rx l = tx r @ outbuf r @ inbuf l \<and> rx r = tx l @ outbuf l @ inbuf r \<and>
    sv_count_open_tunnels (sv_conf w) = word_of_nat (card (dom (sv_conns w)))"
proof -
  have ok: "server_ok SHA256 m w" using server.reachable_inv [OF assms(1)] by (simp add: server_inv_def)
  then have c: "server_conn_ok SHA256 m (sv_conf w) c" using assms(2) by (simp add: server_ok_def)
  then show ?thesis
    using ok assms(3,4) unfolding server_conn_ok_def relay_ok_def relays_def service_for_def Let_def server_ok_def by blast
qed

text \<open>C20: a client of the server reaches the Telex service. Let a client make a hello for the address of the server and the public key of
  the server's private key. When the handshake is complete, the server connects to the port for tagged connections, and has
  the client's secret. It is assumed that the two orders of point multiplication agree.\<close>

theorem tagged_hello_served:
  assumes "pointmul m 0 (pointmul m' 0 (tag_gen K rand1) seckey) (sv_privkey cf) = pointmul m' 1 (tag_pub K rand1) seckey"
    and "ssl_new_telex SHA256 hmac m' K rand1 seckey time True (ae_local_addr e) c0 = Some (0, k)"
    and "ae_client_random e = telex_client_random k" "ae_service_ok e" "remotetcp (sv_relay c)" "local_bev (sv_relay c) = None" "connected ev"
  shows "\<exists>c'. server_event_cb SHA256 m e cf s ev c = Inr (False, c') \<and>
    sv_service c' = Some (le_word (be_bytes 4 (0x7f000001 :: u32)), le_word (be_bytes 2 (word_of_int (sv_tag_port cf) :: u16))) \<and>
    tc_secret (crypto (sv_relay c')) = tc_secret k"
proof -
  have "take 4 (telex_client_random k) = be_bytes 4 time"
    using assms(2) by (auto simp: ssl_new_telex_def split: option.splits prod.splits)
  then have "server_context e = tag_context (ae_local_addr e) time" by (simp add: server_context_def tag_context_def assms(3))
  then have "check_tag SHA256 m key (sv_privkey cf) (drop 4 (ae_client_random e)) (server_context e) = (0, tc_secret k)" for key
    using check_new_telex(1) [OF assms(1,2), of key] assms(3) by simp
  then show ?thesis using assms(4-7) by (simp add: server_event_cb_def ssl_accept_cb_def Let_def)
qed

section \<open>An example\<close>

definition server_conf_0 :: "bytes \<Rightarrow> server_conf" where
  "server_conf_0 k = \<lparr>sv_keyfile = ''server.pem'', sv_dh_file = ''dh1024.pem'', sv_privkey = k, sv_dns_base = True, sv_ssl_ctx = True, sv_tag_port = 8081,
     sv_untag_port = 8080, sv_total_connections = 0, sv_count_open_tunnels = 0\<rparr>"

definition server_0 :: telex_server where
  "server_0 = \<lparr>sv_conf = server_conf_0 [], sv_conns = (\<lambda>p. None), sv_sbios = 0\<rparr>"

definition server_conn_0 :: server_conn where
  "server_conn_0 = \<lparr>sv_relay = \<lparr>tid = 0, start_ms = 0, local_bev = None, remote_bev = Some (setcb True None True bufferevent_new), remotetcp = True,
     in_local = 0, in_remote = 0, ts_ssl = True,
     crypto = \<lparr>tc_tag = [], tc_secret = replicate 16 0, telex_client_random = [], telex_dh_priv_key = 0\<rparr>, resolving = False\<rparr>,
     sv_service = None, sv_hello = None\<rparr>"

definition accept_env_0 :: "bytes \<Rightarrow> accept_env" where
  "accept_env_0 random = \<lparr>ae_client_random = random, ae_local_addr = 0x0100007f, ae_service_ok = True\<rparr>"

lemma connected_0:
  "\<exists>c l r. server_event_cb SHA256 m (accept_env_0 random) cf Remote (BEV_Events True False False) server_conn_0 = Inr (False, c) \<and>
     local_bev (sv_relay c) = Some l \<and> remote_bev (sv_relay c) = Some r \<and> rd r"
  by (simp add: server_event_cb_def ssl_accept_cb_def Let_def server_conn_0_def accept_env_0_def split: prod.split)

lemma reach_relaying:
  "\<exists>w c l r. reachable server_init (server_step SHA256 m (\<lambda>e. True)) (Inr w) \<and> sv_conns w 2 = Some c \<and>
     local_bev (sv_relay c) = Some l \<and> remote_bev (sv_relay c) = Some r \<and> [7] = drop (length (rx r) - 1) (rx r)"
proof -
  have "server_init (Inr server_0)" by (simp add: server_init_def server_0_def server_conf_0_def)
  then have r0: "reachable server_init (server_step SHA256 m (\<lambda>e. True)) (Inr server_0)" by (rule reachable_init)
  have "server_step SHA256 m (\<lambda>e. True) (Inr server_0) (tcp_accept_cb 0 True True True 2 server_0)" by (rule sv_accept) (simp add: server_0_def)
  moreover obtain w1 where w1: "tcp_accept_cb 0 True True True 2 server_0 = Inr w1" "sv_conns w1 2 = Some server_conn_0"
    by (simp add: tcp_accept_cb_def server_StateInit_def Let_def set_conn_def server_0_def server_conn_0_def server_conf_0_def)
  ultimately have r1: "reachable server_init (server_step SHA256 m (\<lambda>e. True)) (Inr w1)" using reachable_step [OF r0] by simp
  obtain c l r where c: "server_event_cb SHA256 m (accept_env_0 []) (sv_conf w1) Remote (BEV_Events True False False) server_conn_0 = Inr (False, c)"
    "local_bev (sv_relay c) = Some l" "remote_bev (sv_relay c) = Some r" "rd r" using connected_0 by blast
  have "conn_step SHA256 m (\<lambda>e. True) (sv_conf w1) server_conn_0
      (and_then (server_event_cb SHA256 m (accept_env_0 []) (sv_conf w1) Remote (BEV_Events True False False) server_conn_0) (\<lambda>(cl, c'). Inr (if cl then None else Some c')))"
    by (rule conn_event [where b = "setcb True None True bufferevent_new"]) (simp_all add: server_conn_0_def setcb_def)
  then have "conn_step SHA256 m (\<lambda>e. True) (sv_conf w1) server_conn_0 (Inr (Some c))" by (simp add: c(1))
  then have r2: "reachable server_init (server_step SHA256 m (\<lambda>e. True)) (Inr (set_conn 2 c w1))" by (rule reachable_step [OF r1 sv_run [OF w1(2)]])
  have "sv_conns (set_conn 2 c w1) 2 = Some c" by (simp add: set_conn_def)
  moreover define c' where "c' = c \<lparr>sv_relay := bev_update Remote (receive [7]) (sv_relay c)\<rparr>"
  moreover have "conn_step SHA256 m (\<lambda>e. True) (sv_conf (set_conn 2 c w1)) c (Inr (Some c'))"
    unfolding c'_def by (rule conn_recv [where b = r]) (simp_all add: c)
  ultimately have "reachable server_init (server_step SHA256 m (\<lambda>e. True)) (Inr (set_conn 2 c' (set_conn 2 c w1)))"
    using reachable_step [OF r2 sv_run] by blast
  moreover have "local_bev (sv_relay c') = Some l" "remote_bev (sv_relay c') = Some (receive [7] r)" using c by (simp_all add: c'_def)
  moreover have "[7] = drop (length (rx (receive [7] r)) - 1) (rx (receive [7] r))" by (simp add: receive_def)
  moreover have "sv_conns (set_conn 2 c' (set_conn 2 c w1)) 2 = Some c'" by (simp add: set_conn_def)
  ultimately show ?thesis by blast
qed

theorem server_relays_witness:
  "\<exists>w c l r. reachable server_init (server_step (\<lambda>x. replicate 32 5) (\<lambda>i. (0, (0, 0, 0))) (\<lambda>e. True)) (Inr w) \<and> sv_conns w 2 = Some c \<and>
     local_bev (sv_relay c) = Some l \<and> remote_bev (sv_relay c) = Some r \<and> rx r \<noteq> [] \<and> rx r = tx l @ outbuf l @ inbuf r"
proof -
  obtain w c l r where h: "reachable server_init (server_step (\<lambda>x. replicate 32 5) (\<lambda>i. (0, (0, 0, 0))) (\<lambda>e. True)) (Inr w)" "sv_conns w 2 = Some c"
    "local_bev (sv_relay c) = Some l" "remote_bev (sv_relay c) = Some r" "[7] = drop (length (rx r) - 1) (rx r)"
    using reach_relaying by blast
  then have "rx r \<noteq> []" by auto
  with server_relays [OF h(1-4)] h(1-4) show ?thesis by blast
qed

theorem tagged_hello_served_witness:
  "\<exists>k random c'. server_event_cb (\<lambda>x. replicate 32 5) (\<lambda>i. (0, (0, 0, 0))) (accept_env_0 random) (server_conf_0 k) Remote (BEV_Events True False False) server_conn_0 =
       Inr (False, c') \<and> sv_service c' = Some (0x0100007f, 0x911f)"
proof -
  define m :: stack where "m = (\<lambda>i. (0, (0, 0, 0)))"
  define k :: bytes where "k = replicate 21 9"
  define h :: hash where "h = (\<lambda>x. replicate 32 5)"
  define hm :: "bytes \<Rightarrow> bytes \<Rightarrow> bytes" where "hm = (\<lambda>k m. take 32 (k @ m @ replicate 32 0))"
  define K where "K = \<lparr>maingen = (replicate 21 0)[0 := 2], twistgen = replicate 21 0, mainpub = pointmul m 1 ((replicate 21 0)[0 := 2]) k, twistpub = []\<rparr>"
  define c0 where "c0 = \<lparr>tc_tag = [], tc_secret = [], telex_client_random = [], telex_dh_priv_key = 0\<rparr>"
  have eq: "pointmul m 0 (pointmul m 0 (tag_gen K 0) k) (sv_privkey (server_conf_0 k)) = pointmul m 1 (tag_pub K 0) k"
    by (simp add: tag_gen_def tag_pub_def pointmul_def K_def m_def server_conf_0_def)
  have len: "\<forall>k m. length (hm k m) = SHA256_DIGEST_LENGTH" by (auto simp: hm_def SHA256_DIGEST_LENGTH_def min_def)
  have a: "ae_local_addr (accept_env_0 random) = 0x0100007f" "ae_client_random (accept_env_0 random) = random" "ae_service_ok (accept_env_0 random)" for random
    by (simp_all add: accept_env_0_def)
  obtain c where c: "ssl_new_telex h hm m K 0 k 1000 True 0x0100007f c0 = Some (0, c)" using new_telex_some [OF len] by blast
  have n: "remotetcp (sv_relay server_conn_0)" "local_bev (sv_relay server_conn_0) = None" by (simp_all add: server_conn_0_def)
  have p: "le_word (be_bytes 4 (0x7f000001 :: u32)) = (0x0100007f :: u32)" "le_word (be_bytes 2 (8081 :: u16)) = (0x911f :: u16)"
    by (simp_all add: be_bytes_def le_bytes_numeral le_word_def)
  show ?thesis
    using tagged_hello_served [OF eq c [folded a(1) [of "telex_client_random c"]] a(2,3) n, of "BEV_Events True False False" Remote] p
    unfolding h_def m_def by (auto simp: server_conf_0_def)
qed

end
