(* ===== verification/Httpd.thy ===== *)
theory Httpd
  imports Bronnect
begin

text \<open>
  The status server of the station (\<open>src/telex-station/station/net/httpd.c\<close>): the record that it logs every five
  seconds, the charts that it draws from a file of such records, and its other pages. Text is a list of characters;
  \<open>strftime\<close> and the query of a request are parameters. A hash table is the list of its entries, and \<open>iter\<close> is the
  order in which an iterator visits them.
\<close>

section \<open>Statistics\<close>

definition MAX_PORTS :: nat where "MAX_PORTS = 15"

definition MAX_HTTPD_LINE_SIZE :: nat where "MAX_HTTPD_LINE_SIZE = 125 + MAX_PORTS * 20"

definition HTTPD_LOG_INTERVAL :: nat where "HTTPD_LOG_INTERVAL = 5"

datatype http_fault = Http_Null | Http_Assertion | Http_Bounds | Http_Uninitialised

record port_stats =
  users :: "u32 list"
  port :: int
  users_size :: u64
  port_conns :: u64

type_synonym port_table = "(int \<times> port_stats) list"

definition port_stats_new :: port_stats where
  "port_stats_new = \<lparr>users = [], port = 0, users_size = 0, port_conns = 0\<rparr>"

definition update_port_usage :: "port_table \<Rightarrow> int \<Rightarrow> u32 \<Rightarrow> port_table" where
  "update_port_usage port_users kport client_ip =
     (let port_users = (if map_of port_users kport = None then port_users @ [(kport, port_stats_new)] else port_users)
      in map (\<lambda>(k, ps). (k, if k = kport
                then ps \<lparr>users := List.insert client_ip (users ps), port_conns := port_conns ps + 1\<rparr> else ps)) port_users)"

definition port_usage :: "ConnectionState list \<Rightarrow> port_table" where
  "port_usage cs = foldl (\<lambda>t st. update_port_usage t (key_port st) (orig_h (flow_state st))) [] cs"

definition port_stat_cmp :: "port_stats \<Rightarrow> port_stats \<Rightarrow> int" where
  "port_stat_cmp p1 p2 = (if port p1 < port p2 then - 1 else if port p1 > port p2 then 1 else 0)"

text \<open>\<open>qsort\<close> sorts by a comparison function.\<close>

fun insert_cmp :: "('a \<Rightarrow> 'a \<Rightarrow> int) \<Rightarrow> 'a \<Rightarrow> 'a list \<Rightarrow> 'a list" where
  "insert_cmp cmp x [] = [x]"
| "insert_cmp cmp x (y # ys) = (if cmp x y \<le> 0 then x # y # ys else y # insert_cmp cmp x ys)"

definition qsort :: "('a \<Rightarrow> 'a \<Rightarrow> int) \<Rightarrow> 'a list \<Rightarrow> 'a list" where
  "qsort cmp xs = foldr (insert_cmp cmp) xs []"

section \<open>The log record\<close>

definition NUL :: char where "NUL = CHR 0x00"
definition NL :: char where "NL = CHR 0x0A"

text \<open>\<open>snprintf\<close> at an offset of a buffer, with room for \<open>room\<close> characters: it stores what fits and a terminator.\<close>

definition snprintf_at :: "string \<Rightarrow> nat \<Rightarrow> nat \<Rightarrow> string \<Rightarrow> http_fault + string" where
  "snprintf_at buf offset room txt =
     (if room = 0 then Inr buf
      else let out = take (room - 1) txt @ [NUL]
           in if offset + length out > length buf then Inl Http_Bounds
              else Inr (take offset buf @ out @ drop (offset + length out) buf))"

text \<open>The statement that appends to the message, if the offset allows it.\<close>

definition append_msg :: "string \<Rightarrow> nat \<times> string \<Rightarrow> http_fault + nat \<times> string" where
  "append_msg txt ob = (case ob of (offset, buf) \<Rightarrow>
     if offset \<le> MAX_HTTPD_LINE_SIZE
     then and_then (snprintf_at buf offset (MAX_HTTPD_LINE_SIZE - offset) txt) (\<lambda>buf. Inr (offset + length txt, buf))
     else Inr ob)"

fun append_msgs :: "string list \<Rightarrow> nat \<times> string \<Rightarrow> http_fault + nat \<times> string" where
  "append_msgs [] ob = Inr ob"
| "append_msgs (t # ts) ob = and_then (append_msg t ob) (append_msgs ts)"

definition ld :: "u64 \<Rightarrow> string" where "ld x = show_int (sint x)"
definition dd :: "u32 \<Rightarrow> string" where "dd x = show_int (sint x)"
definition sp :: string where "sp = '' ''"

record httpd =
  last_up_bytes :: u64
  last_down_bytes :: u64
  port_list :: "int list"
  port_list_len :: int
  syslog_lines :: "string list"
  log_timer :: bool

definition log_head :: "u32 \<Rightarrow> ConnectionState list \<Rightarrow> u64 \<Rightarrow> u64 \<Rightarrow> bron \<Rightarrow> string" where
  "log_head time cs since_last_up since_last_down w =
     dd time @ sp @ dd (word_of_nat (length cs)) @ sp @
     dd (word_of_nat (length (remdups (map (\<lambda>st. orig_h (flow_state st)) cs)))) @ sp @
     ld since_last_up @ sp @ ld since_last_down @ sp @ dd (active_connections w) @ sp @ ld (up_bytes w) @ sp @
     ld (down_bytes w) @ sp @ dd (total_connections w) @ sp"

definition log_port :: "port_stats \<Rightarrow> string" where
  "log_port ps = show_int (port ps) @ sp @ ld (users_size ps) @ sp @ ld (port_conns ps) @ sp"

definition collect_ports :: "(port_table \<Rightarrow> port_table) \<Rightarrow> port_table \<Rightarrow> port_stats list" where
  "collect_ports iter port_users =
     map (\<lambda>(k, cur). \<lparr>users = [], port = k, users_size = word_of_nat (length (users cur)), port_conns = port_conns cur\<rparr>)
       (iter port_users)"

definition httpd_log ::
  "u32 \<Rightarrow> string \<Rightarrow> (port_table \<Rightarrow> port_table) \<Rightarrow> ConnectionState list \<Rightarrow> bron \<Rightarrow> httpd \<Rightarrow> http_fault + httpd" where
  "httpd_log time garbage iter cs w h =
     (let syslog_msg = garbage;
          since_last_up = up_bytes w - last_up_bytes h;
          since_last_down = down_bytes w - last_down_bytes h;
          h = h \<lparr>last_up_bytes := up_bytes w, last_down_bytes := down_bytes w\<rparr>;
          port_users = port_usage cs;
          txt = log_head time cs since_last_up since_last_down w
      in and_then (snprintf_at syslog_msg 0 MAX_HTTPD_LINE_SIZE txt) (\<lambda>buf.
           let num_ports = length port_users
           in and_then (append_msg (show_int (int num_ports) @ sp) (length txt, buf)) (\<lambda>ob.
                let pstats = qsort port_stat_cmp (collect_ports iter port_users)
                in and_then (append_msgs (map log_port pstats) ob) (\<lambda>(offset, buf).
                     Inr (h \<lparr>syslog_lines := syslog_lines h @ [takeWhile (\<lambda>c. c \<noteq> NUL) buf], log_timer := True\<rparr>)))))"

section \<open>Reading records\<close>

text \<open>The arguments of the formatting functions.\<close>

record log_row =
  r_utime :: u32
  r_tot_conns :: u32
  r_unique_clients :: u32
  r_up_bytes :: u32
  r_down_bytes :: u32
  r_active_conns :: u32
  r_tot_up :: u64
  r_tot_down :: u64
  r_total_conns :: u32
  r_pstats :: "port_stats list"

text \<open>The variables of \<open>httpd_log_to_js\<close> keep their values when a conversion fails; \<open>g\<close> is the memory that
  \<open>malloc\<close> returns. \<open>None\<close> is the end of the file.\<close>

definition keep :: "int list \<Rightarrow> int list \<Rightarrow> int list" where
  "keep vals old = vals @ drop (length vals) old"

definition port_of :: "int list \<Rightarrow> port_stats" where
  "port_of vs = \<lparr>users = [], port = sint (word_of_int (vs ! 0) :: u32), users_size = word_of_int (vs ! 1), port_conns = word_of_int (vs ! 2)\<rparr>"

fun scan_ports :: "int list \<Rightarrow> nat \<Rightarrow> string \<Rightarrow> (port_stats list \<times> string) option" where
  "scan_ports g 0 str = Some ([], str)"
| "scan_ports g (Suc n) str =
     (case scan_ints 3 str of (vals, rest, ended) \<Rightarrow>
        if vals = [] \<and> ended then None
        else map_option (\<lambda>(ps, rest). (port_of (keep vals g) # ps, rest)) (scan_ports g n rest))"

definition row_of :: "int list \<Rightarrow> port_stats list \<Rightarrow> log_row" where
  "row_of vs ps = \<lparr>r_utime = word_of_int (vs ! 0), r_tot_conns = word_of_int (vs ! 1), r_unique_clients = word_of_int (vs ! 2),
     r_up_bytes = word_of_int (vs ! 3), r_down_bytes = word_of_int (vs ! 4), r_active_conns = word_of_int (vs ! 5),
     r_tot_up = word_of_int (vs ! 6), r_tot_down = word_of_int (vs ! 7), r_total_conns = word_of_int (vs ! 8), r_pstats = ps\<rparr>"

text \<open>The loop, with a bound on the number of its iterations; \<open>None\<close> is a loop that has not ended.\<close>

fun js_loop ::
  "nat \<Rightarrow> int list \<Rightarrow> u32 \<Rightarrow> int \<Rightarrow> (log_row \<Rightarrow> http_fault + string) \<Rightarrow> int list \<Rightarrow> int \<Rightarrow> string \<Rightarrow> (http_fault + string) option" where
  "js_loop 0 g since every fmt vs count str = None"
| "js_loop (Suc fuel) g since every fmt vs count str =
     (case scan_ints 10 str of (vals, rest, ended) \<Rightarrow>
        if vals = [] \<and> ended then Some (Inr [])
        else let vs = keep vals vs
             in case scan_ports g (unat (word_of_int (vs ! 9) :: u32)) rest of
                  None \<Rightarrow> Some (Inr [])
                | Some (ps, rest) \<Rightarrow>
                    let row = row_of vs ps
                    in if r_utime row < since then js_loop fuel g since every fmt vs count rest
                       else if count + 1 < every then js_loop fuel g since every fmt vs (count + 1) rest
                       else case fmt row of
                              Inl x \<Rightarrow> Some (Inl x)
                            | Inr txt \<Rightarrow> map_option (\<lambda>r. and_then r (\<lambda>out. Inr (txt @ out)))
                                           (js_loop fuel g since every fmt vs 0 rest))"

definition httpd_log_to_js ::
  "nat \<Rightarrow> int list \<Rightarrow> int list \<Rightarrow> u32 \<Rightarrow> string option \<Rightarrow> int \<Rightarrow> int \<Rightarrow> (log_row \<Rightarrow> http_fault + string) \<Rightarrow> (http_fault + string) option" where
  "httpd_log_to_js fuel g uninit tnow fp time_diff every fmt =
     (case fp of
        None \<Rightarrow> Some (Inl Http_Null)
      | Some file \<Rightarrow> js_loop fuel g (tnow - word_of_int time_diff) every fmt uninit 0 file)"

section \<open>Charts\<close>

definition httpd_add_google_chart_header :: "string \<Rightarrow> string list \<Rightarrow> string" where
  "httpd_add_google_chart_header type_list titles =
     ''<html>'' @ [NL] @ ''<head>'' @ [NL] @
     ''<style type=\"text/css\" src=\"https://telex.cc/stats.css\"></style>'' @ [NL] @
     ''<script type=\"text/javascript\" src=\"https://www.google.com/jsapi\"></script>'' @ [NL] @
     ''<script type=\"text/javascript\">'' @ [NL] @
     ''  google.load(\"visualization\", \"1\", {packages:[\"corechart\"]});'' @ [NL] @
     ''  google.setOnLoadCallback(drawChart)'' @ [NL] @ ''  function drawChart() {'' @ [NL] @
     ''    var data = new google.visualization.DataTable();'' @ [NL] @
     concat (map (\<lambda>(t, title). ''    data.addColumn('' @ [CHR 0x27] @
         (if t = CHR ''n'' then ''number'' else if t = CHR ''s'' then ''string'' else ''unknown'') @ [CHR 0x27] @ '', '' @
         [CHR 0x27] @ title @ [CHR 0x27] @ '');'' @ [NL]) (zip type_list titles))"

definition httpd_add_google_chart_footer :: "int \<Rightarrow> int \<Rightarrow> string \<Rightarrow> string" where
  "httpd_add_google_chart_footer width height title =
     ''    var chart = new google.visualization.LineChart(document.getElementById('' @ [CHR 0x27] @ ''chart_div'' @ [CHR 0x27] @ ''));'' @ [NL] @
     ''    chart.draw(data, {width: '' @ show_int width @ '', height: '' @ show_int height @ '', title: '' @ [CHR 0x27] @ title @ [CHR 0x27] @ ''});'' @ [NL] @
     ''  }'' @ [NL] @ ''</script>'' @ [NL] @ ''</head>'' @ [NL] @
     ''<body><div id=\"chart_div\"></div></body>'' @ [NL] @ ''</html>'' @ [NL]"

text \<open>A request is the function that finds the value of a key in its query.\<close>

type_synonym query = "string \<Rightarrow> string option"

definition httpd_parse_int :: "query \<Rightarrow> string \<Rightarrow> int \<Rightarrow> int" where
  "httpd_parse_int req key ret = (case req key of None \<Rightarrow> ret | Some ret_s \<Rightarrow> strtol ret_s)"

definition httpd_parse_time_ago :: "query \<Rightarrow> int" where
  "httpd_parse_time_ago req = httpd_parse_int req ''t'' (60 * 30)"

definition httpd_parse_every :: "query \<Rightarrow> int" where
  "httpd_parse_every req = (let ret = httpd_parse_int req ''e'' 1 in if ret < 1 then 1 else ret)"

definition httpd_parse_width :: "query \<Rightarrow> int" where
  "httpd_parse_width req = (let ret = httpd_parse_int req ''w'' 1200 in if ret < 0 \<or> ret > 10000 then 1200 else ret)"

definition httpd_parse_height :: "query \<Rightarrow> int" where
  "httpd_parse_height req = (let ret = httpd_parse_int req ''h'' 800 in if ret < 0 \<or> ret > 10000 then 800 else ret)"

text \<open>\<open>fgets\<close> with a buffer of \<open>n\<close> characters: the string read and the rest of the file.\<close>

definition fgets :: "nat \<Rightarrow> string \<Rightarrow> string \<times> string" where
  "fgets n file =
     (let chunk = take (n - 1) file; l = takeWhile (\<lambda>c. c \<noteq> NL) chunk
      in if length l < length chunk then (l @ [NL], drop (Suc (length l)) file) else (l, drop (length l) file))"

function last_line :: "string \<Rightarrow> string option \<Rightarrow> string option" where
  "last_line file line =
     (if file = [] then line else case fgets MAX_HTTPD_LINE_SIZE file of (l, rest) \<Rightarrow> last_line rest (Some l))"
  by pat_completeness auto
termination
  by (relation "measure (\<lambda>(file, line). length file)")
    (auto simp: fgets_def Let_def MAX_HTTPD_LINE_SIZE_def MAX_PORTS_def neq_Nil_conv split: if_splits)

declare last_line.simps [simp del]

text \<open>\<open>set_port_list\<close>: the ports of the last line become columns. A failed conversion leaves \<open>num_ports\<close>, \<open>offset\<close> or
  \<open>port\<close> without a value. The conversion \<open>%n\<close> stands behind white space, which has been skipped.\<close>

fun port_columns :: "nat \<Rightarrow> string \<Rightarrow> http_fault + string \<times> int list" where
  "port_columns 0 line = Inr ([], [])"
| "port_columns (Suc n) line =
     (case scan_ints 3 line of (vals, rest, ended) \<Rightarrow>
        if length vals < 3 then Inl Http_Uninitialised
        else let rest = dropWhile is_space rest;
                 new_offset = length line - length rest;
                 port = sint (word_of_int (vals ! 0) :: u32)
             in and_then (port_columns n rest) (\<lambda>(out, ports).
                  Inr (''    data.addColumn('' @ [CHR 0x27] @ ''number'' @ [CHR 0x27] @ '', '' @ [CHR 0x27] @ show_int port @ [CHR 0x27] @
                       ''); // '' @ show_int (int new_offset) @ [NL] @ out, port # ports)))"

definition set_port_list :: "string option \<Rightarrow> httpd \<Rightarrow> http_fault + string \<times> httpd" where
  "set_port_list fp h =
     (case fp of
        None \<Rightarrow> Inl Http_Null
      | Some file \<Rightarrow>
          (let file = (if length file < MAX_HTTPD_LINE_SIZE then file else drop (length file - MAX_HTTPD_LINE_SIZE) file)
           in case last_line file None of
                None \<Rightarrow> Inl Http_Uninitialised
              | Some line \<Rightarrow>
                  (case scan_ints 10 (takeWhile (\<lambda>c. c \<noteq> NUL) line) of (vals, rest, ended) \<Rightarrow>
                     if length vals < 10 then Inl Http_Uninitialised
                     else let num_ports = sint (word_of_int (vals ! 9) :: u32)
                          in if \<not> num_ports < int MAX_PORTS then Inl Http_Assertion
                             else and_then (port_columns (nat num_ports) (dropWhile is_space rest)) (\<lambda>(out, ports).
                                    Inr (out, h \<lparr>port_list := ports @ drop (length ports) (port_list h), port_list_len := num_ports\<rparr>)))))"

text \<open>The inner loop of \<open>httpd_log_fmt_port\<close> at the column \<open>k\<close>, which is \<open>i + added\<close>; without a column the function returns.\<close>

function skip_columns :: "int list \<Rightarrow> int \<Rightarrow> int \<Rightarrow> nat \<Rightarrow> http_fault + string \<times> nat option" where
  "skip_columns pl len p k =
     (if k \<ge> length pl then Inl Http_Bounds
      else if p > pl ! k
      then if int (Suc k) > len then Inr ('',0'', None)
           else and_then (skip_columns pl len p (Suc k)) (\<lambda>(out, r). Inr ('',0'' @ out, r))
      else Inr ([], Some k))"
  by pat_completeness auto
termination
  by (relation "measure (\<lambda>(pl, len, p, k). length pl - k)") auto

declare skip_columns.simps [simp del]

text \<open>The outer loop, at the column for the next port of the record.\<close>

fun port_cells :: "int list \<Rightarrow> int \<Rightarrow> (port_stats \<Rightarrow> u64) \<Rightarrow> nat \<Rightarrow> port_stats list \<Rightarrow> http_fault + string" where
  "port_cells pl len f k [] = Inr []"
| "port_cells pl len f k (p # ps) =
     (if \<not> int k < len then Inr []
      else and_then (skip_columns pl len (port p) k) (\<lambda>(out, r).
             case r of
               None \<Rightarrow> Inr out
             | Some k \<Rightarrow>
                 and_then (port_cells pl len f (Suc k) ps) (\<lambda>rest.
                   Inr (out @ (if port p \<noteq> pl ! k then [] else '','' @ ld (f p)) @ rest))))"

definition httpd_log_fmt_port :: "(port_stats \<Rightarrow> u64) \<Rightarrow> httpd \<Rightarrow> string \<Rightarrow> port_stats list \<Rightarrow> http_fault + string" where
  "httpd_log_fmt_port f h utime_str pstats =
     and_then (port_cells (port_list h) (port_list_len h) f 0 pstats) (\<lambda>cells.
       Inr (''     data.addRow(['' @ [CHR 0x27] @ utime_str @ [CHR 0x27] @ cells @ '']);'' @ [NL]))"

definition httpd_log_fmt_port_users :: "httpd \<Rightarrow> log_row \<Rightarrow> string \<Rightarrow> http_fault + string" where
  "httpd_log_fmt_port_users h r utime_str = httpd_log_fmt_port users_size h utime_str (r_pstats r)"

definition httpd_log_fmt_port_conns :: "httpd \<Rightarrow> log_row \<Rightarrow> string \<Rightarrow> http_fault + string" where
  "httpd_log_fmt_port_conns h r utime_str = httpd_log_fmt_port port_conns h utime_str (r_pstats r)"

definition httpd_log_fmt_bw_down_tot :: "log_row \<Rightarrow> string \<Rightarrow> string" where
  "httpd_log_fmt_bw_down_tot r utime_str = ''    data.addRow(['' @ [CHR 0x27] @ utime_str @ [CHR 0x27] @ '','' @ ld (r_tot_down r div 1024) @ '']);'' @ [NL]"

definition httpd_log_fmt_bw_up_tot :: "log_row \<Rightarrow> string \<Rightarrow> string" where
  "httpd_log_fmt_bw_up_tot r utime_str = ''    data.addRow(['' @ [CHR 0x27] @ utime_str @ [CHR 0x27] @ '','' @ ld (r_tot_up r div 1024) @ '']);'' @ [NL]"

definition httpd_log_fmt_tot_conns :: "log_row \<Rightarrow> string \<Rightarrow> string" where
  "httpd_log_fmt_tot_conns r utime_str = ''    data.addRow(['' @ [CHR 0x27] @ utime_str @ [CHR 0x27] @ '','' @ dd (r_total_conns r) @ '']);'' @ [NL]"

definition httpd_log_fmt_bw :: "log_row \<Rightarrow> string \<Rightarrow> string" where
  "httpd_log_fmt_bw r utime_str = ''    data.addRow(['' @ [CHR 0x27] @ utime_str @ [CHR 0x27] @ '','' @ dd (r_up_bytes r div (1024 * word_of_nat HTTPD_LOG_INTERVAL)) @ '','' @ dd (r_down_bytes r div (1024 * word_of_nat HTTPD_LOG_INTERVAL)) @ '']);'' @ [NL]"

definition httpd_log_fmt_chart :: "log_row \<Rightarrow> string \<Rightarrow> string" where
  "httpd_log_fmt_chart r utime_str = ''    data.addRow(['' @ [CHR 0x27] @ utime_str @ [CHR 0x27] @ '','' @ dd (r_active_conns r) @ '','' @ dd (r_unique_clients r) @ '']);'' @ [NL]"

text \<open>What a chart is drawn from: the bound on the loop, the values of uninitialised variables, the clock, the file and the time
  of a record as text.\<close>

record chart_env =
  ce_fuel :: nat
  ce_malloc :: "int list"
  ce_uninit :: "int list"
  ce_now :: u32
  ce_file :: "string option"
  ce_time :: "u32 \<Rightarrow> string option"

definition time_text :: "chart_env \<Rightarrow> log_row \<Rightarrow> string" where
  "time_text e r = (case ce_time e (r_utime r) of None \<Rightarrow> ''err'' | Some t \<Rightarrow> t)"

definition chart_rows :: "chart_env \<Rightarrow> query \<Rightarrow> (log_row \<Rightarrow> string \<Rightarrow> http_fault + string) \<Rightarrow> (http_fault + string) option" where
  "chart_rows e req fmt = httpd_log_to_js (ce_fuel e) (ce_malloc e) (ce_uninit e) (ce_now e) (ce_file e)
     (httpd_parse_time_ago req) (httpd_parse_every req) (\<lambda>r. fmt r (time_text e r))"

definition HTTPD_CHART_HANDLER ::
  "string \<Rightarrow> (log_row \<Rightarrow> string \<Rightarrow> string) \<Rightarrow> string \<Rightarrow> string list \<Rightarrow> chart_env \<Rightarrow> query \<Rightarrow> (http_fault + string) option" where
  "HTTPD_CHART_HANDLER title fmt col_fmt titles e req =
     map_option (\<lambda>r. and_then r (\<lambda>rows.
       Inr (httpd_add_google_chart_header col_fmt titles @ rows @
            httpd_add_google_chart_footer (httpd_parse_width req) (httpd_parse_height req) title)))
     (chart_rows e req (\<lambda>r t. Inr (fmt r t)))"

definition HTTPD_CHART_HANDLER_PORT ::
  "string \<Rightarrow> (httpd \<Rightarrow> log_row \<Rightarrow> string \<Rightarrow> http_fault + string) \<Rightarrow> chart_env \<Rightarrow> query \<Rightarrow> httpd \<Rightarrow> (http_fault + string \<times> httpd) option" where
  "HTTPD_CHART_HANDLER_PORT title fmt e req h =
     (case set_port_list (ce_file e) h of
        Inl x \<Rightarrow> Some (Inl x)
      | Inr (columns, h) \<Rightarrow>
          map_option (\<lambda>r. and_then r (\<lambda>rows.
            Inr (httpd_add_google_chart_header ''s'' [''Time''] @ columns @ rows @
                 httpd_add_google_chart_footer (httpd_parse_width req) (httpd_parse_height req) title, h)))
          (chart_rows e req (fmt h)))"

definition httpd_port_users_handler :: "chart_env \<Rightarrow> query \<Rightarrow> httpd \<Rightarrow> (http_fault + string \<times> httpd) option" where
  "httpd_port_users_handler =
     HTTPD_CHART_HANDLER_PORT ''Unique Telex users'' httpd_log_fmt_port_users"

definition httpd_port_conns_handler :: "chart_env \<Rightarrow> query \<Rightarrow> httpd \<Rightarrow> (http_fault + string \<times> httpd) option" where
  "httpd_port_conns_handler =
     HTTPD_CHART_HANDLER_PORT ''Telex connections'' httpd_log_fmt_port_conns"

definition httpd_bw_total_down_handler :: "chart_env \<Rightarrow> query \<Rightarrow> (http_fault + string) option" where
  "httpd_bw_total_down_handler =
     HTTPD_CHART_HANDLER ''Telex Bandwidth (aggregate)'' httpd_log_fmt_bw_down_tot ''sn'' [''Time'', ''Bandwidth Down (KB)'']"

definition httpd_bw_total_up_handler :: "chart_env \<Rightarrow> query \<Rightarrow> (http_fault + string) option" where
  "httpd_bw_total_up_handler =
     HTTPD_CHART_HANDLER ''Telex Bandwidth (aggregate)'' httpd_log_fmt_bw_up_tot ''sn'' [''Time'', ''Bandwidth Up (KB)'']"

definition httpd_total_connections_handler :: "chart_env \<Rightarrow> query \<Rightarrow> (http_fault + string) option" where
  "httpd_total_connections_handler =
     HTTPD_CHART_HANDLER ''Telex connections'' httpd_log_fmt_tot_conns ''sn'' [''Time'', ''Total connections'']"

definition httpd_bandwidth_handler :: "chart_env \<Rightarrow> query \<Rightarrow> (http_fault + string) option" where
  "httpd_bandwidth_handler =
     HTTPD_CHART_HANDLER ''Telex Bandwidth'' httpd_log_fmt_bw ''snn'' [''Time'', ''Bandwidth Up (KBps)'', ''Bandwidth Down (KBps)'']"

definition httpd_chart_handler :: "chart_env \<Rightarrow> query \<Rightarrow> (http_fault + string) option" where
  "httpd_chart_handler =
     HTTPD_CHART_HANDLER ''Telex users'' httpd_log_fmt_chart ''snn'' [''Time'', ''Active connections'', ''Unique clients'']"

section \<open>Other pages\<close>

definition httpd_showall_handler :: "query \<Rightarrow> string" where
  "httpd_showall_handler req =
     (let ago = show_int (httpd_parse_time_ago req);
          frame = (\<lambda>path. ''<iframe src=\"/'' @ path @ ''?t='' @ ago @ ''&w=600&h=400\"></iframe>'' @ [NL])
      in ''<html><head>'' @ ''<style type=\"text/css\">'' @ [NL] @ ''   iframe { width: 610px; height: 420px; }'' @ [NL] @
         ''</style></head>'' @ [NL] @ ''<body>'' @ [NL] @ frame ''chart'' @ frame ''total_down'' @ frame ''total_up'' @ frame ''total_conn'' @
         ''</body></html>'')"

fun ssl_error_code :: "ssl_error \<Rightarrow> int" where
  "ssl_error_code SSL_ERROR_NONE = 0"
| "ssl_error_code SSL_ERROR_SSL = 1"
| "ssl_error_code SSL_ERROR_WANT_READ = 2"
| "ssl_error_code SSL_ERROR_WANT_WRITE = 3"
| "ssl_error_code SSL_ERROR_WANT_X509_LOOKUP = 4"
| "ssl_error_code SSL_ERROR_SYSCALL = 5"
| "ssl_error_code SSL_ERROR_ZERO_RETURN = 6"
| "ssl_error_code SSL_ERROR_WANT_CONNECT = 7"
| "ssl_error_code SSL_ERROR_WANT_ACCEPT = 8"

definition td :: "string \<Rightarrow> string" where "td x = ''<td>'' @ x @ ''</td>''"

definition flag :: "bool \<Rightarrow> string" where "flag b = (if b then ''1'' else ''0'')"

definition address_text :: "u32 \<Rightarrow> u16 \<Rightarrow> string" where
  "address_text a p = inet_ntop a @ '':'' @ show_nat (unat (ntohs p))"

definition EV_ADD_TIME :: "(nat \<Rightarrow> string) \<Rightarrow> nat \<Rightarrow> string" where
  "EV_ADD_TIME ftime t = (if t \<noteq> 0 then td (ftime t) @ sp else td sp @ sp)"

definition connection_row :: "(nat \<Rightarrow> string) \<Rightarrow> ConnectionState \<Rightarrow> string" where
  "connection_row ftime st =
     ''    <tr>'' @ [NL] @
     td (show_int (cnum st)) @ sp @ td (show_int (telex_conn st)) @ sp @ td (show_int (service_conn st)) @ [NL] @
     td (show_int (client_conn st)) @ sp @ td (address_text (orig_h (flow_state st)) (orig_p (flow_state st))) @ [NL] @
     td (address_text (resp_h (flow_state st)) (resp_p (flow_state st))) @ sp @
     td (flag (service_ready_read st) @ sp @ flag (service_ready_write st)) @ sp @
     td (flag (client_ready_read st) @ sp @ flag (client_ready_write st)) @ [NL] @
     td (show_int (ssl_error_code (cleanup_waiting st))) @ sp @ td (show_int (state st)) @ sp @ td (show_int (key_port st)) @ [NL] @
     EV_ADD_TIME ftime (t_created st) @ EV_ADD_TIME ftime (t_last_data st) @ EV_ADD_TIME ftime (t_cleanup st) @
     EV_ADD_TIME ftime (t_watchdog st) @ ''</tr>'' @ [NL]"

definition port_row :: "int \<times> port_stats \<Rightarrow> string" where
  "port_row = (\<lambda>(k, ps). ''<tr>'' @ td (show_int k) @ sp @ td (show_int (int (length (users ps)))) @ sp @ td (ld (port_conns ps)) @ ''</tr>'' @ [NL])"

definition httpd_handler :: "(nat \<Rightarrow> string) \<Rightarrow> (port_table \<Rightarrow> port_table) \<Rightarrow> ConnectionState list \<Rightarrow> string" where
  "httpd_handler ftime iter cs =
     ''<table>'' @ [NL] @ ''  <thead>'' @ [NL] @ ''    <tr>'' @ [NL] @
     ''      '' @ td ''#'' @ sp @ td ''telex conn'' @ sp @ td ''service conn'' @ [NL] @
     ''      '' @ td ''client conn'' @ sp @ td ''client'' @ [NL] @
     ''      '' @ td ''notblocked'' @ sp @ td ''s[r w]'' @ sp @ td ''c[r w]'' @ [NL] @
     ''      '' @ td ''cleanup'' @ sp @ td ''state'' @ sp @ td ''key_port'' @ [NL] @
     ''      '' @ td ''created'' @ sp @ td ''last data'' @ sp @ td ''cleanup'' @ sp @ td ''watchdog'' @ [NL] @
     ''    </tr>'' @ [NL] @ ''  </thead><tbody>'' @ [NL] @ concat (map (connection_row ftime) cs) @
     ''  </tbody></table>'' @ [NL] @ ''<a name=\"ports\"></a>'' @ [NL] @
     ''<table><thead><tr>'' @ td ''Port'' @ td ''Users'' @ td ''Connections'' @ ''</tr></thead><tbody>'' @ [NL] @
     concat (map port_row (iter (port_usage cs))) @ ''</tbody></table>'' @ [NL] @
     ''<a href=\"/chart\">chart</a><br/>'' @ [NL] @ ''<a href=\"/bw\">bandwidth</a><br/>'' @ [NL] @ ''<a href=\"/total\">total</a><br/>'' @ [NL]"

datatype page = Port_Users | Port_Conns | Chart | Bandwidth | Total_Down | Total_Up | Total_Conn | Show_All | Connections

text \<open>\<open>httpd_init\<close>: the page for each path, when the port is valid, and the timer of the log.\<close>

definition page_of :: "string \<Rightarrow> page" where
  "page_of path = (case map_of [(''/users'', Port_Users), (''/conns'', Port_Conns), (''/chart'', Chart), (''/bw'', Bandwidth),
     (''/total_down'', Total_Down), (''/total_up'', Total_Up), (''/total_conn'', Total_Conn), (''/all'', Show_All)] path of
       None \<Rightarrow> Connections | Some pg \<Rightarrow> pg)"

definition httpd_init :: "int \<Rightarrow> httpd \<Rightarrow> httpd \<times> (string \<Rightarrow> page) option" where
  "httpd_init listen_port h =
     (if listen_port < 0 \<or> listen_port > 65535 then (h, None) else (h \<lparr>log_timer := True\<rparr>, Some page_of))"

end
