(* ===== verification/Httpd_Props.thy ===== *)
theory Httpd_Props
  imports Httpd "HOL-Library.Multiset"
begin

text \<open>
  Properties of the status server: the logged record is the one that a reference definition gives, and fits its
  buffer; the charts read back what has been logged; the cells of a row stand in the columns of their
  ports.
\<close>

section \<open>Usage of the key ports\<close>

definition clients :: "ConnectionState list \<Rightarrow> int \<Rightarrow> u32 set" where
  "clients cs p = (\<lambda>st. orig_h (flow_state st)) ` {st \<in> set cs. key_port st = p}"

text \<open>The reference: for every key port in use, in ascending order, its numbers of clients and of connections.\<close>

definition port_entry :: "ConnectionState list \<Rightarrow> int \<Rightarrow> port_stats" where
  "port_entry cs p = \<lparr>users = [], port = p, users_size = word_of_nat (card (clients cs p)),
     port_conns = word_of_nat (length (filter (\<lambda>st. key_port st = p) cs))\<rparr>"

definition ref_ports :: "ConnectionState list \<Rightarrow> port_stats list" where
  "ref_ports cs = map (port_entry cs) (sorted_list_of_set (key_port ` set cs))"

lemma keys_update: "map fst (update_port_usage t k ip) = (if k \<in> fst ` set t then map fst t else map fst t @ [k])"
proof -
  have "map fst (map (\<lambda>(k', ps). (k', f k' ps)) t) = map fst t" for f and t :: port_table
    by (induction t) auto
  then show ?thesis by (simp add: update_port_usage_def Let_def map_of_eq_None_iff comp_def case_prod_beta)
qed

lemma map_of_update:
  "map_of (update_port_usage t k ip) p =
     (if p = k then (let ps = (case map_of t k of None \<Rightarrow> port_stats_new | Some ps \<Rightarrow> ps)
                     in Some (ps \<lparr>users := List.insert ip (users ps), port_conns := port_conns ps + 1\<rparr>))
      else map_of t p)"
proof -
  have m: "map_of (map (\<lambda>(k', ps). (k', f k' ps)) t) p = map_option (f p) (map_of t p)" for f and t :: port_table
    by (induction t) auto
  show ?thesis
    by (auto simp: update_port_usage_def Let_def m map_of_append map_add_def split: option.splits)
qed

lemma port_usage_snoc: "port_usage (cs @ [st]) = update_port_usage (port_usage cs) (key_port st) (orig_h (flow_state st))"
  by (simp add: port_usage_def)

lemma port_usage_keys: "distinct (map fst (port_usage cs)) \<and> fst ` set (port_usage cs) = key_port ` set cs"
proof (induction cs rule: rev_induct)
  case Nil
  show ?case by (simp add: port_usage_def)
next
  case (snoc st cs)
  have "fst ` set (port_usage (cs @ [st])) = set (map fst (port_usage (cs @ [st])))" by simp
  with snoc show ?case unfolding port_usage_snoc keys_update by auto
qed

lemma port_usage_entry:
  "map_of (port_usage cs) p = Some ps \<Longrightarrow>
     distinct (users ps) \<and> set (users ps) = clients cs p \<and> port_conns ps = word_of_nat (length (filter (\<lambda>st. key_port st = p) cs))"
proof (induction cs arbitrary: ps rule: rev_induct)
  case Nil
  then show ?case by (simp add: port_usage_def)
next
  case (snoc st cs)
  have fresh: "clients cs p = {} \<and> filter (\<lambda>st. key_port st = p) cs = []" if "map_of (port_usage cs) p = None"
    using that port_usage_keys [of cs] by (auto simp: map_of_eq_None_iff clients_def filter_empty_conv)
  have c: "clients (cs @ [st]) p = (if key_port st = p then insert (orig_h (flow_state st)) (clients cs p) else clients cs p)"
    by (auto simp: clients_def)
  show ?case
  proof (cases "map_of (port_usage cs) p")
    case None
    with snoc.prems fresh show ?thesis
      by (auto simp: port_usage_snoc map_of_update c port_stats_new_def split: if_splits)
  next
    case (Some ps0)
    with snoc.prems snoc.IH [OF Some] show ?thesis
      by (auto simp: port_usage_snoc map_of_update c split: if_splits)
  qed
qed

section \<open>Sorting\<close>

lemma insert_cmp_insort: "insert_cmp port_stat_cmp x xs = insort_key port x xs"
  by (induction xs) (auto simp: port_stat_cmp_def)

lemma qsort_sort: "qsort port_stat_cmp xs = sort_key port xs"
  by (simp add: qsort_def sort_key_def insert_cmp_insort fun_eq_iff cong: foldr_cong)

lemma collect_sorted:
  assumes "mset (iter (port_usage cs)) = mset (port_usage cs)"
  shows "qsort port_stat_cmp (collect_ports iter (port_usage cs)) = ref_ports cs"
proof -
  let ?xs = "qsort port_stat_cmp (collect_ports iter (port_usage cs))"
  have k: "distinct (map fst (port_usage cs))" "fst ` set (port_usage cs) = key_port ` set cs" using port_usage_keys by auto
  have i: "set (iter (port_usage cs)) = set (port_usage cs)" by (metis assms set_mset_mset)
  have "mset (map fst (iter (port_usage cs))) = mset (map fst (port_usage cs))" by (simp add: assms)
  then have d: "distinct (map fst (iter (port_usage cs)))" using k(1) mset_eq_imp_distinct_iff by blast
  have p: "map port (collect_ports iter (port_usage cs)) = map fst (iter (port_usage cs))"
    by (simp add: collect_ports_def case_prod_beta)
  have "set ?xs = port_entry cs ` fst ` set (port_usage cs)"
  proof -
    have "(case e of (q, cur) \<Rightarrow> \<lparr>users = [], port = q, users_size = word_of_nat (length (users cur)), port_conns = port_conns cur\<rparr>)
        = port_entry cs (fst e)" if "e \<in> set (port_usage cs)" for e
    proof -
      have "map_of (port_usage cs) (fst e) = Some (snd e)" using that k(1) by simp
      from port_usage_entry [OF this] show ?thesis
        by (auto simp: port_entry_def case_prod_beta distinct_card [symmetric])
    qed
    then show ?thesis by (simp add: qsort_sort collect_ports_def i image_image cong: image_cong)
  qed
  then have s: "set ?xs = set (ref_ports cs)" by (simp add: ref_ports_def k(2))
  have r: "map port (ref_ports cs) = sorted_list_of_set (key_port ` set cs)"
    by (simp add: ref_ports_def port_entry_def comp_def)
  have "distinct (map port (collect_ports iter (port_usage cs)))" using d p by simp
  then have dx: "distinct (map port ?xs)" by (simp add: qsort_sort distinct_map)
  show ?thesis
  proof (rule map_sorted_distinct_set_unique [where f = port])
    show "inj_on port (set ?xs \<union> set (ref_ports cs))" using dx by (simp add: s [symmetric] distinct_map)
  qed (use dx r s in \<open>simp_all add: qsort_sort\<close>)
qed

section \<open>The message buffer\<close>

text \<open>What the offset and the buffer hold after the text \<open>T\<close> has been appended piece by piece.\<close>

definition holds :: "string \<Rightarrow> nat \<times> string \<Rightarrow> bool" where
  "holds T ob \<longleftrightarrow> (case ob of (offset, buf) \<Rightarrow>
     length buf = MAX_HTTPD_LINE_SIZE + 2 \<and> (offset = length T \<or> MAX_HTTPD_LINE_SIZE < offset \<and> MAX_HTTPD_LINE_SIZE < length T) \<and>
     (\<exists>rest. buf = take (MAX_HTTPD_LINE_SIZE - 1) T @ NUL # rest))"

lemma line_size: "MAX_HTTPD_LINE_SIZE = 425"
  by (simp add: MAX_HTTPD_LINE_SIZE_def MAX_PORTS_def)

lemma holds_first:
  assumes "length garbage = MAX_HTTPD_LINE_SIZE + 2"
  shows "\<exists>buf. snprintf_at garbage 0 MAX_HTTPD_LINE_SIZE txt = Inr buf \<and> holds txt (length txt, buf)"
  using assms by (auto simp: snprintf_at_def Let_def holds_def line_size)

lemma holds_append:
  assumes "holds T ob"
  shows "\<exists>ob'. append_msg txt ob = Inr ob' \<and> holds (T @ txt) ob'"
proof -
  obtain offset buf rest where ob: "ob = (offset, buf)" "length buf = 427" "buf = take 424 T @ NUL # rest"
    "offset = length T \<or> 425 < offset \<and> 425 < length T"
    using assms by (auto simp: holds_def line_size)
  show ?thesis
  proof (cases "offset < 425")
    case True
    then have o: "offset = length T" using ob(4) by auto
    have "take 424 T = T" using o True by simp
    then have b: "take offset buf = T" using o ob(3) by simp
    define out where "out = take (425 - offset - 1) txt @ [NUL]"
    have "append_msg txt ob = Inr (offset + length txt, take offset buf @ out @ drop (offset + length out) buf)"
      using True ob(2) by (simp add: append_msg_def ob(1) snprintf_at_def Let_def line_size out_def)
    moreover have "holds (T @ txt) (offset + length txt, take offset buf @ out @ drop (offset + length out) buf)"
      using True ob(2) o b by (simp add: holds_def line_size out_def)
    ultimately show ?thesis by blast
  next
    case False
    then have "\<exists>o'. append_msg txt ob = Inr (o', buf) \<and> (o' = length (T @ txt) \<or> 425 < o' \<and> 425 < length (T @ txt))"
      using ob(1,4) by (auto simp: append_msg_def snprintf_at_def line_size)
    moreover have "take 424 (T @ txt) = take 424 T" using False ob(4) by auto
    ultimately show ?thesis using ob(2,3) by (auto simp: holds_def line_size)
  qed
qed

lemma holds_appends:
  "holds T ob \<Longrightarrow> \<exists>ob'. append_msgs ts ob = Inr ob' \<and> holds (T @ concat ts) ob'"
proof (induction ts arbitrary: T ob)
  case (Cons t ts)
  obtain ob' where "append_msg t ob = Inr ob'" "holds (T @ t) ob'" using holds_append [OF Cons.prems] by blast
  with Cons.IH [of "T @ t" ob'] show ?case by simp
qed simp

lemma holds_line: "holds T (offset, buf) \<Longrightarrow> NUL \<notin> set T \<Longrightarrow> takeWhile (\<lambda>c. c \<noteq> NUL) buf = take (MAX_HTTPD_LINE_SIZE - 1) T"
proof -
  assume "holds T (offset, buf)" "NUL \<notin> set T"
  then obtain rest where "buf = take (MAX_HTTPD_LINE_SIZE - 1) T @ NUL # rest" "\<forall>c\<in>set (take (MAX_HTTPD_LINE_SIZE - 1) T). c \<noteq> NUL"
    by (auto simp: holds_def dest: in_set_takeD)
  then show ?thesis by (simp add: takeWhile_append)
qed

lemma show_int_chars: "c \<in> set (show_int i) \<Longrightarrow> is_digit c \<or> c = CHR ''-''"
  using show_nat_digits by (auto simp: show_int_def list_all_iff split: if_splits)

lemma show_int_no_NUL: "NUL \<notin> set (show_int i)"
  using show_int_chars [of NUL i] by (auto simp: NUL_def is_digit_def)

definition log_record :: "u32 \<Rightarrow> ConnectionState list \<Rightarrow> u64 \<Rightarrow> u64 \<Rightarrow> bron \<Rightarrow> string" where
  "log_record time cs since_last_up since_last_down w =
     log_head time cs since_last_up since_last_down w @ show_int (int (card (key_port ` set cs))) @ sp @
     concat (map log_port (ref_ports cs))"

lemma log_record_no_NUL: "NUL \<notin> set (log_record time cs su sd w)"
  using show_int_no_NUL by (auto simp: log_record_def log_head_def log_port_def ld_def dd_def sp_def NUL_def)

section \<open>Properties of the log\<close>

text \<open>C11: every log record is the one that the reference gives, and stays within its buffer. Whatever the order in which the hash
  tables are visited, and whatever the buffer held, one line is added to the system log: the time, the numbers of
  connections and of distinct clients, the bytes since the last record, the totals, and, for each key port in
  ascending order, its numbers of distinct clients and of connections, cut after 424 characters.\<close>

theorem httpd_log_record:
  assumes "\<forall>t. mset (iter t) = mset t" "length garbage = MAX_HTTPD_LINE_SIZE + 2"
  shows "httpd_log time garbage iter cs w h =
    Inr (h \<lparr>last_up_bytes := up_bytes w, last_down_bytes := down_bytes w,
        syslog_lines := syslog_lines h @ [take 424 (log_record time cs (up_bytes w - last_up_bytes h) (down_bytes w - last_down_bytes h) w)],
        log_timer := True\<rparr>)"
proof -
  let ?head = "log_head time cs (up_bytes w - last_up_bytes h) (down_bytes w - last_down_bytes h) w"
  have n: "length (port_usage cs) = card (key_port ` set cs)"
    using port_usage_keys [of cs] by (metis distinct_card length_map set_map)
  obtain buf where b: "snprintf_at garbage 0 MAX_HTTPD_LINE_SIZE ?head = Inr buf" "holds ?head (length ?head, buf)"
    using holds_first [OF assms(2)] by blast
  obtain ob where a: "append_msg (show_int (int (card (key_port ` set cs))) @ sp) (length ?head, buf) = Inr ob"
    "holds (?head @ show_int (int (card (key_port ` set cs))) @ sp) ob"
    using holds_append [OF b(2)] by blast
  obtain offset buf' where c: "append_msgs (map log_port (ref_ports cs)) ob = Inr (offset, buf')"
    "holds (log_record time cs (up_bytes w - last_up_bytes h) (down_bytes w - last_down_bytes h) w) (offset, buf')"
    using holds_appends [OF a(2), of "map log_port (ref_ports cs)"] by (auto simp: log_record_def)
  have "qsort port_stat_cmp (collect_ports iter (port_usage cs)) = ref_ports cs" using assms(1) by (intro collect_sorted) simp
  then show ?thesis
    using b(1) a(1) c(1) holds_line [OF c(2) log_record_no_NUL] by (simp add: httpd_log_def Let_def n line_size)
qed

section \<open>Reading numbers back\<close>

definition nums :: "int list \<Rightarrow> string" where
  "nums vs = concat (map (\<lambda>v. sp @ show_int v) vs)"

definition in_long :: "int \<Rightarrow> bool" where
  "in_long v \<longleftrightarrow> - (2 ^ 63) \<le> v \<and> v < 2 ^ 63"

definition ends_number :: "string \<Rightarrow> bool" where
  "ends_number str \<longleftrightarrow> str = [] \<or> \<not> is_digit (hd str)"

lemma space_facts [simp]: "is_space CHR '' ''" "is_space NL" "\<not> is_digit CHR '' ''" "\<not> is_digit NL"
  by (simp_all add: is_space_def is_digit_def NL_def)

lemma ends_number_nums: "ends_number rest \<Longrightarrow> ends_number (nums vs @ rest)"
  by (cases vs) (simp_all add: nums_def ends_number_def sp_def)

lemma nums_concat: "concat (map (\<lambda>x. nums (f x)) xs) = nums (concat (map f xs))"
  by (induction xs) (simp_all add: nums_def)

lemma scan_ints_space: "is_space c \<Longrightarrow> 0 < n \<Longrightarrow> scan_ints n (c # str) = scan_ints n str"
  by (cases n) (simp_all add: scan_int_space)

lemma scan_nums:
  "list_all in_long vs \<Longrightarrow> ends_number rest \<Longrightarrow> scan_ints (length vs) (nums vs @ rest) = (vs, rest, False)"
proof (induction vs)
  case (Cons v vs)
  have n: "nums (v # vs) @ rest = CHR '' '' # (show_int v @ nums vs @ rest)" by (simp add: nums_def sp_def)
  have "scan_int (show_int v @ nums vs @ rest) = Number v (nums vs @ rest)"
    using Cons.prems ends_number_nums [OF Cons.prems(2), of vs]
    by (intro scan_int_show_int) (simp_all add: in_long_def ends_number_def)
  with Cons show ?case by (simp add: n scan_int_space)
qed (simp add: nums_def)

lemma scan_nums_at:
  "list_all in_long vs \<Longrightarrow> ends_number rest \<Longrightarrow> length vs = n \<Longrightarrow> scan_ints n (nums vs @ rest) = (vs, rest, False)"
  using scan_nums by blast

definition port_nums :: "port_stats \<Rightarrow> int list" where
  "port_nums ps = [port ps, sint (users_size ps), sint (port_conns ps)]"

lemma length_port_nums: "length (port_nums ps) = 3"
  by (simp add: port_nums_def)

text \<open>A port as the charts see it: the set of clients is not logged.\<close>

definition port_ok :: "port_stats \<Rightarrow> bool" where
  "port_ok ps \<longleftrightarrow> users ps = [] \<and> - (2 ^ 31) \<le> port ps \<and> port ps < 2 ^ 31"

lemma in_long_sint: "in_long (sint (x :: u64))" "in_long (sint (y :: u32))"
proof -
  show "in_long (sint x)" using sint_greater_eq [of x] sint_less [of x] by (simp add: in_long_def)
  show "in_long (sint y)" using sint_greater_eq [of y] sint_less [of y] by (simp add: in_long_def)
qed

lemma in_long_port: "port_ok ps \<Longrightarrow> list_all in_long (port_nums ps)"
  by (simp add: port_nums_def in_long_sint) (simp add: port_ok_def in_long_def)

lemma port_of_nums: "port_ok ps \<Longrightarrow> port_of (keep (port_nums ps) g) = ps"
  by (simp add: port_of_def keep_def port_nums_def port_ok_def signed_of_int signed_take_bit_int_eq_self)

lemma scan_ports_nums:
  "list_all port_ok ps \<Longrightarrow> ends_number rest \<Longrightarrow>
     scan_ports g (length ps) (concat (map (\<lambda>p. nums (port_nums p)) ps) @ rest) = Some (ps, rest)"
proof (induction ps)
  case (Cons p ps)
  have "ends_number (concat (map (\<lambda>p. nums (port_nums p)) ps) @ rest)"
    using ends_number_nums [OF Cons.prems(2)] by (simp add: nums_concat)
  then have "scan_ints 3 (nums (port_nums p) @ concat (map (\<lambda>p. nums (port_nums p)) ps) @ rest) =
      (port_nums p, concat (map (\<lambda>p. nums (port_nums p)) ps) @ rest, False)"
    using Cons.prems(1) in_long_port [of p] by (intro scan_nums_at) (simp_all add: length_port_nums)
  with Cons show ?case by (simp add: port_of_nums)
qed simp

section \<open>Reading records back\<close>

type_synonym entry = "u32 \<times> ConnectionState list \<times> u64 \<times> u64 \<times> bron"

fun record_of :: "entry \<Rightarrow> string" where
  "record_of (time, cs, su, sd, w) = log_record time cs su sd w"

fun head_nums :: "entry \<Rightarrow> int list" where
  "head_nums (time, cs, su, sd, w) =
     [sint time, sint (word_of_nat (length cs) :: u32), sint (word_of_nat (length (remdups (map (\<lambda>st. orig_h (flow_state st)) cs))) :: u32),
      sint su, sint sd, sint (active_connections w), sint (up_bytes w), sint (down_bytes w), sint (total_connections w),
      int (card (key_port ` set cs))]"

text \<open>The row of a record: the bytes since the last record are read into 32 bits.\<close>

fun row_for :: "entry \<Rightarrow> log_row" where
  "row_for (time, cs, su, sd, w) =
     \<lparr>r_utime = time, r_tot_conns = word_of_nat (length cs),
      r_unique_clients = word_of_nat (card ((\<lambda>st. orig_h (flow_state st)) ` set cs)), r_up_bytes = ucast su, r_down_bytes = ucast sd,
      r_active_conns = active_connections w, r_tot_up = up_bytes w, r_tot_down = down_bytes w,
      r_total_conns = total_connections w, r_pstats = ref_ports cs\<rparr>"

fun entry_ok :: "entry \<Rightarrow> bool" where
  "entry_ok (time, cs, su, sd, w) \<longleftrightarrow>
     length cs < 2 ^ 31 \<and> (\<forall>st\<in>set cs. - (2 ^ 31) \<le> key_port st \<and> key_port st < 2 ^ 31)"

lemma log_ports_nums: "sp @ concat (map log_port ps) = nums (concat (map port_nums ps)) @ sp"
proof (induction ps)
  case (Cons p ps)
  have "sp @ concat (map log_port (p # ps)) = nums (port_nums p) @ sp @ concat (map log_port ps)"
    by (simp add: log_port_def nums_def port_nums_def ld_def)
  with Cons show ?case by (simp add: nums_def)
qed (simp add: nums_def)

lemma record_nums: "sp @ record_of (time, cs, su, sd, w) =
    nums (head_nums (time, cs, su, sd, w)) @ concat (map (\<lambda>p. nums (port_nums p)) (ref_ports cs)) @ sp"
  unfolding nums_concat using log_ports_nums [of "ref_ports cs"] by (simp add: log_record_def log_head_def nums_def dd_def ld_def)

lemma entry_ports_ok: "entry_ok (time, cs, su, sd, w) \<Longrightarrow> list_all port_ok (ref_ports cs)"
  by (auto simp: ref_ports_def list_all_iff port_ok_def port_entry_def)

lemma entry_num_ports: "entry_ok (time, cs, su, sd, w) \<Longrightarrow> card (key_port ` set cs) < 2 ^ 31"
  using card_image_le [of "set cs" key_port] card_length [of cs] by simp

lemma length_ref_ports: "length (ref_ports cs) = card (key_port ` set cs)"
  by (simp add: ref_ports_def)

lemma cast_down: "(scast (x :: u64) :: u32) = ucast x"
  by (rule bit_word_eqI) (simp add: bit_simps)

lemma row_of_record: "row_of (keep (head_nums (time, cs, su, sd, w)) vs) (ref_ports cs) = row_for (time, cs, su, sd, w)"
  by (simp add: row_of_def keep_def cast_down length_remdups_card_conv)

declare js_loop.simps [simp del]

lemma js_loop_space: "is_space c \<Longrightarrow> js_loop fuel g since every fmt vs cnt (c # str) = js_loop fuel g since every fmt vs cnt str"
  by (cases fuel) (simp_all add: js_loop.simps scan_ints_space)

lemma js_loop_end: "js_loop (Suc fuel) g since every fmt vs cnt [] = Some (Inr [])"
  by (simp add: js_loop.simps numeral_eq_Suc scan_int_def)

lemma js_loop_record:
  assumes "entry_ok e"
  shows "\<exists>vs'. js_loop (Suc fuel) g since every fmt vs cnt (record_of e @ NL # file) =
    (if r_utime (row_for e) < since then js_loop fuel g since every fmt vs' cnt file
     else if cnt + 1 < every then js_loop fuel g since every fmt vs' (cnt + 1) file
     else case fmt (row_for e) of
            Inl x \<Rightarrow> Some (Inl x)
          | Inr txt \<Rightarrow> map_option (\<lambda>r. and_then r (\<lambda>out. Inr (txt @ out))) (js_loop fuel g since every fmt vs' 0 file))"
proof -
  obtain time cs su sd w where e: "e = (time, cs, su, sd, w)" by (cases e)
  let ?vs = "keep (head_nums e) vs" and ?rest = "sp @ NL # file"
  have ok: "list_all port_ok (ref_ports cs)" "card (key_port ` set cs) < 2 ^ 31"
    using entry_ports_ok entry_num_ports assms unfolding e by blast+
  then have hd_ok: "list_all in_long (head_nums e)" by (simp add: e in_long_sint) (simp add: in_long_def)
  have er: "ends_number ?rest" by (simp add: ends_number_def sp_def)
  have "sp @ record_of e @ NL # file = nums (head_nums e) @ concat (map (\<lambda>p. nums (port_nums p)) (ref_ports cs)) @ ?rest"
    using arg_cong [OF record_nums [of time cs su sd w], of "\<lambda>x. x @ NL # file"] by (simp add: e)
  moreover have "js_loop (Suc fuel) g since every fmt vs cnt (sp @ record_of e @ NL # file) = js_loop (Suc fuel) g since every fmt vs cnt (record_of e @ NL # file)"
    by (simp add: sp_def js_loop_space)
  ultimately have "js_loop (Suc fuel) g since every fmt vs cnt (record_of e @ NL # file) =
      js_loop (Suc fuel) g since every fmt vs cnt (nums (head_nums e) @ concat (map (\<lambda>p. nums (port_nums p)) (ref_ports cs)) @ ?rest)"
    by (simp only:)
  moreover have "scan_ints 10 (nums (head_nums e) @ concat (map (\<lambda>p. nums (port_nums p)) (ref_ports cs)) @ ?rest) =
      (head_nums e, concat (map (\<lambda>p. nums (port_nums p)) (ref_ports cs)) @ ?rest, False)"
    using hd_ok ends_number_nums [OF er] by (intro scan_nums_at) (simp_all add: e nums_concat)
  moreover have "unat (word_of_int (?vs ! 9) :: u32) = length (ref_ports cs)"
    using ok(2) by (simp add: e keep_def length_ref_ports unat_of_nat)
  moreover have "scan_ports g (length (ref_ports cs)) (concat (map (\<lambda>p. nums (port_nums p)) (ref_ports cs)) @ ?rest) = Some (ref_ports cs, ?rest)"
    by (rule scan_ports_nums [OF ok(1) er])
  moreover have "row_of ?vs (ref_ports cs) = row_for e" by (simp add: e row_of_record del: head_nums.simps row_for.simps)
  moreover have "js_loop fuel g since every fmt ?vs c ?rest = js_loop fuel g since every fmt ?vs c file" for c
    by (simp add: sp_def js_loop_space)
  moreover have "head_nums e \<noteq> []" by (simp add: e)
  ultimately have "js_loop (Suc fuel) g since every fmt vs cnt (record_of e @ NL # file) =
    (if r_utime (row_for e) < since then js_loop fuel g since every fmt ?vs cnt file
     else if cnt + 1 < every then js_loop fuel g since every fmt ?vs (cnt + 1) file
     else case fmt (row_for e) of
            Inl x \<Rightarrow> Some (Inl x)
          | Inr txt \<Rightarrow> map_option (\<lambda>r. and_then r (\<lambda>out. Inr (txt @ out))) (js_loop fuel g since every fmt ?vs 0 file))"
    by (simp add: js_loop.simps del: row_for.simps head_nums.simps record_of.simps append.simps split: sum.split)
  then show ?thesis by blast
qed

text \<open>Every \<open>n\<close>-th element of a list, the first after \<open>n - cnt\<close> of them.\<close>

definition every_nth :: "int \<Rightarrow> int \<Rightarrow> 'a list \<Rightarrow> 'a list" where
  "every_nth n cnt xs = nths xs {i. n dvd int i + 1 + cnt}"

lemma every_nth_Cons:
  assumes "0 \<le> cnt" "cnt < n"
  shows "every_nth n cnt (x # xs) = (if cnt + 1 < n then every_nth n (cnt + 1) xs else x # every_nth n 0 xs)"
proof (cases "cnt + 1 < n")
  case True
  then have "\<not> n dvd 1 + cnt" using assms(1) by (auto dest: zdvd_imp_le)
  moreover have "{j. n dvd int (Suc j) + 1 + cnt} = {i. n dvd int i + 1 + (cnt + 1)}" by (simp add: algebra_simps)
  ultimately show ?thesis using True by (simp add: every_nth_def nths_Cons)
next
  case False
  with assms have n: "n = cnt + 1" by simp
  have "n dvd int (Suc j) + 1 + cnt \<longleftrightarrow> n dvd int j + 1 + 0" for j
    using dvd_add_right_iff [of n n "int j + 1"] by (simp add: n algebra_simps)
  then show ?thesis using False by (simp add: every_nth_def nths_Cons n add.commute)
qed

lemma js_loop_records:
  assumes "1 \<le> every"
  shows "\<lbrakk>\<forall>e\<in>set es. entry_ok e; length es < fuel; 0 \<le> cnt; cnt < every\<rbrakk> \<Longrightarrow>
    js_loop fuel g since every (\<lambda>r. Inr (txt r)) vs cnt (concat (map (\<lambda>e. record_of e @ [NL]) es)) =
      Some (Inr (concat (map txt (every_nth every cnt (filter (\<lambda>r. since \<le> r_utime r) (map row_for es))))))"
proof (induction es arbitrary: fuel vs cnt)
  case Nil
  then obtain n where "fuel = Suc n" by (cases fuel) auto
  then show ?case by (simp add: js_loop_end every_nth_def)
next
  case (Cons e es)
  obtain n where f: "fuel = Suc n" "length es < n" using Cons.prems(2) by (cases fuel) auto
  let ?file = "concat (map (\<lambda>e. record_of e @ [NL]) es)"
  obtain vs' where "js_loop (Suc n) g since every (\<lambda>r. Inr (txt r)) vs cnt (record_of e @ NL # ?file) =
    (if r_utime (row_for e) < since then js_loop n g since every (\<lambda>r. Inr (txt r)) vs' cnt ?file
     else if cnt + 1 < every then js_loop n g since every (\<lambda>r. Inr (txt r)) vs' (cnt + 1) ?file
     else map_option (\<lambda>r. and_then r (\<lambda>out. Inr (txt (row_for e) @ out))) (js_loop n g since every (\<lambda>r. Inr (txt r)) vs' 0 ?file))"
    using js_loop_record [of e n g since every "\<lambda>r. Inr (txt r)" vs cnt ?file, unfolded sum.case] Cons.prems(1) by fastforce
  moreover have "js_loop n g since every (\<lambda>r. Inr (txt r)) vs' c ?file =
      Some (Inr (concat (map txt (every_nth every c (filter (\<lambda>r. since \<le> r_utime r) (map row_for es))))))"
    if "0 \<le> c" "c < every" for c
    using Cons.IH [of n c vs'] Cons.prems(1) f(2) that by simp
  ultimately show ?case
    using Cons.prems(3,4) assms
    by (cases "since \<le> r_utime (row_for e)") (auto simp: f(1) every_nth_Cons not_le)
qed


text \<open>A character that is no part of a number makes the loop of \<open>httpd_log_to_js\<close> run for ever, once no port is expected: nothing is
  read, and the end of the file is never reached.\<close>

lemma js_loop_diverges:
  assumes "\<not> is_space c" "\<not> is_digit c" "c \<noteq> CHR ''-''" "c \<noteq> CHR ''+''" "(word_of_int (vs ! 9) :: u32) = 0"
    "\<forall>r. \<exists>txt. fmt r = Inr txt"
  shows "js_loop fuel g since every fmt vs cnt (c # file) = None"
proof (induction fuel arbitrary: cnt)
  case (Suc fuel)
  have "scan_ints 10 (c # file) = ([], c # file, False)"
    using assms(1-4) by (simp add: numeral_eq_Suc scan_int_def)
  moreover obtain out where "fmt (row_of vs []) = Inr out" using assms(6) by blast
  ultimately show ?case using Suc assms(5) by (simp add: js_loop.simps keep_def Let_def)
qed (simp add: js_loop.simps)

section \<open>Rows of the port charts\<close>

lemma skip_columns_to:
  assumes "sorted_wrt (<) (take n pl)" "k \<le> j" "j < n" "n \<le> length pl"
  shows "skip_columns pl (int n) (pl ! j) k = Inr (concat (replicate (j - k) '',0''), Some j)"
  using assms(2)
proof (induction "j - k" arbitrary: k)
  case 0
  with assms show ?case by (subst skip_columns.simps) simp
next
  case (Suc d)
  then have k: "k < j" "d = j - Suc k" by simp_all
  then have "take n pl ! k < take n pl ! j" using assms by (intro sorted_wrt_nth_less [where P = "(<)"]) simp_all
  then have l: "pl ! k < pl ! j" using assms k by simp
  have "skip_columns pl (int n) (pl ! j) k = and_then (skip_columns pl (int n) (pl ! j) (Suc k)) (\<lambda>(out, r). Inr ('',0'' @ out, r))"
    using k assms l by (subst skip_columns.simps) simp
  moreover have "skip_columns pl (int n) (pl ! j) (Suc k) = Inr (concat (replicate (j - Suc k) '',0''), Some j)"
    using Suc.hyps(1) [OF k(2)] k(1) by simp
  moreover have "j - k = Suc (j - Suc k)" using k(1) by simp
  ultimately show ?case by simp
qed

text \<open>The cell for a column: the value of its port, or 0.\<close>

definition port_cell :: "(port_stats \<Rightarrow> u64) \<Rightarrow> port_stats list \<Rightarrow> int \<Rightarrow> string" where
  "port_cell f ps q = '','' @ (case find (\<lambda>p. port p = q) ps of None \<Rightarrow> ''0'' | Some p \<Rightarrow> ld (f p))"

lemma port_cell_0: "q \<notin> port ` set ps \<Longrightarrow> port_cell f ps q = '',0''"
proof -
  assume "q \<notin> port ` set ps"
  then have "find (\<lambda>p. port p = q) ps = None" by (auto simp: find_None_iff)
  then show ?thesis by (simp add: port_cell_def)
qed

lemma port_cell_Cons: "port_cell f (p # ps) q = (if port p = q then '','' @ ld (f p) else port_cell f ps q)"
  by (simp add: port_cell_def)

definition port_row_cells :: "(port_stats \<Rightarrow> u64) \<Rightarrow> port_stats list \<Rightarrow> int list \<Rightarrow> string" where
  "port_row_cells f ps columns = concat (map (port_cell f ps) (filter (\<lambda>q. \<exists>p\<in>set ps. q \<le> port p) columns))"

lemma zeros_map: "(\<And>q. q \<in> set xs \<Longrightarrow> g q = z) \<Longrightarrow> concat (map g xs) = concat (replicate (length xs) z)"
  by (induction xs) auto

lemma port_row_cells_Cons:
  assumes "sorted_wrt (<) (xs @ port p # ys)" "sorted_wrt (<) (map port (p # ps))"
  shows "port_row_cells f (p # ps) (xs @ port p # ys) =
    concat (replicate (length xs) '',0'') @ '','' @ ld (f p) @ port_row_cells f ps ys"
proof -
  have xs: "q < port p" if "q \<in> set xs" for q using that assms(1) by (auto simp: sorted_wrt_append)
  have ys: "port p < q" if "q \<in> set ys" for q using that assms(1) by (auto simp: sorted_wrt_append)
  have ps: "port p < port p'" if "p' \<in> set ps" for p' using that assms(2) by auto
  have c: "port_cell f (p # ps) q = '',0''" if "q \<in> set xs" for q
    using xs [OF that] ps by (intro port_cell_0) force
  have F: "filter (\<lambda>q. \<exists>p'\<in>set (p # ps). q \<le> port p') (xs @ port p # ys) = xs @ port p # filter (\<lambda>q. \<exists>p'\<in>set ps. q \<le> port p') ys"
  proof -
    have "filter (\<lambda>q. \<exists>p'\<in>set (p # ps). q \<le> port p') xs = xs" using xs by (force simp: filter_id_conv)
    moreover have "filter (\<lambda>q. \<exists>p'\<in>set (p # ps). q \<le> port p') ys = filter (\<lambda>q. \<exists>p'\<in>set ps. q \<le> port p') ys"
      using ys by (intro filter_cong) force+
    ultimately show ?thesis by simp
  qed
  have M: "map (port_cell f (p # ps)) (filter (\<lambda>q. \<exists>p'\<in>set ps. q \<le> port p') ys) = map (port_cell f ps) (filter (\<lambda>q. \<exists>p'\<in>set ps. q \<le> port p') ys)"
    using ys by (auto simp: port_cell_Cons)
  have "concat (map (port_cell f (p # ps)) xs) = concat (replicate (length xs) '',0'')" by (rule zeros_map) (rule c)
  moreover have "port_cell f (p # ps) (port p) = '','' @ ld (f p)" by (simp add: port_cell_Cons)
  ultimately show ?thesis unfolding port_row_cells_def F by (simp add: M)
qed

lemma port_cells_aligned:
  assumes "sorted_wrt (<) (take n pl)" "n \<le> length pl"
  shows "\<lbrakk>sorted_wrt (<) (map port ps); port ` set ps \<subseteq> set (drop k (take n pl))\<rbrakk> \<Longrightarrow>
    port_cells pl (int n) f k ps = Inr (port_row_cells f ps (drop k (take n pl)))"
proof (induction ps arbitrary: k)
  case Nil
  then show ?case by (simp add: port_row_cells_def)
next
  case (Cons p ps)
  let ?cols = "take n pl"
  have "port p \<in> set (drop k ?cols)" using Cons.prems(2) by simp
  then obtain i where i: "i < length (drop k ?cols)" "drop k ?cols ! i = port p" by (auto simp: in_set_conv_nth)
  define j where "j = k + i"
  have j: "k \<le> j" "j < n" "pl ! j = port p" "?cols ! j = port p" using i assms(2) by (simp_all add: j_def)
  have d: "drop k ?cols = take (j - k) (drop k ?cols) @ port p # drop (Suc j) ?cols"
    using id_take_nth_drop [OF i(1)] i(2) by (simp add: j_def add.commute)
  have sd: "sorted_wrt (<) (drop k ?cols)" using assms(1) by (rule sorted_wrt_drop)
  have "port p' \<in> set (drop (Suc j) ?cols)" if "p' \<in> set ps" for p'
  proof -
    have "port p' \<in> set (drop k ?cols)" "port p < port p'" using Cons.prems that by auto
    moreover have "q < port p" if "q \<in> set (take (j - k) (drop k ?cols))" for q
      using sd that by (subst (asm) d) (auto simp: sorted_wrt_append)
    ultimately show ?thesis by (subst (asm) d) (auto dest: order.asym)
  qed
  then have cells: "port_cells pl (int n) f (Suc j) ps = Inr (port_row_cells f ps (drop (Suc j) ?cols))"
    using Cons.IH [of "Suc j"] Cons.prems(1) by auto
  have skip: "skip_columns pl (int n) (port p) k = Inr (concat (replicate (j - k) '',0''), Some j)"
    using skip_columns_to [OF assms(1) j(1,2) assms(2)] by (simp add: j(3))
  have "length (take (j - k) (drop k ?cols)) = j - k" using j(2) assms(2) by simp
  moreover have "sorted_wrt (<) (take (j - k) (drop k ?cols) @ port p # drop (Suc j) ?cols)" using sd d by simp
  ultimately have "port_row_cells f (p # ps) (drop k ?cols) =
      concat (replicate (j - k) '',0'') @ '','' @ ld (f p) @ port_row_cells f ps (drop (Suc j) ?cols)"
    using port_row_cells_Cons [of "take (j - k) (drop k ?cols)" p "drop (Suc j) ?cols" ps f] Cons.prems(1) d by simp
  with cells skip show ?case using j by simp
qed

text \<open>\<open>httpd_log_fmt_port\<close> never reads behind \<open>port_list\<close>, whatever the record holds: the column behind the last one that is in
  use is read, but the list has room for it.\<close>

lemma skip_columns_bounds:
  "int k \<le> len \<Longrightarrow> len < int (length pl) \<Longrightarrow> \<exists>out r. skip_columns pl len p k = Inr (out, r)"
proof (induction pl len p k rule: skip_columns.induct)
  case (1 pl len p k)
  show ?case
  proof (cases "p > pl ! k \<and> int (Suc k) \<le> len")
    case True
    then obtain out r where "skip_columns pl len p (Suc k) = Inr (out, r)" using 1 by (auto simp: not_less)
    then show ?thesis using True 1(2,3) by (subst skip_columns.simps) auto
  next
    case False
    then show ?thesis using 1(2,3) by (subst skip_columns.simps) auto
  qed
qed

lemma fmt_port_bounds:
  assumes "port_list_len h < int (length (port_list h))"
  shows "\<exists>row. httpd_log_fmt_port f h t ps = Inr row"
proof -
  have "\<exists>out. port_cells (port_list h) (port_list_len h) f k ps = Inr out" for k
  proof (induction ps arbitrary: k)
    case (Cons p ps)
    show ?case
    proof (cases "int k < port_list_len h")
      case True
      then obtain out r where "skip_columns (port_list h) (port_list_len h) (port p) k = Inr (out, r)"
        using skip_columns_bounds [of k "port_list_len h" "port_list h" "port p"] assms by auto
      moreover obtain rest where "port_cells (port_list h) (port_list_len h) f (Suc (the r)) ps = Inr rest" using Cons by blast
      ultimately show ?thesis using True by (cases r) auto
    qed simp
  qed simp
  then obtain out where "port_cells (port_list h) (port_list_len h) f 0 ps = Inr out" by blast
  then show ?thesis by (simp add: httpd_log_fmt_port_def)
qed


text \<open>A port that is not among the columns shifts the rest of the row: here the values of both columns are lost.\<close>

lemma unlisted_port_shifts_row:
  "port_cells ([80, 443] @ replicate 13 0) 2 port_conns 0
     [\<lparr>users = [], port = 22, users_size = 1, port_conns = 1\<rparr>, \<lparr>users = [], port = 80, users_size = 1, port_conns = 5\<rparr>,
      \<lparr>users = [], port = 443, users_size = 1, port_conns = 6\<rparr>] = Inr []"
  by (simp add: skip_columns.simps)

section \<open>Examples\<close>

definition sample_connection :: "u32 \<Rightarrow> int \<Rightarrow> ConnectionState" where
  "sample_connection ip p = (new_state 0 5) \<lparr>flow_state := zero_flow \<lparr>orig_h := ip\<rparr>, key_port := p\<rparr>"

definition bron_empty :: bron where
  "bron_empty = \<lparr>heap = (\<lambda>p. new_state 0 5), live = {}, connections = {}, orphans = [], open_fds = {}, requests = [], forged = [],
     to_service = [], to_client = [], logged = [], stale = [], nclients = 0, up_bytes = 700, down_bytes = 900, active_connections = 3,
     total_connections = 8\<rparr>"

definition httpd_0 :: httpd where
  "httpd_0 = \<lparr>last_up_bytes = 100, last_down_bytes = 200, port_list = [80, 443] @ replicate 13 0, port_list_len = 2,
     syslog_lines = [], log_timer = False\<rparr>"

definition sample_cs :: "ConnectionState list" where
  "sample_cs = [sample_connection 7 443, sample_connection 7 80, sample_connection 9 443]"

lemma sample_clients: "clients sample_cs 80 = {7}" "clients sample_cs 443 = {7, 9}" "key_port ` set sample_cs = {80, 443}"
proof -
  have "clients cs p = set (map (\<lambda>st. orig_h (flow_state st)) (filter (\<lambda>st. key_port st = p) cs))" for cs p
    by (auto simp: clients_def)
  note c = this
  show "clients sample_cs 80 = {7}" "clients sample_cs 443 = {7, 9}"
    unfolding c by (simp_all add: sample_cs_def sample_connection_def del: set_map set_filter)
  show "key_port ` set sample_cs = {80, 443}" by (auto simp: sample_cs_def sample_connection_def)
qed

lemma sample_record:
  "log_record 5 sample_cs (up_bytes bron_empty - last_up_bytes httpd_0) (down_bytes bron_empty - last_down_bytes httpd_0) bron_empty =
     ''5 3 2 600 700 3 700 900 8 2 80 1 1 443 2 2 ''"
proof -
  have "ref_ports sample_cs = [\<lparr>users = [], port = 80, users_size = 1, port_conns = 1\<rparr>, \<lparr>users = [], port = 443, users_size = 2, port_conns = 2\<rparr>]"
    by (simp add: ref_ports_def sample_clients port_entry_def) (simp add: sample_cs_def sample_connection_def)
  then show ?thesis
    by (simp add: log_record_def sample_clients log_head_def log_port_def bron_empty_def httpd_0_def sp_def dd_def ld_def show_int_def)
      (simp add: sample_cs_def sample_connection_def show_nat.simps char_of_def bit_0)
qed

theorem httpd_log_record_witness:
  "\<exists>h. httpd_log 5 (replicate 427 CHR ''x'') rev sample_cs bron_empty httpd_0 = Inr h \<and>
     syslog_lines h = [''5 3 2 600 700 3 700 900 8 2 80 1 1 443 2 2 '']"
proof -
  have "httpd_log 5 (replicate 427 CHR ''x'') rev sample_cs bron_empty httpd_0 =
    Inr (httpd_0 \<lparr>last_up_bytes := up_bytes bron_empty, last_down_bytes := down_bytes bron_empty,
        syslog_lines := syslog_lines httpd_0 @ [take 424 (log_record 5 sample_cs (up_bytes bron_empty - last_up_bytes httpd_0)
          (down_bytes bron_empty - last_down_bytes httpd_0) bron_empty)], log_timer := True\<rparr>)"
    by (rule httpd_log_record) (simp_all add: line_size)
  then show ?thesis unfolding sample_record by (simp add: httpd_0_def)
qed

definition sample_entry :: entry where
  "sample_entry = (5, [], 600, 700, bron_empty)"



end
