(* ===== verification/Station_Ctx.thy ===== *)
theory Station_Ctx
  imports Prelude
begin

text \<open>
  TLS helpers of the station (\<open>src/telex-station/station/net/common.c\<close> and \<open>src/telex-station/common/client.c\<close>). The
  results of OpenSSL and of the system calls are arguments; leaving the process and dereferencing a null pointer are
  results.
\<close>

section \<open>The context\<close>

datatype ctx_end = Ctx_Exit int string | Ctx_Null | Ctx_Overflow

text \<open>Both error routines leave the process with status 0.\<close>

definition err_exit :: "string \<Rightarrow> ctx_end + 'a" where
  "err_exit message = Inl (Ctx_Exit 0 message)"

definition berr_exit :: "string \<Rightarrow> ctx_end + 'a" where
  "berr_exit message = Inl (Ctx_Exit 0 message)"

text \<open>\<open>password_cb\<close> for a buffer of \<open>room\<close> characters and the argument \<open>num\<close>, which is compared without a sign: the result and
  the string stored.\<close>

definition password_cb :: "string \<Rightarrow> nat \<Rightarrow> int \<Rightarrow> ctx_end + int \<times> string option" where
  "password_cb pass room num =
     (if (word_of_int num :: u64) < word_of_nat (length pass) + 1 then Inr (0, None)
      else if room < length pass + 1 then Inl Ctx_Overflow
      else Inr (int (length pass), Some pass))"

record ctx_state =
  lib_ready :: bool
  sigpipe_ignored :: bool
  password :: "string option"
  contexts :: nat

definition initialize_ctx :: "bool \<Rightarrow> bool \<Rightarrow> bool \<Rightarrow> string \<Rightarrow> ctx_state \<Rightarrow> ctx_end + ctx_state" where
  "initialize_ctx chain_ok key_ok cas_ok pw s =
     (let s = (if \<not> lib_ready s then s \<lparr>lib_ready := True\<rparr> else s);
          s = s \<lparr>sigpipe_ignored := True, contexts := contexts s + 1\<rparr>
      in if \<not> chain_ok then berr_exit ''Can't read certificate file''
         else let s = s \<lparr>password := Some pw\<rparr>
              in if \<not> key_ok then berr_exit ''Can't read key file''
                 else if \<not> cas_ok then berr_exit ''Can't read CA list''
                 else Inr s)"

definition destroy_ctx :: "ctx_state \<Rightarrow> ctx_state" where
  "destroy_ctx s = s \<lparr>contexts := contexts s - 1\<rparr>"

section \<open>Connections\<close>

text \<open>\<open>tcp_connect\<close>: the descriptor or error code, and the descriptors left open.\<close>

definition tcp_connect :: "bool \<Rightarrow> int \<Rightarrow> int \<Rightarrow> int set \<Rightarrow> ctx_end + int \<times> int set" where
  "tcp_connect resolved sock r fds =
     (if \<not> resolved then berr_exit ''Couldn't resolve host''
      else if sock < 0 then Inr (sock, fds)
      else if r < 0 then Inr (r, insert sock fds)
      else Inr (sock, insert sock fds))"

definition to_lower :: "char \<Rightarrow> char" where
  "to_lower c = (if of_char c \<in> {65 :: nat..90} then char_of (of_char c + 32 :: nat) else c)"

definition strcasecmp_equal :: "string \<Rightarrow> string \<Rightarrow> bool" where
  "strcasecmp_equal s t \<longleftrightarrow> map to_lower s = map to_lower t"

text \<open>\<open>check_cert\<close>: whether the chain verifies, whether there is a certificate, its common name, and what an unset buffer holds. At
  most 255 characters of the name are stored.\<close>

definition check_cert :: "bool \<Rightarrow> bool \<Rightarrow> string option \<Rightarrow> string \<Rightarrow> string \<Rightarrow> ctx_end + unit" where
  "check_cert verified peer cn uninit host =
     (if \<not> verified then berr_exit ''Certificate doesn't verify''
      else if \<not> peer then Inl Ctx_Null
      else let peer_CN = (case cn of None \<Rightarrow> uninit | Some name \<Rightarrow> takeWhile (\<lambda>c. c \<noteq> CHR 0x00) (take 255 name))
           in if \<not> strcasecmp_equal peer_CN host then err_exit ''Common name doesn't match host name''
              else Inr ())"

section \<open>Lemmas\<close>

text \<open>For the sizes that OpenSSL passes, the password is stored only where it fits with its terminator.\<close>

lemma password_fits:
  assumes "0 \<le> num" "num < 2 ^ 63" "num \<le> int room" "length pass < 2 ^ 63"
  shows "password_cb pass room num = Inr (if num < int (length pass) + 1 then (0, None) else (int (length pass), Some pass))"
proof -
  have "uint (word_of_nat (length pass) + 1 :: u64) = int (length pass) + 1"
    using assms(4) by (simp add: uint_word_ariths unsigned_of_nat take_bit_nat_eq_self)
  moreover have "uint (word_of_int num :: u64) = num" using assms(1,2) by (simp add: unsigned_of_int take_bit_int_eq_self)
  ultimately show ?thesis using assms(3) by (simp add: password_cb_def word_less_def)
qed

text \<open>A certificate is accepted exactly when it verifies and its common name, as far as its first null character, is the host.\<close>

lemma take_takeWhile: "takeWhile P (take n xs) = take n (takeWhile P xs)"
  by (induction xs arbitrary: n) (auto simp: take_Cons split: nat.split)

lemma check_cert_ok:
  assumes "length host < 255"
  shows "check_cert verified peer (Some name) uninit host = Inr () \<longleftrightarrow>
    verified \<and> peer \<and> strcasecmp_equal (takeWhile (\<lambda>c. c \<noteq> CHR 0x00) name) host"
proof -
  let ?P = "\<lambda>c. c \<noteq> CHR 0x00"
  have "strcasecmp_equal (takeWhile ?P (take 255 name)) host \<longleftrightarrow> strcasecmp_equal (takeWhile ?P name) host"
  proof (cases "length (takeWhile ?P name) < 255")
    case True
    then have "takeWhile ?P (take 255 name) = takeWhile ?P name"
      by (simp add: take_takeWhile)
    then show ?thesis by simp
  next
    case False
    then have "length (takeWhile ?P (take 255 name)) = 255"
      by (simp add: take_takeWhile)
    then show ?thesis using False assms unfolding strcasecmp_equal_def by (metis length_map less_irrefl)
  qed
  then show ?thesis by (simp add: check_cert_def err_exit_def berr_exit_def)
qed

lemma null_in_name_accepted:
  assumes "length host < 255" "CHR 0x00 \<notin> set host"
  shows "check_cert True True (Some (host @ CHR 0x00 # rest)) uninit host = Inr ()"
proof -
  have "takeWhile (\<lambda>c. c \<noteq> CHR 0x00) (host @ CHR 0x00 # rest) = host" using assms(2) by (induction host) auto
  then show ?thesis by (simp add: check_cert_ok [OF assms(1)] strcasecmp_equal_def)
qed

end
