(* ===== verification/Detector.thy ===== *)
theory Detector
  imports Bronnect Client_Ssl Complex_Main
begin

text \<open>
  The detector of the station: the functions that Telex adds to the traffic analyser Bro
  (\<open>src/telex-station/station/bro-1.5.1/src/bro.bif\<close>, from line 3220) and the script that calls them
  (\<open>src/telex-station/station/brohome/site/telex-ssl.bro\<close>). For every TLS connection that passes, Bro raises the
  events of the script. A tagged hello makes the script block the flow and forward its packets itself; when the
  handshake is complete, the flow is handed to the connection manager over a socket.

  The state holds the table of the script, the descriptors of the sockets to the connection manager, and the list of
  what has been sent, in order. A record of a script is a value here, since every record of the table is reachable
  through the table only. A field of a record that may be unset is an option. Times are rational numbers of seconds.
  What the system calls return is the argument \<open>e\<close>; Bro itself is present through its events only.
\<close>

section \<open>Types of the script\<close>

type_synonym count = u64

record conn_id =
  cid_orig_h :: u32
  cid_orig_p :: u16
  cid_resp_h :: u32
  cid_resp_p :: u16

record tcp_ts_info =
  ti_recv_time :: "rat option"
  ti_tsval :: count
  ti_tsecr :: count

record tcp_info =
  ti_seq :: count
  ti_ack :: count
  ti_rcv_window :: count
  ti_rcv_window_scale :: count
  ti_snd_window :: count
  ti_snd_window_scale :: count
  ti_cur_ts :: tcp_ts_info
  ti_last_ts :: tcp_ts_info
  ti_ts_option :: bool
  ti_sack_option :: bool

record dh_strings =
  ds_p :: "bytes option"
  ds_g :: "bytes option"
  ds_pub_key :: "bytes option"
  ds_client_random :: "bytes option"
  ds_server_random :: "bytes option"
  ds_client_iv :: "bytes option"
  ds_server_iv :: "bytes option"

record telex_key_info =
  ki_shared_key :: bytes
  ki_conn_port :: count

record telex_info =
  te_key_info :: telex_key_info
  te_last_ttl :: count
  te_tcp :: tcp_info
  te_last_ip_id :: count
  te_do_fwd :: bool
  te_fwd_time :: rat
  te_sock :: int
  te_state :: nat
  te_dh :: dh_strings

text \<open>What an event tells about one end of a connection.\<close>

record endpoint =
  ep_last_seq :: count
  ep_last_window :: count
  ep_last_window_scale :: count
  ep_last_IP_ID :: count
  ep_last_TTL :: count

section \<open>State and environment\<close>

text \<open>\<open>Blocker_Msg\<close> is a complete message to the flow blocker, \<open>Bronnect_Init\<close> an init record on a socket with the number
  of bytes that \<open>send\<close> took, \<open>Bronnect_Raw\<close> the bytes of a raw packet record.\<close>

datatype det_action =
  Blocker_Msg bytes
| Bronnect_Init int bro_init_data int
| Bronnect_Raw int bytes
| Close int
| Forward bytes
| Forged "bytes list"
| Skip conn_id

datatype det_fault = Det_Exit int | Det_Null | Det_Bounds | Det_Division | Det_Wait

record detector =
  telex_table :: "conn_id \<rightharpoonup> telex_info"
  det_fds :: "int set"
  actions :: "det_action list"

text \<open>The parameters of one run of a handler. \<open>blocked_time\<close> is the clock after the flow has been blocked. \<open>mod_attempts\<close> holds, for every turn of the loop in \<open>telex_mod_block\<close>, what
  \<open>send\<close> returns and the four codes of a new connection to the flow blocker. \<open>stack_flow\<close> and \<open>heap_bytes\<close> are the contents of
  memory that the code does not initialise.\<close>

record det_env =
  current_time :: rat
  blocked_time :: rat
  network_time :: rat
  mod_attempts :: "(int list \<times> int \<times> int \<times> int \<times> int) list"
  det_socket :: int
  det_connect :: int
  init_send :: int
  raw_sends :: "int list"
  fwd_sendto :: "bytes \<Rightarrow> int"
  forge_alloc :: "nat \<Rightarrow> bool"
  forge_now :: "nat \<Rightarrow> timeval"
  stack_flow :: flow
  heap_bytes :: bytes
  heap_port :: u16

text \<open>The global variables that \<open>telex_init\<close> sets, and what the tag check needs.\<close>

record det_config =
  det_SHA256 :: hash
  det_stack :: stack
  telex_key_list :: "(bytes \<times> u16) list"
  bronnect_socket :: string

definition act :: "det_action \<Rightarrow> detector \<Rightarrow> detector" where
  "act a d = d \<lparr>actions := actions d @ [a]\<rparr>"

definition mod_te :: "conn_id \<Rightarrow> (telex_info \<Rightarrow> telex_info) \<Rightarrow> detector \<Rightarrow> detector" where
  "mod_te cid f d = d \<lparr>telex_table := (telex_table d)(cid := map_option f (telex_table d cid))\<rparr>"

section \<open>Functions of bro.bif\<close>

definition telex_get_context :: "u32 \<Rightarrow> bytes \<Rightarrow> bytes \<Rightarrow> bytes" where
  "telex_get_context server_ip timestamp session_id = le_bytes 4 server_ip @ take 4 timestamp @ take 1 session_id"

text \<open>The loop over the private keys. \<open>key\<close> is the global buffer of the tag check.\<close>

fun try_keys :: "hash \<Rightarrow> stack \<Rightarrow> bytes \<Rightarrow> (bytes \<times> u16) list \<Rightarrow> bytes \<Rightarrow> bytes \<Rightarrow> telex_key_info option" where
  "try_keys SHA256 m key [] client_hello context = None"
| "try_keys SHA256 m key ((privkey, port) # keys) client_hello context =
     (case check_tag SHA256 m key privkey client_hello context of
        (ret, key) \<Rightarrow>
          if ret = 0 then Some \<lparr>ki_shared_key = key, ki_conn_port = ucast port\<rparr>
          else try_keys SHA256 m key keys client_hello context)"

definition telex_tag_get_key :: "det_config \<Rightarrow> bytes \<Rightarrow> bytes \<Rightarrow> bytes \<Rightarrow> telex_key_info option" where
  "telex_tag_get_key cfg key client_hello context =
     (if length client_hello \<noteq> PTWIST_TAG_BYTES then None
      else try_keys (det_SHA256 cfg) (det_stack cfg) key (telex_key_list cfg) client_hello context)"

definition telex_fwd :: "det_env \<Rightarrow> bytes \<Rightarrow> detector \<Rightarrow> det_fault + detector" where
  "telex_fwd e ip4 d =
     (if length ip4 < 20 then Inl Det_Bounds
      else case telex_fwd_pkt (fwd_sendto e) ip4 of (res, pkt) \<Rightarrow> Inr (act (Forward pkt) d))"

definition cleanup_telex_obj :: "telex_info \<Rightarrow> detector \<Rightarrow> detector" where
  "cleanup_telex_obj te d = act (Close (te_sock te)) (d \<lparr>det_fds := det_fds d - {te_sock te}\<rparr>)"

definition UNIX_PATH_MAX :: nat where "UNIX_PATH_MAX = 108"

definition telex_init_bronnect :: "det_env \<Rightarrow> string \<Rightarrow> telex_info \<Rightarrow> detector \<Rightarrow> det_fault + telex_info \<times> detector" where
  "telex_init_bronnect e path te d =
     (if te_sock te \<noteq> - 1 then Inr (te, d)
      else if det_socket e < 0 then Inl (Det_Exit 1)
      else if length path \<ge> UNIX_PATH_MAX then Inl (Det_Exit 1)
      else let d = d \<lparr>det_fds := insert (det_socket e) (det_fds d)\<rparr>
           in if det_connect e < 0 then Inr (te, d)
              else Inr (te \<lparr>te_sock := det_socket e\<rparr>, d))"

definition tv_of :: "rat \<Rightarrow> timeval" where
  "tv_of t = \<lparr>tv_sec = word_of_int \<lfloor>t\<rfloor>, tv_usec = word_of_int \<lfloor>(t - of_int \<lfloor>t\<rfloor>) * 1000000 + 1 / 2\<rfloor>\<rparr>"

definition fill_ts :: "tcp_ts_info \<Rightarrow> telex_tcp_ts \<Rightarrow> telex_tcp_ts" where
  "fill_ts ts old =
     (case ti_recv_time ts of
        None \<Rightarrow> old
      | Some t \<Rightarrow> \<lparr>tv = tv_of t, tsval = ucast (ti_tsval ts), tsecr = ucast (ti_tsecr ts)\<rparr>)"

definition telex_fill_flow :: "conn_id \<Rightarrow> telex_info \<Rightarrow> flow \<Rightarrow> bool \<Rightarrow> flow" where
  "telex_fill_flow cid te fl to_orig =
     (let t = te_tcp te;
          fl = (if to_orig
                then fl \<lparr>orig_h := cid_orig_h cid, resp_h := cid_resp_h cid,
                         orig_p := ntohs (cid_orig_p cid), resp_p := ntohs (cid_resp_p cid)\<rparr>
                else fl \<lparr>orig_h := cid_resp_h cid, resp_h := cid_orig_h cid,
                         orig_p := ntohs (cid_resp_p cid), resp_p := ntohs (cid_orig_p cid)\<rparr>);
          fl = fl \<lparr>last_ttl := ucast (te_last_ttl te), last_ip_id := ucast (te_last_ip_id te)\<rparr>;
          info = tcp fl;
          info = (if to_orig
                  then info \<lparr>seq := ucast (ti_seq t), ack := ucast (ti_ack t),
                             rcv_window := ucast (ti_rcv_window t), rcv_window_scale := ucast (ti_rcv_window_scale t),
                             snd_window := ucast (ti_snd_window t), snd_window_scale := ucast (ti_snd_window_scale t)\<rparr>
                  else info \<lparr>seq := ucast (ti_ack t), ack := ucast (ti_seq t),
                             rcv_window := ucast (ti_snd_window t), rcv_window_scale := ucast (ti_snd_window_scale t),
                             snd_window := ucast (ti_rcv_window t), snd_window_scale := ucast (ti_rcv_window_scale t)\<rparr>);
          info = info \<lparr>flags := 0\<rparr>;
          info = (if ti_ts_option t
                  then info \<lparr>option_ts := 1, cur_ts := fill_ts (ti_cur_ts t) (cur_ts info),
                             last_ts := fill_ts (ti_last_ts t) (last_ts info)\<rparr>
                  else info);
          info = (if ti_sack_option t then info \<lparr>option_sack := 1\<rparr> else info)
      in fl \<lparr>tcp := info\<rparr>)"

definition forge :: "det_env \<Rightarrow> flow \<Rightarrow> detector \<Rightarrow> det_fault + detector" where
  "forge e fl d =
     (case telex_tcp_forge_xmit (fwd_sendto e) (forge_alloc e) (forge_now e) fl [] of
        None \<Rightarrow> Inl Det_Division
      | Some (res, pkts, fl) \<Rightarrow> Inr (act (Forged pkts) d))"

definition telex_send_ack :: "det_env \<Rightarrow> conn_id \<Rightarrow> telex_info \<Rightarrow> detector \<Rightarrow> det_fault + detector" where
  "telex_send_ack e cid te d = forge e (telex_fill_flow cid te (stack_flow e) True) d"

definition TH_RST :: byte where "TH_RST = 0x04"

definition telex_send_rst :: "det_env \<Rightarrow> conn_id \<Rightarrow> telex_info \<Rightarrow> detector \<Rightarrow> det_fault + detector" where
  "telex_send_rst e cid te d =
     (let fl = telex_fill_flow cid te (stack_flow e) False
      in forge e (fl \<lparr>tcp := (tcp fl) \<lparr>flags := TH_RST\<rparr>\<rparr>) d)"

text \<open>The two functions that write to the connection manager return their result for the script.\<close>

definition raw_record :: "bytes \<Rightarrow> bytes" where
  "raw_record pkt = le_bytes 2 RECORD_TYPE_RAW_PKT @ le_bytes 2 (word_of_nat (length pkt) :: u16) @ pkt"

definition telex_send_bronnect_raw_pkt :: "det_env \<Rightarrow> telex_info \<Rightarrow> bytes \<Rightarrow> detector \<Rightarrow> det_fault + nat \<times> detector" where
  "telex_send_bronnect_raw_pkt e te pkt d =
     (if te_sock te = - 1 then Inr (1, d)
      else case sendall (raw_sends e) (raw_record pkt) of
             None \<Rightarrow> Inl Det_Wait
           | Some (ret, out) \<Rightarrow> Inr (if ret < 0 then 1 else 0, act (Bronnect_Raw (te_sock te) out) d))"

definition flow_zero :: flow where
  "flow_zero = \<lparr>orig_h = 0, resp_h = 0, orig_p = 0, resp_p = 0, last_ttl = 0, last_ip_id = 0,
     tcp = \<lparr>seq = 0, ack = 0, rcv_window = 0, rcv_window_scale = 0, snd_window = 0, snd_window_scale = 0,
       last_ts = \<lparr>tv = \<lparr>tv_sec = 0, tv_usec = 0\<rparr>, tsval = 0, tsecr = 0\<rparr>,
       cur_ts = \<lparr>tv = \<lparr>tv_sec = 0, tv_usec = 0\<rparr>, tsval = 0, tsecr = 0\<rparr>, option_ts = 0, option_sack = 0, flags = 0\<rparr>\<rparr>"

text \<open>\<open>memcpy\<close> of a string to the front of an array of \<open>n\<close> bytes.\<close>

definition over :: "bytes \<Rightarrow> nat \<Rightarrow> bytes \<Rightarrow> bytes" where
  "over s n old = s @ take (n - length s) (drop (length s) old)"

definition init_record :: "det_env \<Rightarrow> conn_id \<Rightarrow> telex_info \<Rightarrow> bytes \<times> bytes \<times> bytes \<times> bytes \<times> bytes \<times> bytes \<Rightarrow> bro_init_data" where
  "init_record e cid te = (\<lambda>(p, pub_key, c_random, s_random, c_iv, s_iv).
     (let key = ki_shared_key (te_key_info te);
          fl = telex_fill_flow cid te flow_zero True
      in \<lparr>init_flow = fl \<lparr>last_ttl := last_ttl fl + 1\<rparr>,
          shared_secret = (if length key = 16 then key else replicate 16 0),
          init_port = (if length key = 16 then ucast (ki_conn_port (te_key_info te)) else heap_port e),
          dh = \<lparr>dh_p = p, dh_pub_key = pub_key, dh_client_random = over c_random 32 (heap_bytes e),
                dh_server_random = over s_random 32 (heap_bytes e), dh_client_iv = over c_iv 16 (heap_bytes e),
                dh_server_iv = over s_iv 16 (heap_bytes e)\<rparr>\<rparr>))"

text \<open>Every member of the parameters that is set; reading one that is not set goes through a null pointer.\<close>

fun dh_values :: "dh_strings \<Rightarrow> (bytes \<times> bytes \<times> bytes \<times> bytes \<times> bytes \<times> bytes) option" where
  "dh_values \<lparr>ds_p = Some p, ds_g = Some g, ds_pub_key = Some pub_key, ds_client_random = Some c_random,
     ds_server_random = Some s_random, ds_client_iv = Some c_iv, ds_server_iv = Some s_iv\<rparr> =
     Some (p, pub_key, c_random, s_random, c_iv, s_iv)"
| "dh_values _ = None"

fun dh_fits :: "bytes \<times> bytes \<times> bytes \<times> bytes \<times> bytes \<times> bytes \<Rightarrow> bool" where
  "dh_fits (p, pub_key, c_random, s_random, c_iv, s_iv) \<longleftrightarrow>
     \<not> (length p > 128 \<or> length pub_key > 128 \<or> length c_random > 32 \<or> length s_random > 32 \<or> length c_iv > 16 \<or> length s_iv > 16)"

definition telex_send_init_data :: "det_env \<Rightarrow> conn_id \<Rightarrow> telex_info \<Rightarrow> detector \<Rightarrow> det_fault + nat \<times> detector" where
  "telex_send_init_data e cid te d =
     (if te_sock te = - 1 then Inr (1, d)
      else if ds_p (te_dh te) = None then Inr (1, d)
      else case dh_values (te_dh te) of
             None \<Rightarrow> Inl Det_Null
           | Some vs \<Rightarrow>
               if \<not> dh_fits vs then Inr (1, d)
               else if init_send e < 0 then Inr (1, d)
               else Inr (0, act (Bronnect_Init (te_sock te) (init_record e cid te vs) (init_send e)) d))"

text \<open>The loop of \<open>telex_mod_block\<close>: it ends when a message has been sent, or leaves the process when no new connection to the
  flow blocker can be made. It is stuck when the list of attempts ends.\<close>

fun telex_mod_block :: "(int list \<times> int \<times> int \<times> int \<times> int) list \<Rightarrow> conn_id \<Rightarrow> bool \<Rightarrow> detector \<Rightarrow> det_fault + detector" where
  "telex_mod_block [] cid block d = Inl Det_Wait"
| "telex_mod_block ((sends, err_code, sock, r, errno) # attempts) cid block d =
     (case telex_mod_flow sends (cid_orig_h cid) (ntohs (cid_orig_p cid)) (cid_resp_h cid) (ntohs (cid_resp_p cid)) (if block then 1 else 0) of
        None \<Rightarrow> Inl Det_Wait
      | Some (ret, out) \<Rightarrow>
          if ret = 0 then Inr (act (Blocker_Msg out) d)
          else if fst (telex_connect_to_flow_blocker err_code sock r errno (- 1)) < 0 \<or> err_code \<noteq> 0 \<or> sock = - 1 \<or> r = - 1
               then Inl (Det_Exit 1)
               else telex_mod_block attempts cid block d)"

text \<open>The key file: the number of keys, then every key with its port. \<open>fread\<close> stores what there is, a part of an entry too; the
  result is tested against 1 only.\<close>

definition key_entry :: "bytes \<Rightarrow> nat \<Rightarrow> bytes \<times> u16" where
  "key_entry mem i = (take PTWIST_BYTES (drop (23 * i) mem), le_word (take 2 (drop (23 * i + PTWIST_BYTES) mem)))"

definition telex_init :: "bytes option \<Rightarrow> bytes \<Rightarrow> int \<Rightarrow> det_config \<Rightarrow> det_fault + det_config" where
  "telex_init file junk blocker cfg =
     (case file of
        None \<Rightarrow> Inl (Det_Exit 1)
      | Some bs \<Rightarrow>
          if length bs < 2 then Inl (Det_Exit 1)
          else let num_keys = unat (le_word (take 2 bs) :: u16);
                   read = take (23 * num_keys) (drop 2 bs);
                   mem = read @ drop (length read) junk
               in if length read div 23 < 1 then Inl (Det_Exit 1)
                  else if blocker < 0 then Inl (Det_Exit 1)
                  else Inr (cfg \<lparr>telex_key_list := map (key_entry mem) [0..<num_keys]\<rparr>))"

definition extract_tcp_timestamp :: "bytes \<Rightarrow> bool \<Rightarrow> count" where
  "extract_tcp_timestamp s ecr =
     (if length s \<noteq> 10 \<or> s ! 0 \<noteq> 0x08 \<or> s ! 1 \<noteq> 0x0a then 0
      else ucast (be_word (take 4 (drop (if ecr then 6 else 2) s)) :: u32))"

definition get_ssl_nonce_timestamp :: "bytes \<Rightarrow> rat" where
  "get_ssl_nonce_timestamp nonce = of_nat (unat (be_word (take 4 nonce) :: u32))"

definition rshift :: "count \<Rightarrow> count \<Rightarrow> count" where
  "rshift n shift = drop_bit (unat shift) n"

definition lshift :: "count \<Rightarrow> count \<Rightarrow> count" where
  "lshift n shift = push_bit (unat shift) n"

text \<open>Bro's \<open>sub_bytes\<close>: positions count from 1, the start is narrowed to an \<open>int\<close>, and the length is cut to what there is.\<close>

definition sub_bytes :: "bytes \<Rightarrow> count \<Rightarrow> int \<Rightarrow> bytes" where
  "sub_bytes s start n =
     (let start = (if start > 0 then start - 1 else start);
          i = sint (ucast start :: u32);
          n = (if n < 0 \<or> n > int (length s) - i then int (length s) - i else n)
      in if i < 0 \<or> i > int (length s) then [] else take (nat n) (drop (nat i) s))"

section \<open>The script\<close>

definition do_expire :: "det_env \<Rightarrow> conn_id \<Rightarrow> detector \<Rightarrow> det_fault + detector" where
  "do_expire e cid d =
     (case telex_table d cid of
        None \<Rightarrow> Inr d
      | Some te \<Rightarrow>
          and_then (telex_mod_block (mod_attempts e) cid False d) (\<lambda>d.
            let d = cleanup_telex_obj te d
            in Inr (d \<lparr>telex_table := (telex_table d)(cid := None)\<rparr>)))"

definition cleanup_and_unblock_connection :: "det_env \<Rightarrow> conn_id \<Rightarrow> detector \<Rightarrow> det_fault + detector" where
  "cleanup_and_unblock_connection e cid d = do_expire e cid d"

definition cleanup_connection :: "conn_id \<Rightarrow> telex_info \<Rightarrow> detector \<Rightarrow> detector" where
  "cleanup_connection cid te d =
     (let d = cleanup_telex_obj te d in d \<lparr>telex_table := (telex_table d)(cid := None)\<rparr>)"

definition connection_state_remove :: "det_env \<Rightarrow> conn_id \<Rightarrow> detector \<Rightarrow> det_fault + detector" where
  "connection_state_remove e cid d =
     (if telex_table d cid \<noteq> None then cleanup_and_unblock_connection e cid d else Inr d)"

definition ssl_conn_alert :: "conn_id \<Rightarrow> bool \<Rightarrow> detector \<Rightarrow> detector" where
  "ssl_conn_alert cid is_orig d =
     (case telex_table d cid of
        None \<Rightarrow> d
      | Some te \<Rightarrow> if is_orig then cleanup_connection cid te d else d)"

text \<open>The loop over the table visits the connections of the list \<open>cids\<close>.\<close>

fun purge_telex_table :: "det_env \<Rightarrow> conn_id list \<Rightarrow> detector \<Rightarrow> det_fault + detector" where
  "purge_telex_table e [] d = Inr d"
| "purge_telex_table e (cid # cids) d =
     (case telex_table d cid of
        None \<Rightarrow> purge_telex_table e cids d
      | Some te \<Rightarrow>
          if te_state te < 4 \<and> current_time e - te_fwd_time te > 5
          then and_then (telex_mod_block (mod_attempts e) cid False d) (\<lambda>d. purge_telex_table e cids (cleanup_connection cid te d))
          else purge_telex_table e cids d)"

definition new_packet_final :: "det_env \<Rightarrow> conn_id \<Rightarrow> bytes \<Rightarrow> detector \<Rightarrow> det_fault + detector" where
  "new_packet_final e cid raw d =
     (case telex_table d cid of
        None \<Rightarrow> Inr d
      | Some te \<Rightarrow>
          if \<not> te_do_fwd te then Inr d
          else if network_time e > te_fwd_time te then
            if te_state te = 5 then
              let d = mod_te cid (\<lambda>te. te \<lparr>te_do_fwd := False\<rparr>) d
              in and_then (telex_send_bronnect_raw_pkt e te raw d) (\<lambda>(ret, d).
                   let d = mod_te cid (\<lambda>te. te \<lparr>te_state := 6\<rparr>) d
                   in and_then (telex_send_rst e cid te d) (\<lambda>d. Inr (cleanup_connection cid te d)))
            else telex_fwd e raw d
          else if te_state te = 5 then
            cleanup_and_unblock_connection e cid (mod_te cid (\<lambda>te. te \<lparr>te_do_fwd := False, te_state := 7\<rparr>) d)
          else Inr d)"

definition ts_zero :: tcp_ts_info where
  "ts_zero = \<lparr>ti_recv_time = None, ti_tsval = 0, ti_tsecr = 0\<rparr>"

definition new_telex_info :: "telex_key_info \<Rightarrow> bytes \<Rightarrow> rat \<Rightarrow> telex_info" where
  "new_telex_info key c_random time =
     \<lparr>te_key_info = key, te_last_ttl = 0,
      te_tcp = \<lparr>ti_seq = 0, ti_ack = 0, ti_rcv_window = 0, ti_rcv_window_scale = 0, ti_snd_window = 0, ti_snd_window_scale = 0,
        ti_cur_ts = ts_zero, ti_last_ts = ts_zero, ti_ts_option = False, ti_sack_option = False\<rparr>,
      te_last_ip_id = 0, te_do_fwd = True, te_fwd_time = time, te_sock = - 1, te_state = 1,
      te_dh = \<lparr>ds_p = None, ds_g = None, ds_pub_key = None, ds_client_random = Some c_random, ds_server_random = None,
        ds_client_iv = None, ds_server_iv = None\<rparr>\<rparr>"

definition ssl_conn_attempt :: "det_config \<Rightarrow> det_env \<Rightarrow> conn_id \<Rightarrow> bytes \<Rightarrow> bytes \<Rightarrow> detector \<Rightarrow> det_fault + detector" where
  "ssl_conn_attempt cfg e cid rand c_random d =
     (if telex_table d cid \<noteq> None then Inr d
      else let tag_context = telex_get_context (cid_resp_h cid) (sub_bytes c_random 1 4) [0];
               diff = get_ssl_nonce_timestamp c_random - current_time e
           in case telex_tag_get_key cfg [] rand tag_context of
                None \<Rightarrow> Inr (act (Skip cid) d)
              | Some key \<Rightarrow>
                  if diff > 60 \<or> diff < - 60 then Inr (act (Skip cid) d)
                  else and_then (telex_mod_block (mod_attempts e) cid True d) (\<lambda>d.
                         and_then (telex_init_bronnect e (bronnect_socket cfg) (new_telex_info key c_random (blocked_time e)) d)
                           (\<lambda>(te, d). Inr (d \<lparr>telex_table := (telex_table d)(cid := Some te)\<rparr>))))"

definition ssl_conn_server_reply :: "conn_id \<Rightarrow> bytes \<Rightarrow> detector \<Rightarrow> detector" where
  "ssl_conn_server_reply cid s_random d =
     mod_te cid (\<lambda>te. te \<lparr>te_dh := (te_dh te) \<lparr>ds_server_random := Some s_random\<rparr>\<rparr>) d"

definition ssl_app_data :: "det_env \<Rightarrow> conn_id \<Rightarrow> detector \<Rightarrow> det_fault + detector" where
  "ssl_app_data e cid d =
     (case telex_table d cid of
        None \<Rightarrow> Inr d
      | Some te \<Rightarrow> if te_sock te = - 1 then Inr d else cleanup_and_unblock_connection e cid d)"

definition ssl_change_cipher :: "det_env \<Rightarrow> conn_id \<Rightarrow> bool \<Rightarrow> detector \<Rightarrow> det_fault + detector" where
  "ssl_change_cipher e cid is_orig d =
     (case telex_table d cid of
        None \<Rightarrow> Inr d
      | Some te \<Rightarrow>
          if te_state te = 1 then
            if is_orig then Inr (mod_te cid (\<lambda>te. te \<lparr>te_state := 2\<rparr>) d)
            else cleanup_and_unblock_connection e cid d
          else if te_state te = 2 \<and> \<not> is_orig then Inr (mod_te cid (\<lambda>te. te \<lparr>te_state := 4\<rparr>) d)
          else cleanup_and_unblock_connection e cid d)"

definition get_iv_from_handshake :: "bytes \<Rightarrow> bytes" where
  "get_iv_from_handshake data = sub_bytes data (word_of_nat (length data) - 15) 16"

definition client_finished :: "endpoint \<Rightarrow> endpoint \<Rightarrow> bytes \<Rightarrow> telex_info \<Rightarrow> telex_info" where
  "client_finished orig resp data te =
     te \<lparr>te_dh := (te_dh te) \<lparr>ds_client_iv := Some (get_iv_from_handshake data)\<rparr>,
         te_tcp := (te_tcp te) \<lparr>ti_ack := ep_last_seq orig, ti_seq := ep_last_seq resp,
           ti_snd_window := rshift (ep_last_window resp) (ep_last_window_scale resp), ti_snd_window_scale := ep_last_window_scale resp,
           ti_rcv_window := rshift (ep_last_window orig) (ep_last_window_scale orig), ti_rcv_window_scale := ep_last_window_scale orig\<rparr>,
         te_last_ip_id := ep_last_IP_ID resp, te_last_ttl := ep_last_TTL resp\<rparr>"

definition server_finished :: "bytes \<Rightarrow> telex_info \<Rightarrow> telex_info" where
  "server_finished data te = te \<lparr>te_dh := (te_dh te) \<lparr>ds_server_iv := Some (get_iv_from_handshake data)\<rparr>\<rparr>"

definition ssl_handshake :: "det_env \<Rightarrow> conn_id \<Rightarrow> endpoint \<Rightarrow> endpoint \<Rightarrow> bool \<Rightarrow> bytes \<Rightarrow> detector \<Rightarrow> det_fault + detector" where
  "ssl_handshake e cid orig resp is_orig data d =
     (case telex_table d cid of
        None \<Rightarrow> Inr d
      | Some te \<Rightarrow>
          let te = (if te_state te \<ge> 2 \<and> is_orig then client_finished orig resp data te
                    else if te_state te \<ge> 3 \<and> \<not> is_orig then server_finished data te else te);
              d = d \<lparr>telex_table := (telex_table d)(cid := Some te)\<rparr>
          in if te_state te = 4
             then and_then (telex_send_init_data e cid te d) (\<lambda>(ret, d).
                    if ret \<noteq> 0 then cleanup_and_unblock_connection e cid d
                    else Inr (mod_te cid (\<lambda>te. te \<lparr>te_state := 5\<rparr>) d))
             else Inr d)"

definition ssl_server_key_exchange :: "conn_id \<Rightarrow> bytes \<Rightarrow> bytes \<Rightarrow> bytes \<Rightarrow> detector \<Rightarrow> detector" where
  "ssl_server_key_exchange cid p g pub_key d =
     mod_te cid (\<lambda>te. te \<lparr>te_dh := (te_dh te) \<lparr>ds_p := Some p, ds_g := Some g, ds_pub_key := Some pub_key\<rparr>\<rparr>) d"

definition ssl_record :: "det_env \<Rightarrow> conn_id \<Rightarrow> endpoint \<Rightarrow> endpoint \<Rightarrow> bool \<Rightarrow> int \<Rightarrow> bytes \<Rightarrow> detector \<Rightarrow> det_fault + detector" where
  "ssl_record e cid orig resp is_orig typ data d =
     (if typ = 23 then ssl_app_data e cid d
      else if typ = 20 then ssl_change_cipher e cid is_orig d
      else if typ = 22 then ssl_handshake e cid orig resp is_orig data d
      else Inr d)"

definition store_timestamp :: "det_env \<Rightarrow> bytes \<Rightarrow> tcp_info \<Rightarrow> tcp_info" where
  "store_timestamp e opt t =
     (let tsval = extract_tcp_timestamp opt False;
          t = t \<lparr>ti_ts_option := True\<rparr>
      in if ti_tsval (ti_cur_ts t) \<noteq> tsval
         then t \<lparr>ti_last_ts := ti_cur_ts t,
                 ti_cur_ts := \<lparr>ti_recv_time = Some (network_time e), ti_tsval = tsval, ti_tsecr = extract_tcp_timestamp opt True\<rparr>\<rparr>
         else t)"

definition tcp_option :: "det_env \<Rightarrow> conn_id \<Rightarrow> bool \<Rightarrow> nat \<Rightarrow> bytes \<Rightarrow> detector \<Rightarrow> detector" where
  "tcp_option e cid is_orig kind opt d =
     (if kind = 8 then if \<not> is_orig then mod_te cid (\<lambda>te. te \<lparr>te_tcp := store_timestamp e opt (te_tcp te)\<rparr>) d else d
      else if kind = 4 then if is_orig then mod_te cid (\<lambda>te. te \<lparr>te_tcp := (te_tcp te) \<lparr>ti_sack_option := True\<rparr>\<rparr>) d else d
      else d)"

section \<open>Runs\<close>

datatype bro_event =
  Expire conn_id
| Connection_State_Remove conn_id
| Ssl_Conn_Alert conn_id bool
| New_Packet_Final conn_id bytes
| Ssl_Conn_Attempt conn_id bytes bytes
| Ssl_Conn_Server_Reply conn_id bytes
| Ssl_Server_Key_Exchange conn_id bytes bytes bytes
| Ssl_Record conn_id endpoint endpoint bool int bytes
| Tcp_Option conn_id bool nat bytes

fun handle :: "det_config \<Rightarrow> det_env \<times> bro_event \<Rightarrow> detector \<Rightarrow> det_fault + detector" where
  "handle cfg (e, Expire cid) d = do_expire e cid d"
| "handle cfg (e, Connection_State_Remove cid) d = connection_state_remove e cid d"
| "handle cfg (e, Ssl_Conn_Alert cid is_orig) d = Inr (ssl_conn_alert cid is_orig d)"
| "handle cfg (e, New_Packet_Final cid raw) d = new_packet_final e cid raw d"
| "handle cfg (e, Ssl_Conn_Attempt cid rand c_random) d = ssl_conn_attempt cfg e cid rand c_random d"
| "handle cfg (e, Ssl_Conn_Server_Reply cid s_random) d = Inr (ssl_conn_server_reply cid s_random d)"
| "handle cfg (e, Ssl_Server_Key_Exchange cid p g pub_key) d = Inr (ssl_server_key_exchange cid p g pub_key d)"
| "handle cfg (e, Ssl_Record cid orig resp is_orig typ data) d = ssl_record e cid orig resp is_orig typ data d"
| "handle cfg (e, Tcp_Option cid is_orig kind opt) d = Inr (tcp_option e cid is_orig kind opt d)"

fun run :: "det_config \<Rightarrow> (det_env \<times> bro_event) list \<Rightarrow> detector \<Rightarrow> det_fault + detector" where
  "run cfg [] d = Inr d"
| "run cfg (ev # evs) d = and_then (handle cfg ev d) (run cfg evs)"

definition det_0 :: detector where
  "det_0 = \<lparr>telex_table = Map.empty, det_fds = {}, actions = []\<rparr>"

end
