(* ===== verification/Detector_Props.thy ===== *)
theory Detector_Props
  imports Detector
begin

text \<open>
  Properties of the detector. The handlers implement an abstract protocol, \<open>det_step\<close>: a flow is tracked, followed through its
  handshake, announced to the connection manager, and then handed over or released. Every reachable state satisfies an
  invariant of this protocol, from which follows that no flow stays blocked without an owner.
\<close>

section \<open>Blocked flows\<close>

definition flow_of :: "conn_id \<Rightarrow> flow4" where
  "flow_of cid = \<lparr>addr1 = cid_orig_h cid, port1 = ntohs (cid_orig_p cid), addr2 = cid_resp_h cid, port2 = ntohs (cid_resp_p cid)\<rparr>"

text \<open>What the flow blocker makes of the messages: the flows that are blocked.\<close>

fun block_act :: "det_action \<Rightarrow> flow4 set \<Rightarrow> flow4 set" where
  "block_act (Blocker_Msg msg) B = (case decode_msg msg of (block, f) \<Rightarrow> if block \<noteq> 0 then insert f B else B - {f})"
| "block_act _ B = B"

definition blocked_flows :: "det_action list \<Rightarrow> flow4 set" where
  "blocked_flows as = fold block_act as {}"

definition about :: "flow4 \<Rightarrow> det_action \<Rightarrow> bool" where
  "about f a \<longleftrightarrow> (case a of Blocker_Msg msg \<Rightarrow> snd (decode_msg msg) = f | _ \<Rightarrow> False)"

lemma blocked_flows_snoc [simp]: "blocked_flows (as @ [a]) = block_act a (blocked_flows as)"
  by (simp add: blocked_flows_def)

lemma blocked_flows_Nil [simp]: "blocked_flows [] = {}"
  by (simp add: blocked_flows_def)

declare decode_block_flow_msg [simp]

lemma about_simps [simp]:
  "about f (Blocker_Msg (block_flow_msg f' b)) \<longleftrightarrow> f' = f" "\<not> about f (Bronnect_Init s i n)" "\<not> about f (Bronnect_Raw s bs)"
  "\<not> about f (Close s)" "\<not> about f (Forward pkt)" "\<not> about f (Forged pkts)" "\<not> about f (Skip cid)"
  by (simp_all add: about_def)

lemma block_act_msg [simp]:
  "block_act (Blocker_Msg (block_flow_msg f 1)) B = insert f B" "block_act (Blocker_Msg (block_flow_msg f 0)) B = B - {f}"
  by simp_all

lemma ntohs_inj: "ntohs p = ntohs q \<Longrightarrow> p = q"
proof -
  assume eq: "ntohs p = ntohs q"
  have r: "le_bytes 2 (ntohs p) = rev (le_bytes 2 p)" for p
    using le_bytes_le_word [of "rev (le_bytes 2 p)", where 'a = 16]
    by (simp add: ntohs_def be_word_def be_val_def le_word_def)
  have "le_bytes 2 p = le_bytes 2 q" using r [of p] r [of q] eq by simp
  moreover have "le_word (le_bytes 2 p) = p" for p :: u16 by (rule le_word_le_bytes) simp
  ultimately show "p = q" by metis
qed

lemma flow_of_inj: "flow_of cid = flow_of cid' \<Longrightarrow> cid = cid'"
  using ntohs_inj by (cases cid, cases cid') (auto simp: flow_of_def)

lemma telex_mod_block_sends:
  "telex_mod_block attempts cid block d = Inr d' \<Longrightarrow>
     d' = act (Blocker_Msg (block_flow_msg (flow_of cid) (if block then 1 else 0))) d"
proof (induction attempts cid block d rule: telex_mod_block.induct)
  case (2 sends err_code sock r errno attempts cid block d)
  let ?m = "telex_mod_flow sends (cid_orig_h cid) (ntohs (cid_orig_p cid)) (cid_resp_h cid) (ntohs (cid_resp_p cid)) (if block then 1 else 0)"
  obtain ret out where m: "?m = Some (ret, out)" using 2(2) by (cases ?m) auto
  show ?case
  proof (cases "ret = 0")
    case True
    then have "out = block_flow_msg (flow_of cid) (if block then 1 else 0)"
      using m sendall_prefix unfolding telex_mod_flow_def telex_remote_mod_flow_def flow_of_def by blast
    then show ?thesis using True 2(2) m by simp
  next
    case False
    then show ?thesis using 2 m by (simp split: if_splits)
  qed
qed simp

section \<open>The protocol of the detector\<close>

text \<open>A flow of a connection is announced when a complete init record for it has been written to a socket, the socket has not
  been closed since, and the flow blocker has not been asked about the flow since. It is handed over when a raw packet has then
  been written to the socket, again without a later request about the flow.\<close>

definition announced :: "flow4 \<Rightarrow> int \<Rightarrow> det_action list \<Rightarrow> bool" where
  "announced f sock as \<longleftrightarrow> (\<exists>before data since. as = before @ Bronnect_Init sock data (hdr_size + int init_size) # since \<and>
     Close sock \<notin> set since \<and> unblock_request (init_flow data) = f \<and> (\<forall>a\<in>set since. \<not> about f a))"

definition handed_over :: "flow4 \<Rightarrow> det_action list \<Rightarrow> bool" where
  "handed_over f as \<longleftrightarrow> (\<exists>before sock pkt since. as = before @ Bronnect_Raw sock (raw_record pkt) # since \<and>
     announced f sock before \<and> (\<forall>a\<in>set since. \<not> about f a))"

inductive det_step :: "detector \<Rightarrow> detector \<Rightarrow> bool" where
  note_action: "a \<in> range Forward \<union> range Skip \<Longrightarrow> det_step d (act a d)"
| track: "telex_table d cid = None \<Longrightarrow> te_state te = 1 \<Longrightarrow> 0 \<le> s \<Longrightarrow> s \<notin> det_fds d \<Longrightarrow> te_sock te \<in> {- 1, s} \<Longrightarrow>
    det_step d \<lparr>telex_table = (telex_table d)(cid \<mapsto> te), det_fds = insert s (det_fds d),
      actions = actions d @ [Blocker_Msg (block_flow_msg (flow_of cid) 1)]\<rparr>"
| follow: "telex_table d cid = Some te \<Longrightarrow> te_sock te' = te_sock te \<Longrightarrow>
    te_state te' = te_state te \<or> (te_state te, te_state te') \<in> {(1, 2), (2, 4)} \<Longrightarrow>
    det_step d (d \<lparr>telex_table := (telex_table d)(cid \<mapsto> te')\<rparr>)"
| announce: "telex_table d cid = Some te \<Longrightarrow> te_state te = 4 \<Longrightarrow> te_sock te \<noteq> - 1 \<Longrightarrow> te_state te' = 5 \<Longrightarrow> te_sock te' = te_sock te \<Longrightarrow>
    unblock_request (init_flow data) = flow_of cid \<Longrightarrow>
    det_step d \<lparr>telex_table = (telex_table d)(cid \<mapsto> te'), det_fds = det_fds d,
      actions = actions d @ [Bronnect_Init (te_sock te) data (hdr_size + int init_size)]\<rparr>"
| hand_over: "telex_table d cid = Some te \<Longrightarrow> te_state te = 5 \<Longrightarrow>
    det_step d \<lparr>telex_table = (telex_table d)(cid := None), det_fds = det_fds d - {te_sock te},
      actions = actions d @ [Bronnect_Raw (te_sock te) (raw_record pkt), Forged pkts, Close (te_sock te)]\<rparr>"
| release: "telex_table d cid = Some te \<Longrightarrow>
    det_step d \<lparr>telex_table = (telex_table d)(cid := None), det_fds = det_fds d - {te_sock te},
      actions = actions d @ [Blocker_Msg (block_flow_msg (flow_of cid) 0), Close (te_sock te)]\<rparr>"

inductive_cases det_stepE: "det_step d d'"

section \<open>The handlers implement the protocol\<close>

text \<open>What is assumed of the system when a handler runs: \<open>socket\<close> returns a descriptor that is not in use, the init record
  is taken as a whole or not at all, a raw packet is delivered, and there is no alert of the client.\<close>

fun orderly :: "det_env \<times> bro_event \<Rightarrow> detector \<Rightarrow> bool" where
  "orderly (e, ev) d \<longleftrightarrow> det_socket e \<notin> det_fds d \<and> (init_send e < 0 \<or> init_send e = hdr_size + int init_size) \<and>
     (case ev of Ssl_Conn_Alert cid is_orig \<Rightarrow> \<not> is_orig
      | New_Packet_Final cid raw \<Rightarrow> sendall (raw_sends e) (raw_record raw) = Some (0, raw_record raw)
      | _ \<Rightarrow> True)"

lemma do_expire_step:
  assumes "do_expire e cid d = Inr d'"
  shows "det_step\<^sup>*\<^sup>* d d'"
proof (cases "telex_table d cid")
  case (Some te)
  then have "d' = \<lparr>telex_table = (telex_table d)(cid := None), det_fds = det_fds d - {te_sock te},
      actions = actions d @ [Blocker_Msg (block_flow_msg (flow_of cid) 0), Close (te_sock te)]\<rparr>"
    using assms telex_mod_block_sends [of "mod_attempts e" cid False d]
    by (auto simp: do_expire_def and_then_def cleanup_telex_obj_def act_def split: sum.splits)
  then show ?thesis using det_step.release [of d cid te] Some by auto
qed (use assms in \<open>simp add: do_expire_def\<close>)

lemma mod_te_step:
  assumes "\<And>te. te_sock (f te) = te_sock te" "\<And>te. te_state (f te) = te_state te"
  shows "det_step\<^sup>*\<^sup>* d (mod_te cid f d)"
proof (cases "telex_table d cid")
  case None
  then have "mod_te cid f d = d" by (simp add: mod_te_def fun_upd_idem)
  then show ?thesis by simp
next
  case (Some te)
  then have "mod_te cid f d = d \<lparr>telex_table := (telex_table d)(cid \<mapsto> f te)\<rparr>" by (simp add: mod_te_def)
  then show ?thesis using det_step.follow [of d cid te "f te"] Some assms by auto
qed

lemma raw_ok:
  assumes "sendall (raw_sends e) (raw_record raw) = Some (0, raw_record raw)" "te_sock te \<noteq> - 1"
  shows "telex_send_bronnect_raw_pkt e te raw d = Inr (0, act (Bronnect_Raw (te_sock te) (raw_record raw)) d)"
  using assms by (simp add: telex_send_bronnect_raw_pkt_def)

lemma rst_forges:
  assumes "telex_send_rst e cid te d = Inr d'"
  shows "\<exists>pkts. d' = act (Forged pkts) d"
  using assms by (auto simp: telex_send_rst_def forge_def Let_def split: option.splits)

lemma new_packet_step:
  assumes "new_packet_final e cid raw d = Inr d'" "sendall (raw_sends e) (raw_record raw) = Some (0, raw_record raw)"
    and "\<And>te. telex_table d cid = Some te \<Longrightarrow> te_state te = 5 \<Longrightarrow> te_sock te \<noteq> - 1"
  shows "det_step\<^sup>*\<^sup>* d d'"
proof (cases "telex_table d cid")
  case (Some te)
  have "d' = d \<or> telex_fwd e raw d = Inr d' \<or> te_state te = 5 \<and> network_time e > te_fwd_time te \<and> te_do_fwd te \<or>
      do_expire e cid (mod_te cid (\<lambda>te. te \<lparr>te_do_fwd := False, te_state := 7\<rparr>) d) = Inr d'"
    using assms(1) unfolding new_packet_final_def Some option.case cleanup_and_unblock_connection_def
    by (simp split: if_splits)
  then consider "d' = d" | (fwd) "telex_fwd e raw d = Inr d'" | (hand) "te_state te = 5" "network_time e > te_fwd_time te" "te_do_fwd te"
    | (late) "do_expire e cid (mod_te cid (\<lambda>te. te \<lparr>te_do_fwd := False, te_state := 7\<rparr>) d) = Inr d'"
    by blast
  then show ?thesis
  proof cases
    case fwd
    then obtain pkt where "d' = act (Forward pkt) d" by (auto simp: telex_fwd_def split: prod.splits if_splits)
    then show ?thesis using det_step.note_action [of "Forward pkt" d] by auto
  next
    case hand
    define d2 where "d2 = mod_te cid (\<lambda>te. te \<lparr>te_state := 6\<rparr>)
        (act (Bronnect_Raw (te_sock te) (raw_record raw)) (mod_te cid (\<lambda>te. te \<lparr>te_do_fwd := False\<rparr>) d))"
    have "and_then (telex_send_rst e cid te d2) (\<lambda>d. Inr (cleanup_connection cid te d)) = Inr d'"
      using assms(1) hand Some raw_ok [OF assms(2) assms(3) [OF Some hand(1)]] by (simp add: new_packet_final_def Let_def d2_def)
    then obtain d3 where d3: "telex_send_rst e cid te d2 = Inr d3" "d' = cleanup_connection cid te d3"
      by (cases "telex_send_rst e cid te d2") auto
    with rst_forges obtain pkts where "d' = cleanup_connection cid te (act (Forged pkts) d2)" by blast
    then have "d' = \<lparr>telex_table = (telex_table d)(cid := None), det_fds = det_fds d - {te_sock te},
        actions = actions d @ [Bronnect_Raw (te_sock te) (raw_record raw), Forged pkts, Close (te_sock te)]\<rparr>"
      by (simp add: d2_def cleanup_connection_def cleanup_telex_obj_def act_def mod_te_def Let_def)
    then show ?thesis using det_step.hand_over [OF Some hand(1)] by auto
  next
    case late
    then have "d' = \<lparr>telex_table = (telex_table d)(cid := None), det_fds = det_fds d - {te_sock te},
        actions = actions d @ [Blocker_Msg (block_flow_msg (flow_of cid) 0), Close (te_sock te)]\<rparr>"
      using Some telex_mod_block_sends [of "mod_attempts e" cid False "mod_te cid (\<lambda>te. te \<lparr>te_do_fwd := False, te_state := 7\<rparr>) d"]
      by (auto simp: do_expire_def and_then_def cleanup_telex_obj_def act_def mod_te_def split: sum.splits)
    then show ?thesis using det_step.release [of d cid te] Some by auto
  qed simp
qed (use assms in \<open>simp add: new_packet_final_def\<close>)

lemma init_bronnect_result:
  assumes "telex_init_bronnect e path te0 d = Inr (te, d')" "te_sock te0 = - 1"
  shows "0 \<le> det_socket e" "te_sock te \<in> {- 1, det_socket e}" "te_state te = te_state te0"
    "d' = d \<lparr>det_fds := insert (det_socket e) (det_fds d)\<rparr>"
  using assms by (auto simp: telex_init_bronnect_def Let_def split: if_splits)

lemma attempt_step:
  assumes "ssl_conn_attempt cfg e cid rand c_random d = Inr d'" "det_socket e \<notin> det_fds d"
  shows "det_step\<^sup>*\<^sup>* d d'"
proof -
  have "d' = d \<or> d' = act (Skip cid) d \<or> telex_table d cid = None \<and>
      (\<exists>key. and_then (telex_mod_block (mod_attempts e) cid True d) (\<lambda>d.
         and_then (telex_init_bronnect e (bronnect_socket cfg) (new_telex_info key c_random (blocked_time e)) d)
           (\<lambda>(te, d). Inr (d \<lparr>telex_table := (telex_table d)(cid := Some te)\<rparr>))) = Inr d')"
    using assms(1) unfolding ssl_conn_attempt_def Let_def
    by (cases "telex_tag_get_key cfg [] rand (telex_get_context (cid_resp_h cid) (sub_bytes c_random 1 4) [0])") (auto split: if_splits)
  then consider "d' = d" | "d' = act (Skip cid) d"
    | (tagged) key d1 where "telex_table d cid = None" "telex_mod_block (mod_attempts e) cid True d = Inr d1"
      "and_then (telex_init_bronnect e (bronnect_socket cfg) (new_telex_info key c_random (blocked_time e)) d1)
         (\<lambda>(te, d). Inr (d \<lparr>telex_table := (telex_table d)(cid := Some te)\<rparr>)) = Inr d'"
    by (cases "telex_mod_block (mod_attempts e) cid True d") auto
  then show ?thesis
  proof cases
    case 2
    then show ?thesis using det_step.note_action [of "Skip cid" d] by auto
  next
    case tagged
    have "d1 = act (Blocker_Msg (block_flow_msg (flow_of cid) 1)) d" using telex_mod_block_sends [OF tagged(2)] by simp
    with tagged(3) obtain te d2 where i: "telex_init_bronnect e (bronnect_socket cfg) (new_telex_info key c_random (blocked_time e))
          (act (Blocker_Msg (block_flow_msg (flow_of cid) 1)) d) = Inr (te, d2)" "d' = d2 \<lparr>telex_table := (telex_table d2)(cid := Some te)\<rparr>"
      by (auto simp: and_then_def split: sum.splits)
    have te: "te_state te = 1" "te_sock te \<in> {- 1, det_socket e}" "0 \<le> det_socket e"
      and "d2 = act (Blocker_Msg (block_flow_msg (flow_of cid) 1)) d \<lparr>det_fds := insert (det_socket e) (det_fds d)\<rparr>"
      using init_bronnect_result [OF i(1)] by (simp_all add: new_telex_info_def act_def)
    then have "d' = \<lparr>telex_table = (telex_table d)(cid \<mapsto> te), det_fds = insert (det_socket e) (det_fds d),
        actions = actions d @ [Blocker_Msg (block_flow_msg (flow_of cid) 1)]\<rparr>"
      using i(2) by (simp add: act_def)
    then show ?thesis using det_step.track [OF tagged(1) te(1,3) assms(2) te(2)] by auto
  qed simp
qed

lemma init_record_flow: "unblock_request (init_flow (init_record e cid te vs)) = flow_of cid"
  by (cases vs) (simp add: init_record_def telex_fill_flow_def unblock_request_def flow_of_def Let_def)

lemma handshake_step:
  assumes "ssl_handshake e cid orig resp is_orig data d = Inr d'" "init_send e < 0 \<or> init_send e = hdr_size + int init_size"
  shows "det_step\<^sup>*\<^sup>* d d'"
proof (cases "telex_table d cid")
  case (Some te)
  define te1 where "te1 = (if te_state te \<ge> 2 \<and> is_orig then client_finished orig resp data te
                    else if te_state te \<ge> 3 \<and> \<not> is_orig then server_finished data te else te)"
  define d1 where "d1 = d \<lparr>telex_table := (telex_table d)(cid := Some te1)\<rparr>"
  have te1: "te_sock te1 = te_sock te" "te_state te1 = te_state te" by (simp_all add: te1_def client_finished_def server_finished_def)
  have step1: "det_step d d1" unfolding d1_def by (rule det_step.follow [OF Some]) (simp_all add: te1)
  have d1: "telex_table d1 cid = Some te1" by (simp add: d1_def)
  have d': "(if te_state te1 = 4
             then and_then (telex_send_init_data e cid te1 d1) (\<lambda>(ret, d).
                    if ret \<noteq> 0 then cleanup_and_unblock_connection e cid d
                    else Inr (mod_te cid (\<lambda>te. te \<lparr>te_state := 5\<rparr>) d))
             else Inr d1) = Inr d'"
    using assms(1) unfolding ssl_handshake_def te1_def d1_def Let_def Some option.case by (simp only:)
  have send: "(\<exists>vs. telex_send_init_data e cid te1 d1 = Inr (0, act (Bronnect_Init (te_sock te1) (init_record e cid te1 vs) (init_send e)) d1) \<and>
        te_sock te1 \<noteq> - 1 \<and> \<not> init_send e < 0) \<or> telex_send_init_data e cid te1 d1 = Inr (1, d1) \<or> (\<exists>x. telex_send_init_data e cid te1 d1 = Inl x)"
    unfolding telex_send_init_data_def by (cases "dh_values (te_dh te1)") (auto simp del: split_paired_Ex)
  consider "d' = d1" | "do_expire e cid d1 = Inr d'"
    | (init) vs where "te_state te1 = 4" "te_sock te1 \<noteq> - 1" "init_send e = hdr_size + int init_size"
       "d' = mod_te cid (\<lambda>te. te \<lparr>te_state := 5\<rparr>) (act (Bronnect_Init (te_sock te1) (init_record e cid te1 vs) (init_send e)) d1)"
  proof (cases "te_state te1 = 4")
    case True
    from send show thesis
    proof (elim disjE exE conjE)
      fix vs assume "telex_send_init_data e cid te1 d1 = Inr (0, act (Bronnect_Init (te_sock te1) (init_record e cid te1 vs) (init_send e)) d1)"
        "te_sock te1 \<noteq> - 1" "\<not> init_send e < 0"
      then show thesis using that(3) [OF True, of vs] d' True assms(2) by simp
    next
      assume "telex_send_init_data e cid te1 d1 = Inr (1, d1)"
      then show thesis using that(2) d' True by (simp add: cleanup_and_unblock_connection_def)
    qed (use d' True in simp)
  next
    case False
    then show thesis using d' that(1) by simp
  qed
  then have "det_step\<^sup>*\<^sup>* d1 d'"
  proof cases
    case init
    have "d' = \<lparr>telex_table = (telex_table d1)(cid \<mapsto> te1 \<lparr>te_state := 5\<rparr>), det_fds = det_fds d1,
      actions = actions d1 @ [Bronnect_Init (te_sock te1) (init_record e cid te1 vs) (hdr_size + int init_size)]\<rparr>"
      using init d1 by (simp add: mod_te_def act_def)
    then show ?thesis
      using det_step.announce [OF d1 init(1,2), of "te1 \<lparr>te_state := 5\<rparr>" "init_record e cid te1 vs"] init_record_flow by auto
  qed (auto intro: do_expire_step)
  with step1 show ?thesis by (rule converse_rtranclp_into_rtranclp)
qed (use assms in \<open>simp add: ssl_handshake_def\<close>)

lemma change_cipher_step:
  assumes "ssl_change_cipher e cid is_orig d = Inr d'"
  shows "det_step\<^sup>*\<^sup>* d d'"
proof (cases "telex_table d cid")
  case (Some te)
  consider "do_expire e cid d = Inr d'"
    | n where "d' = d \<lparr>telex_table := (telex_table d)(cid \<mapsto> te \<lparr>te_state := n\<rparr>)\<rparr>" "(te_state te, n) \<in> {(1, 2), (2, 4)}"
    using assms Some by (auto simp: ssl_change_cipher_def cleanup_and_unblock_connection_def mod_te_def split: if_splits)
  then show ?thesis
  proof cases
    case (2 n)
    then show ?thesis using det_step.follow [OF Some, of "te \<lparr>te_state := n\<rparr>"] by auto
  qed (rule do_expire_step)
qed (use assms in \<open>simp add: ssl_change_cipher_def\<close>)

lemma app_data_step: "ssl_app_data e cid d = Inr d' \<Longrightarrow> det_step\<^sup>*\<^sup>* d d'"
  by (auto simp: ssl_app_data_def cleanup_and_unblock_connection_def intro: do_expire_step split: option.splits if_splits)

lemma option_step: "det_step\<^sup>*\<^sup>* d (tcp_option e cid is_orig kind opt d)"
  by (auto simp: tcp_option_def intro!: mod_te_step)

text \<open>Every handler is a sequence of steps of the protocol.\<close>

lemma handle_steps:
  assumes "handle cfg ev d = Inr d'" "orderly ev d"
    and "\<And>cid te. telex_table d cid = Some te \<Longrightarrow> te_state te = 5 \<Longrightarrow> te_sock te \<noteq> - 1"
  shows "det_step\<^sup>*\<^sup>* d d'"
proof -
  obtain e b where ev: "ev = (e, b)" by fastforce
  show ?thesis
  proof (cases b)
    case (Expire cid)
    then show ?thesis using assms(1) ev do_expire_step by simp
  next
    case (Connection_State_Remove cid)
    then show ?thesis using assms(1) ev do_expire_step
      by (auto simp: connection_state_remove_def cleanup_and_unblock_connection_def split: if_splits)
  next
    case (Ssl_Conn_Alert cid is_orig)
    then show ?thesis using assms(1,2) ev by (auto simp: ssl_conn_alert_def split: option.splits)
  next
    case (New_Packet_Final cid raw)
    then show ?thesis using assms ev new_packet_step by simp
  next
    case (Ssl_Conn_Attempt cid rand c_random)
    then show ?thesis using assms(1,2) ev attempt_step by auto
  next
    case (Ssl_Record cid orig resp is_orig ty data)
    then show ?thesis using assms(1,2) ev
      by (auto simp: ssl_record_def split: if_splits intro: app_data_step change_cipher_step handshake_step)
  next
    case (Tcp_Option cid is_orig kind opt)
    then show ?thesis using assms(1) ev option_step by auto
  qed (use assms(1) ev in \<open>auto simp: ssl_conn_server_reply_def ssl_server_key_exchange_def intro!: mod_te_step\<close>)
qed

section \<open>The invariant\<close>

definition tracked :: "detector \<Rightarrow> flow4 \<Rightarrow> bool" where
  "tracked d f \<longleftrightarrow> (\<exists>cid te. telex_table d cid = Some te \<and> flow_of cid = f)"

definition te_ok :: "detector \<Rightarrow> conn_id \<Rightarrow> telex_info \<Rightarrow> bool" where
  "te_ok d cid te \<longleftrightarrow> flow_of cid \<in> blocked_flows (actions d) \<and> te_state te \<in> {1, 2, 4, 5} \<and>
     (te_sock te = - 1 \<or> te_sock te \<in> det_fds d) \<and>
     (te_state te = 5 \<longrightarrow> te_sock te \<noteq> - 1 \<and> announced (flow_of cid) (te_sock te) (actions d))"

definition det_inv :: "detector \<Rightarrow> bool" where
  "det_inv d \<longleftrightarrow> (\<forall>cid te. telex_table d cid = Some te \<longrightarrow> te_ok d cid te) \<and>
     (\<forall>cid te cid' te'. telex_table d cid = Some te \<longrightarrow> telex_table d cid' = Some te' \<longrightarrow> te_sock te = te_sock te' \<longrightarrow>
        te_sock te \<noteq> - 1 \<longrightarrow> cid = cid') \<and>
     (\<forall>f\<in>blocked_flows (actions d). tracked d f \<or> handed_over f (actions d))"

lemma det_invI:
  assumes "\<And>cid te. telex_table d cid = Some te \<Longrightarrow> te_ok d cid te"
    and "\<And>cid te cid' te'. telex_table d cid = Some te \<Longrightarrow> telex_table d cid' = Some te' \<Longrightarrow> te_sock te = te_sock te' \<Longrightarrow>
        te_sock te \<noteq> - 1 \<Longrightarrow> cid = cid'"
    and "\<And>f. f \<in> blocked_flows (actions d) \<Longrightarrow> tracked d f \<or> handed_over f (actions d)"
  shows "det_inv d"
  using assms unfolding det_inv_def by blast

lemma det_invD:
  assumes "det_inv d"
  shows "telex_table d cid = Some te \<Longrightarrow> te_ok d cid te"
    and "telex_table d cid = Some te \<Longrightarrow> telex_table d cid' = Some te' \<Longrightarrow> te_sock te = te_sock te' \<Longrightarrow> te_sock te \<noteq> - 1 \<Longrightarrow> cid = cid'"
    and "f \<in> blocked_flows (actions d) \<Longrightarrow> tracked d f \<or> handed_over f (actions d)"
  using assms unfolding det_inv_def by blast+

lemma announced_append:
  assumes "announced f sock as" "Close sock \<notin> set bs" "\<forall>a\<in>set bs. \<not> about f a"
  shows "announced f sock (as @ bs)"
proof -
  obtain before data since where "as = before @ Bronnect_Init sock data (hdr_size + int init_size) # since" "Close sock \<notin> set since"
    "unblock_request (init_flow data) = f" "\<forall>a\<in>set since. \<not> about f a"
    using assms(1) unfolding announced_def by blast
  then have "as @ bs = before @ Bronnect_Init sock data (hdr_size + int init_size) # (since @ bs) \<and> Close sock \<notin> set (since @ bs) \<and>
      unblock_request (init_flow data) = f \<and> (\<forall>a\<in>set (since @ bs). \<not> about f a)"
    using assms(2,3) by auto
  then show ?thesis unfolding announced_def by blast
qed

lemma announced_new: "unblock_request (init_flow data) = f \<Longrightarrow> announced f sock (as @ [Bronnect_Init sock data (hdr_size + int init_size)])"
  unfolding announced_def by force

lemma handed_append:
  assumes "handed_over f as" "\<forall>a\<in>set bs. \<not> about f a"
  shows "handed_over f (as @ bs)"
proof -
  obtain before sock pkt since where "as = before @ Bronnect_Raw sock (raw_record pkt) # since" "announced f sock before"
    "\<forall>a\<in>set since. \<not> about f a"
    using assms(1) unfolding handed_over_def by blast
  then have "as @ bs = before @ Bronnect_Raw sock (raw_record pkt) # (since @ bs) \<and> announced f sock before \<and>
      (\<forall>a\<in>set (since @ bs). \<not> about f a)"
    using assms(2) by auto
  then show ?thesis unfolding handed_over_def by blast
qed

lemma blocked_flows_append: "blocked_flows (as @ bs) = fold block_act bs (blocked_flows as)"
  by (simp add: blocked_flows_def)

text \<open>A step that tells the flow blocker nothing about a flow and closes none of its sockets keeps what is known about it.\<close>

lemma te_frame:
  assumes "te_ok d cid te" "actions d' = actions d @ bs" "flow_of cid \<in> blocked_flows (actions d')"
    and "te_sock te = - 1 \<or> te_sock te \<in> det_fds d'" "Close (te_sock te) \<notin> set bs" "\<forall>a\<in>set bs. \<not> about (flow_of cid) a"
  shows "te_ok d' cid te"
  using assms announced_append [of "flow_of cid" "te_sock te" "actions d" bs] unfolding te_ok_def by simp

lemma tracked_update:
  assumes "tracked d f" "telex_table d' = (telex_table d)(cid0 := x)" "f \<noteq> flow_of cid0 \<or> x \<noteq> None"
  shows "tracked d' f"
proof -
  obtain cid te where "telex_table d cid = Some te" "flow_of cid = f" using assms(1) unfolding tracked_def by blast
  then show ?thesis using assms(2,3) unfolding tracked_def by (intro exI [of _ cid]) auto
qed

lemma handed_new:
  assumes "announced f sock as" "\<forall>a\<in>set bs. \<not> about f a"
  shows "handed_over f (as @ Bronnect_Raw sock (raw_record pkt) # bs)"
  using assms unfolding handed_over_def by blast

lemma inv_note:
  assumes "det_inv d" "a \<in> range Forward \<union> range Skip"
  shows "det_inv (act a d)"
proof (rule det_invI)
  have a: "Close s \<noteq> a" "\<not> about f a" "block_act a B = B" for s f B using assms(2) by auto
  then have B: "blocked_flows (actions (act a d)) = blocked_flows (actions d)" by (simp add: act_def)
  show "te_ok (act a d) cid te" if "telex_table (act a d) cid = Some te" for cid te
    using that det_invD(1) [OF assms(1)] a B by (auto simp: act_def te_ok_def intro!: announced_append)
  show "cid = cid'" if "telex_table (act a d) cid = Some te" "telex_table (act a d) cid' = Some te'" "te_sock te = te_sock te'" "te_sock te \<noteq> - 1"
    for cid te cid' te'
    using that det_invD(2) [OF assms(1)] by (simp add: act_def)
  show "tracked (act a d) f \<or> handed_over f (actions (act a d))" if "f \<in> blocked_flows (actions (act a d))" for f
    using that det_invD(3) [OF assms(1), of f] B a handed_append [of f "actions d" "[a]"] by (auto simp: act_def tracked_def)
qed

lemma inv_track:
  assumes "det_inv d" "telex_table d cid0 = None" "te_state te0 = 1" "0 \<le> s" "s \<notin> det_fds d" "te_sock te0 \<in> {- 1, s}"
  shows "det_inv \<lparr>telex_table = (telex_table d)(cid0 \<mapsto> te0), det_fds = insert s (det_fds d),
      actions = actions d @ [Blocker_Msg (block_flow_msg (flow_of cid0) 1)]\<rparr>" (is "det_inv ?d")
proof (rule det_invI)
  show "te_ok ?d cid te" if "telex_table ?d cid = Some te" for cid te
  proof (cases "cid = cid0")
    case True
    then show ?thesis using that assms(3,6) by (auto simp: te_ok_def)
  next
    case False
    then have ok: "te_ok d cid te" and "flow_of cid \<noteq> flow_of cid0" using that det_invD(1) [OF assms(1)] flow_of_inj by auto
    then show ?thesis by (intro te_frame [OF ok]) (auto simp: te_ok_def)
  qed
  show "cid = cid'" if "telex_table ?d cid = Some te" "telex_table ?d cid' = Some te'" "te_sock te = te_sock te'" "te_sock te \<noteq> - 1"
    for cid te cid' te'
  proof -
    have "te_sock t \<noteq> s" if "telex_table d c = Some t" for c t
      using det_invD(1) [OF assms(1) that] assms(4,5) by (auto simp: te_ok_def)
    then show ?thesis using that assms(6) det_invD(2) [OF assms(1)] by (auto split: if_splits)
  qed
  show "tracked ?d f \<or> handed_over f (actions ?d)" if "f \<in> blocked_flows (actions ?d)" for f
  proof (cases "f = flow_of cid0")
    case True
    then show ?thesis by (auto simp: tracked_def)
  next
    case False
    then have "tracked d f \<or> handed_over f (actions d)" using that det_invD(3) [OF assms(1)] by simp
    then show ?thesis using False tracked_update [of d f ?d cid0 "Some te0"] by (auto intro!: handed_append)
  qed
qed

lemma inv_change:
  assumes "det_inv d" "telex_table d cid0 = Some te0" "te_sock te1 = te_sock te0" "te_state te1 \<in> {1, 2, 4, 5}"
    and "\<forall>a\<in>set bs. \<exists>s i n. a = Bronnect_Init s i n"
    and "te_state te1 = 5 \<Longrightarrow> te_sock te1 \<noteq> - 1 \<and> announced (flow_of cid0) (te_sock te1) (actions d @ bs)"
  shows "det_inv \<lparr>telex_table = (telex_table d)(cid0 \<mapsto> te1), det_fds = det_fds d, actions = actions d @ bs\<rparr>" (is "det_inv ?d")
proof (rule det_invI)
  have nb: "\<forall>a\<in>set bs. \<not> about f a" "Close s \<notin> set bs" for f s using assms(5) by auto
  have "fold block_act bs B = B" for B using assms(5) by (induction bs arbitrary: B) auto
  then have B: "blocked_flows (actions ?d) = blocked_flows (actions d)" by (simp add: blocked_flows_append)
  show "te_ok ?d cid te" if "telex_table ?d cid = Some te" for cid te
  proof (cases "cid = cid0")
    case True
    then show ?thesis using that assms(3,4,6) det_invD(1) [OF assms(1,2)] B by (auto simp: te_ok_def)
  next
    case False
    then have ok: "te_ok d cid te" using that det_invD(1) [OF assms(1)] by simp
    show ?thesis by (rule te_frame [OF ok, where bs = bs]) (use ok nb B in \<open>auto simp: te_ok_def\<close>)
  qed
  show "cid = cid'" if "telex_table ?d cid = Some te" "telex_table ?d cid' = Some te'" "te_sock te = te_sock te'" "te_sock te \<noteq> - 1"
    for cid te cid' te'
    using that assms(2,3) det_invD(2) [OF assms(1)] by (auto split: if_splits)
  show "tracked ?d f \<or> handed_over f (actions ?d)" if "f \<in> blocked_flows (actions ?d)" for f
    using that det_invD(3) [OF assms(1), of f] B nb handed_append [of f "actions d" bs] tracked_update [of d f ?d cid0 "Some te1"] by auto
qed

text \<open>An entry leaves the table when its flow is no longer blocked or has been handed over.\<close>

lemma inv_leave:
  assumes "det_inv d" "telex_table d cid0 = Some te0"
    and "\<And>a f. a \<in> set bs \<Longrightarrow> about f a \<Longrightarrow> f = flow_of cid0" "\<And>s. Close s \<in> set bs \<Longrightarrow> s = te_sock te0"
    and "blocked_flows (actions d @ bs) - {flow_of cid0} = blocked_flows (actions d) - {flow_of cid0}"
    and "flow_of cid0 \<in> blocked_flows (actions d @ bs) \<Longrightarrow> handed_over (flow_of cid0) (actions d @ bs)"
  shows "det_inv \<lparr>telex_table = (telex_table d)(cid0 := None), det_fds = det_fds d - {te_sock te0}, actions = actions d @ bs\<rparr>" (is "det_inv ?d")
proof (rule det_invI)
  show "te_ok ?d cid te" if "telex_table ?d cid = Some te" for cid te
  proof -
    have cid: "cid \<noteq> cid0" "telex_table d cid = Some te" using that by (auto split: if_splits)
    then have f: "flow_of cid \<noteq> flow_of cid0" using flow_of_inj by blast
    have ok: "te_ok d cid te" by (rule det_invD(1) [OF assms(1) cid(2)])
    have "te_sock te = - 1 \<or> te_sock te \<noteq> te_sock te0" using det_invD(2) [OF assms(1) cid(2) assms(2)] cid(1) by blast
    then show ?thesis
    proof
      assume "te_sock te = - 1"
      then show ?thesis using ok f assms(5) by (auto simp: te_ok_def)
    next
      assume "te_sock te \<noteq> te_sock te0"
      then show ?thesis by (intro te_frame [OF ok, where bs = bs]) (use ok f assms(3-5) in \<open>auto simp: te_ok_def\<close>)
    qed
  qed
  show "cid = cid'" if "telex_table ?d cid = Some te" "telex_table ?d cid' = Some te'" "te_sock te = te_sock te'" "te_sock te \<noteq> - 1"
    for cid te cid' te'
    using that det_invD(2) [OF assms(1)] by (auto split: if_splits)
  show "tracked ?d f \<or> handed_over f (actions ?d)" if "f \<in> blocked_flows (actions ?d)" for f
  proof (cases "f = flow_of cid0")
    case True
    then show ?thesis using that assms(6) by simp
  next
    case False
    then have "tracked d f \<or> handed_over f (actions d)" using that assms(5) det_invD(3) [OF assms(1), of f] by auto
    then show ?thesis using False assms(3) handed_append [of f "actions d" bs] tracked_update [of d f ?d cid0 None] by auto
  qed
qed

lemma det_step_inv:
  assumes "det_step d d'" "det_inv d"
  shows "det_inv d'"
  using assms(1)
proof (cases rule: det_step.cases)
  case (note_action a)
  then show ?thesis using inv_note assms(2) by blast
next
  case (track cid te s)
  then show ?thesis using inv_track assms(2) by blast
next
  case (follow cid te te')
  have "te_ok d cid te" by (rule det_invD(1) [OF assms(2) follow(2)])
  then have "det_inv \<lparr>telex_table = (telex_table d)(cid \<mapsto> te'), det_fds = det_fds d, actions = actions d @ []\<rparr>"
    using follow(3,4) by (intro inv_change [OF assms(2) follow(2,3)]) (auto simp: te_ok_def)
  then show ?thesis using follow(1) by (cases d) simp
next
  case (announce cid te te' data)
  show ?thesis unfolding announce(1)
    by (rule inv_change [OF assms(2) announce(2)]) (use announce announced_new [OF announce(7)] in auto)
next
  case (hand_over cid te pkt pkts)
  have ok: "te_ok d cid te" by (rule det_invD(1) [OF assms(2) hand_over(2)])
  then have "handed_over (flow_of cid) (actions d @ Bronnect_Raw (te_sock te) (raw_record pkt) # [Forged pkts, Close (te_sock te)])"
    using hand_over(3) by (intro handed_new) (auto simp: te_ok_def)
  then show ?thesis unfolding hand_over(1)
    by (intro inv_leave [OF assms(2) hand_over(2)]) (auto simp: blocked_flows_append)
next
  case (release cid te)
  show ?thesis unfolding release(1)
    by (rule inv_leave [OF assms(2) release(2)]) (auto simp: blocked_flows_append)
qed

lemma det_steps_inv: "det_step\<^sup>*\<^sup>* d d' \<Longrightarrow> det_inv d \<Longrightarrow> det_inv d'"
  by (induction rule: rtranclp_induct) (auto intro: det_step_inv)

definition det_next :: "det_config \<Rightarrow> detector \<Rightarrow> detector \<Rightarrow> bool" where
  "det_next cfg d d' \<longleftrightarrow> (\<exists>ev. orderly ev d \<and> handle cfg ev d = Inr d')"

interpretation det: invariant_system "\<lambda>d. d = det_0" "det_next cfg" det_inv for cfg
proof
  show "det_inv d" if "d = det_0" for d using that by (simp add: det_inv_def det_0_def)
  show "det_inv d'" if "det_inv d" "det_next cfg d d'" for d d'
  proof -
    from that(2) obtain ev where "orderly ev d" "handle cfg ev d = Inr d'" unfolding det_next_def by blast
    then have "det_step\<^sup>*\<^sup>* d d'" using det_invD(1) [OF that(1)] by (intro handle_steps) (auto simp: te_ok_def)
    then show ?thesis using that(1) by (rule det_steps_inv)
  qed
qed


section \<open>An example\<close>

text \<open>A station with one key, for a hash function whose value does not depend on its argument, and a hello that its key accepts.\<close>

definition det_cfg_0 :: "bytes \<Rightarrow> det_config" where
  "det_cfg_0 k = \<lparr>det_SHA256 = \<lambda>x. replicate 32 5, det_stack = \<lambda>i. (0, (0, 0, 0)), telex_key_list = [(k, 80)], bronnect_socket = ''/tmp/bro-bronnect''\<rparr>"

definition det_env_0 :: det_env where
  "det_env_0 = \<lparr>current_time = 1000, blocked_time = 1000, network_time = 1001, mod_attempts = [([13], 0, 0, 0, 0)], det_socket = 5,
     det_connect = 0, init_send = hdr_size + int init_size, raw_sends = [24], fwd_sendto = \<lambda>pkt. int (length pkt), forge_alloc = \<lambda>n. True,
     forge_now = \<lambda>i. \<lparr>tv_sec = 0, tv_usec = 0\<rparr>, stack_flow = flow_zero, heap_bytes = [], heap_port = 0\<rparr>"

definition cid_0 :: conn_id where
  "cid_0 = \<lparr>cid_orig_h = 0x0100007f, cid_orig_p = 4000, cid_resp_h = 0x0200007f, cid_resp_p = 443\<rparr>"

lemma mod_block_0: "telex_mod_block (mod_attempts det_env_0) cid b d = Inr (act (Blocker_Msg (block_flow_msg (flow_of cid) (if b then 1 else 0))) d)"
  by (simp add: det_env_0_def telex_mod_flow_def telex_remote_mod_flow_def flow_of_def block_flow_msg_def le_bytes_numeral)

lemma attempt_0:
  assumes "telex_tag_get_key (det_cfg_0 k) [] rand (telex_get_context (cid_resp_h cid) (sub_bytes c_random 1 4) [0]) = Some key"
    and "get_ssl_nonce_timestamp c_random = 1000" "telex_table d cid = None"
  shows "ssl_conn_attempt (det_cfg_0 k) det_env_0 cid rand c_random d =
    Inr \<lparr>telex_table = (telex_table d)(cid \<mapsto> new_telex_info key c_random 1000 \<lparr>te_sock := 5\<rparr>), det_fds = insert 5 (det_fds d),
      actions = actions d @ [Blocker_Msg (block_flow_msg (flow_of cid) 1)]\<rparr>"
  using assms mod_block_0 [of cid True d]
  by (simp add: ssl_conn_attempt_def Let_def telex_init_bronnect_def new_telex_info_def act_def)
    (simp add: det_env_0_def det_cfg_0_def UNIX_PATH_MAX_def)


end
