(* ===== verification/Detector_Handshake.thy ===== *)
theory Detector_Handshake
  imports Detector_Props
begin

text \<open>
  The detector follows the handshake of a tagged connection. Whatever else happens on the network meanwhile, the record that it
  sends to the connection manager holds the secret of the tag and the values of the handshake.
\<close>

section \<open>Events of other connections\<close>

fun cid_of :: "bro_event \<Rightarrow> conn_id" where
  "cid_of (Expire cid) = cid"
| "cid_of (Connection_State_Remove cid) = cid"
| "cid_of (Ssl_Conn_Alert cid is_orig) = cid"
| "cid_of (New_Packet_Final cid raw) = cid"
| "cid_of (Ssl_Conn_Attempt cid rand c_random) = cid"
| "cid_of (Ssl_Conn_Server_Reply cid s_random) = cid"
| "cid_of (Ssl_Server_Key_Exchange cid p g pub_key) = cid"
| "cid_of (Ssl_Record cid orig resp is_orig ty data) = cid"
| "cid_of (Tcp_Option cid is_orig kind opt) = cid"

lemma run_append: "run cfg (xs @ ys) d = and_then (run cfg xs d) (run cfg ys)"
  by (induction xs arbitrary: d) (auto simp: and_then_def split: sum.splits)

lemma mod_te_other: "cid \<noteq> cid' \<Longrightarrow> telex_table (mod_te cid' f d) cid = telex_table d cid"
  by (simp add: mod_te_def)

lemma mod_te_same: "telex_table d cid = Some te \<Longrightarrow> telex_table (mod_te cid f d) cid = Some (f te)"
  by (simp add: mod_te_def)

lemma act_table [simp]: "telex_table (act a d) = telex_table d"
  by (simp add: act_def)

lemma mod_block_table: "telex_mod_block as cid b d = Inr d' \<Longrightarrow> telex_table d' = telex_table d"
  using telex_mod_block_sends by fastforce

lemma expire_other: "do_expire e cid' d = Inr d' \<Longrightarrow> cid \<noteq> cid' \<Longrightarrow> telex_table d' cid = telex_table d cid"
  by (auto simp: do_expire_def and_then_def cleanup_telex_obj_def dest!: mod_block_table split: option.splits sum.splits)

lemma cleanup_other: "cid \<noteq> cid' \<Longrightarrow> telex_table (Detector.cleanup_connection cid' te d) cid = telex_table d cid"
  by (simp add: Detector.cleanup_connection_def cleanup_telex_obj_def Let_def)

lemma raw_table: "telex_send_bronnect_raw_pkt e te raw d = Inr (ret, d') \<Longrightarrow> telex_table d' = telex_table d"
  by (auto simp: telex_send_bronnect_raw_pkt_def split: if_splits option.splits)

lemma init_table: "telex_send_init_data e cid te d = Inr (ret, d') \<Longrightarrow> telex_table d' = telex_table d"
  by (auto simp: telex_send_init_data_def split: if_splits option.splits)

lemma fwd_table: "telex_fwd e raw d = Inr d' \<Longrightarrow> telex_table d' = telex_table d"
  by (auto simp: telex_fwd_def split: if_splits prod.splits)

lemma rst_table: "telex_send_rst e cid te d = Inr d' \<Longrightarrow> telex_table d' = telex_table d"
  using rst_forges by fastforce

lemma new_packet_other:
  assumes "new_packet_final e cid' raw d = Inr d'" "cid \<noteq> cid'"
  shows "telex_table d' cid = telex_table d cid"
proof (cases "telex_table d cid'")
  case (Some te)
  have "d' = d \<or> telex_fwd e raw d = Inr d' \<or> do_expire e cid' (mod_te cid' (\<lambda>te. te \<lparr>te_do_fwd := False, te_state := 7\<rparr>) d) = Inr d' \<or>
     and_then (telex_send_bronnect_raw_pkt e te raw (mod_te cid' (\<lambda>te. te \<lparr>te_do_fwd := False\<rparr>) d)) (\<lambda>(ret, d).
       and_then (telex_send_rst e cid' te (mod_te cid' (\<lambda>te. te \<lparr>te_state := 6\<rparr>) d)) (\<lambda>d. Inr (Detector.cleanup_connection cid' te d))) = Inr d'"
    using assms(1) unfolding new_packet_final_def Some option.case cleanup_and_unblock_connection_def Let_def by (simp split: if_splits)
  then show ?thesis
  proof (elim disjE)
    assume "and_then (telex_send_bronnect_raw_pkt e te raw (mod_te cid' (\<lambda>te. te \<lparr>te_do_fwd := False\<rparr>) d)) (\<lambda>(ret, d).
       and_then (telex_send_rst e cid' te (mod_te cid' (\<lambda>te. te \<lparr>te_state := 6\<rparr>) d)) (\<lambda>d. Inr (Detector.cleanup_connection cid' te d))) = Inr d'"
    then obtain ret d1 d2 where "telex_send_bronnect_raw_pkt e te raw (mod_te cid' (\<lambda>te. te \<lparr>te_do_fwd := False\<rparr>) d) = Inr (ret, d1)"
      "telex_send_rst e cid' te (mod_te cid' (\<lambda>te. te \<lparr>te_state := 6\<rparr>) d1) = Inr d2" "d' = Detector.cleanup_connection cid' te d2"
      by (auto simp: and_then_def split: sum.splits)
    then show ?thesis using assms(2) by (auto dest!: raw_table rst_table simp: cleanup_other mod_te_other)
  qed (use assms(2) in \<open>auto dest!: fwd_table expire_other simp: mod_te_other\<close>)
qed (use assms(1) in \<open>simp add: new_packet_final_def\<close>)

lemma attempt_other:
  assumes "ssl_conn_attempt cfg e cid' rand c_random d = Inr d'" "cid \<noteq> cid'"
  shows "telex_table d' cid = telex_table d cid"
  using assms
  by (auto simp: ssl_conn_attempt_def Let_def and_then_def telex_init_bronnect_def dest!: mod_block_table split: if_splits option.splits sum.splits)

lemma handshake_other:
  assumes "ssl_handshake e cid' orig resp is_orig data d = Inr d'" "cid \<noteq> cid'"
  shows "telex_table d' cid = telex_table d cid"
proof (cases "telex_table d cid'")
  case (Some te)
  define te1 where "te1 = (if te_state te \<ge> 2 \<and> is_orig then client_finished orig resp data te
                    else if te_state te \<ge> 3 \<and> \<not> is_orig then server_finished data te else te)"
  define d1 where "d1 = d \<lparr>telex_table := (telex_table d)(cid' := Some te1)\<rparr>"
  have d1: "telex_table d1 cid = telex_table d cid" using assms(2) by (simp add: d1_def)
  have "d' = d1 \<or> (\<exists>ret d2. telex_send_init_data e cid' te1 d1 = Inr (ret, d2) \<and>
      (do_expire e cid' d2 = Inr d' \<or> d' = mod_te cid' (\<lambda>te. te \<lparr>te_state := 5\<rparr>) d2))"
    using assms(1) unfolding ssl_handshake_def te1_def [symmetric] Let_def Some option.case d1_def [symmetric] cleanup_and_unblock_connection_def
    by (cases "telex_send_init_data e cid' te1 d1") (auto split: if_splits)
  then show ?thesis using d1 assms(2) by (auto dest!: init_table expire_other [where cid = cid] simp: mod_te_other)
qed (use assms(1) in \<open>simp add: ssl_handshake_def\<close>)

lemma handle_other:
  assumes "handle cfg (e, ev) d = Inr d'" "cid_of ev \<noteq> cid"
  shows "telex_table d' cid = telex_table d cid"
proof (cases ev)
  case (Ssl_Record cid' orig resp is_orig ty data)
  then show ?thesis using assms
    by (auto simp: ssl_record_def ssl_app_data_def ssl_change_cipher_def cleanup_and_unblock_connection_def mod_te_other
        dest: handshake_other [OF _ not_sym] expire_other [OF _ not_sym] split: if_splits option.splits)
next
  case (Ssl_Conn_Alert cid' is_orig)
  then show ?thesis using assms by (auto simp: ssl_conn_alert_def cleanup_other split: option.splits)
next
  case (New_Packet_Final cid' raw)
  then show ?thesis using assms new_packet_other [of e cid' raw d d' cid] by simp
next
  case (Ssl_Conn_Attempt cid' rand c_random)
  then show ?thesis using assms attempt_other [of cfg e cid' rand c_random d d' cid] by simp
qed (use assms in \<open>auto simp: connection_state_remove_def cleanup_and_unblock_connection_def ssl_conn_server_reply_def ssl_server_key_exchange_def
      tcp_option_def mod_te_other dest: expire_other [OF _ not_sym] split: if_splits\<close>)

section \<open>The session of a connection\<close>

text \<open>What the table holds of a connection, less the TCP state.\<close>

definition session :: "conn_id \<Rightarrow> telex_key_info \<Rightarrow> dh_strings \<Rightarrow> nat \<Rightarrow> int \<Rightarrow> detector \<Rightarrow> bool" where
  "session cid key ds st sock d \<longleftrightarrow>
     (\<exists>te. telex_table d cid = Some te \<and> te_key_info te = key \<and> te_dh te = ds \<and> te_state te = st \<and> te_sock te = sock)"

text \<open>Events that do not take part in the handshake of a connection: those of other connections, and the packets and TCP options
  of this one.\<close>

fun aside :: "conn_id \<Rightarrow> det_env \<times> bro_event \<Rightarrow> bool" where
  "aside cid (e, ev) \<longleftrightarrow> cid_of ev \<noteq> cid \<or> (case ev of New_Packet_Final _ _ \<Rightarrow> True | Tcp_Option _ _ _ _ \<Rightarrow> True | _ \<Rightarrow> False)"

lemma session_mod:
  assumes "session cid key ds st sock d" "\<And>te. te_key_info (f te) = te_key_info te" "\<And>te. te_sock (f te) = te_sock te"
    and "\<And>te. te_dh te = ds \<Longrightarrow> te_dh (f te) = ds'" "\<And>te. te_state te = st \<Longrightarrow> te_state (f te) = st'"
  shows "session cid key ds' st' sock (mod_te cid f d)"
  using assms unfolding session_def by (auto simp: mod_te_def)

lemma session_aside1:
  assumes "session cid key ds st sock d" "st \<noteq> 5" "handle cfg ev d = Inr d'" "aside cid ev"
  shows "session cid key ds st sock d'"
proof -
  obtain e b where ev: "ev = (e, b)" by fastforce
  show ?thesis
  proof (cases "cid_of b = cid")
    case False
    then show ?thesis using handle_other [of cfg e b d d' cid] assms(1,3) ev by (simp add: session_def)
  next
    case True
    then consider raw where "b = New_Packet_Final cid raw" | is_orig kind opt where "b = Tcp_Option cid is_orig kind opt"
      using assms(4) ev by (cases b) auto
    then show ?thesis
    proof cases
      case 1
      obtain te where te: "telex_table d cid = Some te" "te_state te \<noteq> 5" using assms(1,2) unfolding session_def by blast
      have "d' = d \<or> telex_fwd e raw d = Inr d'"
        using assms(3) te(2) unfolding ev 1 handle.simps new_packet_final_def te(1) option.case by (simp split: if_splits)
      then show ?thesis using assms(1) fwd_table by (auto simp: session_def)
    next
      case 2
      then have "d' = tcp_option e cid is_orig kind opt d" using assms(3) ev by simp
      then show ?thesis using assms(1) by (auto simp: tcp_option_def intro!: session_mod)
    qed
  qed
qed

lemma session_aside:
  assumes "session cid key ds st sock d" "st \<noteq> 5" "run cfg evs d = Inr d'" "\<forall>ev\<in>set evs. aside cid ev"
  shows "session cid key ds st sock d'"
  using assms
proof (induction evs arbitrary: d)
  case (Cons ev evs)
  then obtain d1 where d1: "handle cfg ev d = Inr d1" "run cfg evs d1 = Inr d'" by (auto simp: and_then_def split: sum.splits)
  have "session cid key ds st sock d1" using session_aside1 [OF Cons(2,3) d1(1)] Cons(5) by simp
  then show ?case using Cons(1) [OF _ Cons(3) d1(2)] Cons(5) by simp
qed simp

lemma run_split:
  assumes "run cfg (ev # ns @ evs) d = Inr d'"
  obtains d1 d2 where "handle cfg ev d = Inr d1" "run cfg ns d1 = Inr d2" "run cfg evs d2 = Inr d'"
  using assms by (auto simp: run_append and_then_def split: sum.splits)

lemma session_step:
  assumes "run cfg (ev # ns @ evs) d = Inr d'" "\<And>d1. handle cfg ev d = Inr d1 \<Longrightarrow> session cid key ds' st' sock d1"
    and "\<forall>ev\<in>set ns. aside cid ev" "st' \<noteq> 5"
  obtains d2 where "session cid key ds' st' sock d2" "run cfg evs d2 = Inr d'"
proof -
  obtain d1 d2 where "handle cfg ev d = Inr d1" "run cfg ns d1 = Inr d2" "run cfg evs d2 = Inr d'"
    using assms(1) by (rule run_split)
  then show thesis using that session_aside [OF assms(2) assms(4) _ assms(3)] by blast
qed

section \<open>The hello\<close>

lemma check_tag_ret: "fst (check_tag SHA256 m key k tag ctx) = fst (check_tag SHA256 m key' k tag ctx)"
  by (simp add: check_tag_def Let_def)

lemma try_keys_found:
  assumes "\<forall>(k, p)\<in>set ks. fst (check_tag SHA256 m [] k tag ctx) \<noteq> 0" "\<And>key. check_tag SHA256 m key privkey tag ctx = (0, secret)"
  shows "try_keys SHA256 m key (ks @ (privkey, port) # rest) tag ctx = Some \<lparr>ki_shared_key = secret, ki_conn_port = ucast port\<rparr>"
  using assms(1)
proof (induction ks arbitrary: key)
  case Nil
  then show ?case by (simp add: assms(2))
next
  case (Cons kp ks)
  obtain k p where kp: "kp = (k, p)" by fastforce
  have "fst (check_tag SHA256 m key k tag ctx) \<noteq> 0" using Cons(2) check_tag_ret [of SHA256 m key k tag ctx "[]"] kp by simp
  then show ?case using Cons kp by (auto split: prod.splits)
qed

lemma sub_bytes_front: "4 \<le> length s \<Longrightarrow> sub_bytes s 1 4 = take 4 s"
  by (simp add: sub_bytes_def Let_def)

lemma attempt_session:
  assumes "ssl_conn_attempt cfg e cid rand c_random d = Inr d'" "telex_table d cid = None"
    and "telex_tag_get_key cfg [] rand (telex_get_context (cid_resp_h cid) (sub_bytes c_random 1 4) [0]) = Some key"
    and "\<bar>get_ssl_nonce_timestamp c_random - current_time e\<bar> \<le> 60" "0 \<le> det_connect e"
  shows "session cid key \<lparr>ds_p = None, ds_g = None, ds_pub_key = None, ds_client_random = Some c_random, ds_server_random = None,
        ds_client_iv = None, ds_server_iv = None\<rparr> 1 (det_socket e) d' \<and> 0 \<le> det_socket e"
proof -
  have "\<not> (get_ssl_nonce_timestamp c_random - current_time e > 60 \<or> get_ssl_nonce_timestamp c_random - current_time e < - 60)"
    using assms(4) by linarith
  then have "and_then (telex_mod_block (mod_attempts e) cid True d) (\<lambda>d.
         and_then (telex_init_bronnect e (bronnect_socket cfg) (new_telex_info key c_random (blocked_time e)) d)
           (\<lambda>(te, d). Inr (d \<lparr>telex_table := (telex_table d)(cid := Some te)\<rparr>))) = Inr d'"
    using assms(1) unfolding ssl_conn_attempt_def Let_def assms(3) option.case by (simp add: assms(2))
  then obtain d1 te d2 where d1: "telex_init_bronnect e (bronnect_socket cfg) (new_telex_info key c_random (blocked_time e)) d1 = Inr (te, d2)"
    "d' = d2 \<lparr>telex_table := (telex_table d2)(cid := Some te)\<rparr>"
    by (auto simp: and_then_def split: sum.splits)
  have "te = new_telex_info key c_random (blocked_time e) \<lparr>te_sock := det_socket e\<rparr>"
    using d1(1) assms(5) by (auto simp: telex_init_bronnect_def new_telex_info_def Let_def split: if_splits)
  moreover have "0 \<le> det_socket e" using init_bronnect_result(1) [OF d1(1)] by (simp add: new_telex_info_def)
  ultimately show ?thesis using d1(2) by (simp add: session_def new_telex_info_def)
qed

section \<open>The other messages of the handshake\<close>

lemma reply_session:
  assumes "session cid key ds st sock d"
  shows "session cid key (ds \<lparr>ds_server_random := Some s_random\<rparr>) st sock (ssl_conn_server_reply cid s_random d)"
  unfolding ssl_conn_server_reply_def by (rule session_mod [OF assms]) simp_all

lemma exchange_session:
  assumes "session cid key ds st sock d"
  shows "session cid key (ds \<lparr>ds_p := Some p, ds_g := Some g, ds_pub_key := Some pub_key\<rparr>) st sock (ssl_server_key_exchange cid p g pub_key d)"
  unfolding ssl_server_key_exchange_def by (rule session_mod [OF assms]) simp_all

lemma client_change_session:
  assumes "session cid key ds 1 sock d" "ssl_record e cid orig resp True 20 data d = Inr d'"
  shows "session cid key ds 2 sock d'"
  using assms by (auto simp: session_def ssl_record_def ssl_change_cipher_def mod_te_def)

lemma server_change_session:
  assumes "session cid key ds 2 sock d" "ssl_record e cid orig resp False 20 data d = Inr d'"
  shows "session cid key ds 4 sock d'"
  using assms by (auto simp: session_def ssl_record_def ssl_change_cipher_def mod_te_def)

lemma client_finished_session:
  assumes "session cid key ds 2 sock d" "ssl_record e cid orig resp True 22 data d = Inr d'"
  shows "session cid key (ds \<lparr>ds_client_iv := Some (get_iv_from_handshake data)\<rparr>) 2 sock d'"
  using assms by (auto simp: session_def ssl_record_def ssl_handshake_def client_finished_def Let_def)

lemma dh_values_p: "dh_values ds = Some vs \<Longrightarrow> ds_p ds \<noteq> None"
  by (cases ds rule: dh_values.cases) auto

lemma server_finished_session:
  assumes "session cid key ds 4 sock d" "ssl_record e cid orig resp False 22 data d = Inr d'" "sock \<noteq> - 1" "0 \<le> init_send e"
    and "dh_values (ds \<lparr>ds_server_iv := Some (get_iv_from_handshake data)\<rparr>) = Some vs" "dh_fits vs"
  shows "\<exists>te. te_key_info te = key \<and> actions d' = actions d @ [Bronnect_Init sock (init_record e cid te vs) (init_send e)] \<and>
    session cid key (ds \<lparr>ds_server_iv := Some (get_iv_from_handshake data)\<rparr>) 5 sock d'"
proof -
  obtain te where te: "telex_table d cid = Some te" "te_key_info te = key" "te_dh te = ds" "te_state te = 4" "te_sock te = sock"
    using assms(1) unfolding session_def by blast
  define te1 where "te1 = server_finished data te"
  define d1 where "d1 = d \<lparr>telex_table := (telex_table d)(cid := Some te1)\<rparr>"
  have te1: "te_key_info te1 = key" "te_dh te1 = ds \<lparr>ds_server_iv := Some (get_iv_from_handshake data)\<rparr>" "te_state te1 = 4" "te_sock te1 = sock"
    using te by (simp_all add: te1_def server_finished_def)
  have p: "ds_p (te_dh te1) \<noteq> None" using dh_values_p [OF assms(5)] te1(2) by simp
  have "ssl_handshake e cid orig resp False data d = Inr d'" using assms(2) by (simp add: ssl_record_def)
  then have "and_then (telex_send_init_data e cid te1 d1) (\<lambda>(ret, d).
                    if ret \<noteq> 0 then cleanup_and_unblock_connection e cid d
                    else Inr (mod_te cid (\<lambda>te. te \<lparr>te_state := 5\<rparr>) d)) = Inr d'"
    using te(4) te1(3) unfolding ssl_handshake_def te(1) option.case Let_def by (simp add: te1_def d1_def)
  moreover have "telex_send_init_data e cid te1 d1 = Inr (0, act (Bronnect_Init sock (init_record e cid te1 vs) (init_send e)) d1)"
    using assms(3-6) te1 p unfolding telex_send_init_data_def by simp
  ultimately have d': "d' = mod_te cid (\<lambda>te. te \<lparr>te_state := 5\<rparr>) (act (Bronnect_Init sock (init_record e cid te1 vs) (init_send e)) d1)"
    by simp
  then have "actions d' = actions d @ [Bronnect_Init sock (init_record e cid te1 vs) (init_send e)]"
    by (simp add: mod_te_def act_def d1_def)
  moreover have "session cid key (ds \<lparr>ds_server_iv := Some (get_iv_from_handshake data)\<rparr>) 5 sock d'"
    using te1 by (simp add: d' session_def mod_te_def d1_def)
  ultimately show ?thesis using te1(1) by blast
qed

lemma get_iv:
  assumes "16 \<le> length data" "length data < 2 ^ 31"
  shows "get_iv_from_handshake data = drop (length data - 16) data"
proof -
  let ?n = "word_of_nat (length data) :: count"
  have u: "unat ?n = length data" using assms(2) by (simp add: unsigned_of_nat take_bit_nat_eq_self)
  have u15: "unat (?n - 15) = length data - 15" using assms(1) u by (subst unat_sub) (simp_all add: word_le_nat_alt)
  then have pos: "?n - 15 > 0" using assms(1) by (simp add: word_less_nat_alt)
  have u16: "unat (?n - 15 - 1) = length data - 16" using u15 assms(1) by (subst unat_sub) (simp_all add: word_le_nat_alt)
  have "unat (ucast (?n - 15 - 1) :: u32) = length data - 16"
    using u16 assms(2) by (simp add: unsigned_ucast_eq take_bit_nat_eq_self)
  then have "sint (ucast (?n - 15 - 1) :: u32) = int (length data - 16)"
    using assms(2) by (simp add: sint_uint signed_take_bit_int_eq_self uint_nat)
  then show ?thesis using pos assms by (simp add: get_iv_from_handshake_def sub_bytes_def Let_def nat_diff_distrib)
qed

text \<open>A client has made a hello for a server with \<open>ssl_new_telex\<close>, with the public keys \<open>K\<close> that belong to a private key in the list
  of the station: the two orders of point multiplication agree. No earlier key of the list accepts the hello.\<close>

definition tagged_hello :: "det_config \<Rightarrow> (bytes \<Rightarrow> bytes \<Rightarrow> bytes) \<Rightarrow> u32 \<Rightarrow> u32 \<Rightarrow> u16 \<Rightarrow> telex_crypto \<Rightarrow> bool" where
  "tagged_hello cfg hm server_ip time port c \<longleftrightarrow> (\<exists>m K rand1 seckey privkey c0 ks rest.
     pointmul (det_stack cfg) 0 (pointmul m 0 (tag_gen K rand1) seckey) privkey = pointmul m 1 (tag_pub K rand1) seckey \<and>
     ssl_new_telex (det_SHA256 cfg) hm m K rand1 seckey time True server_ip c0 = Some (0, c) \<and>
     telex_key_list cfg = ks @ (privkey, port) # rest \<and>
     (\<forall>(k, p)\<in>set ks. fst (check_tag (det_SHA256 cfg) (det_stack cfg) [] k (drop 4 (telex_client_random c)) (tag_context server_ip time)) \<noteq> 0))"

lemma hello_key:
  assumes "tagged_hello cfg hm (cid_resp_h cid) time port c" "\<forall>x. length (det_SHA256 cfg x) = 32"
  shows "telex_tag_get_key cfg [] (drop 4 (telex_client_random c)) (telex_get_context (cid_resp_h cid) (sub_bytes (telex_client_random c) 1 4) [0]) =
      Some \<lparr>ki_shared_key = tc_secret c, ki_conn_port = ucast port\<rparr>"
    and "length (telex_client_random c) = 32" "get_ssl_nonce_timestamp (telex_client_random c) = of_nat (unat time)"
    and "length (tc_secret c) = 16" "telex_ssl_get_dh_key hm (tc_secret c) = Some (telex_dh_priv_key c)"
proof -
  obtain m K rand1 seckey privkey c0 ks rest where
    eq: "pointmul (det_stack cfg) 0 (pointmul m 0 (tag_gen K rand1) seckey) privkey = pointmul m 1 (tag_pub K rand1) seckey"
    and new: "ssl_new_telex (det_SHA256 cfg) hm m K rand1 seckey time True (cid_resp_h cid) c0 = Some (0, c)"
    and keys: "telex_key_list cfg = ks @ (privkey, port) # rest"
    and reject: "\<forall>(k, p)\<in>set ks. fst (check_tag (det_SHA256 cfg) (det_stack cfg) [] k (drop 4 (telex_client_random c))
      (tag_context (cid_resp_h cid) time)) \<noteq> 0"
    using assms(1) unfolding tagged_hello_def by blast
  show "length (tc_secret c) = 16" by (rule new_telex_parts(2) [OF new assms(2)])
  show "telex_ssl_get_dh_key hm (tc_secret c) = Some (telex_dh_priv_key c)" using check_new_telex(2) [OF eq new] by simp
  obtain tag where tag: "telex_client_random c = be_bytes 4 time @ tag" "length tag = 28" using new_telex_parts(1) [OF new assms(2)] by blast
  then show "length (telex_client_random c) = 32" by simp
  have "be_word (be_bytes 4 time) = time" by (rule be_word_be_bytes) simp
  then show "get_ssl_nonce_timestamp (telex_client_random c) = of_nat (unat time)" using tag by (simp add: get_ssl_nonce_timestamp_def)
  have ctx: "telex_get_context (cid_resp_h cid) (sub_bytes (telex_client_random c) 1 4) [0] = tag_context (cid_resp_h cid) time"
    using tag by (simp add: sub_bytes_front telex_get_context_def tag_context_def)
  have "try_keys (det_SHA256 cfg) (det_stack cfg) [] (telex_key_list cfg) (drop 4 (telex_client_random c)) (tag_context (cid_resp_h cid) time) =
      Some \<lparr>ki_shared_key = tc_secret c, ki_conn_port = ucast port\<rparr>"
    unfolding keys by (rule try_keys_found [OF reject check_new_telex(1) [OF eq new]])
  then show "telex_tag_get_key cfg [] (drop 4 (telex_client_random c)) (telex_get_context (cid_resp_h cid) (sub_bytes (telex_client_random c) 1 4) [0]) =
      Some \<lparr>ki_shared_key = tc_secret c, ki_conn_port = ucast port\<rparr>"
    unfolding ctx telex_tag_get_key_def using tag by (simp add: PTWIST_TAG_BYTES_def)
qed

definition handshake ::
  "conn_id \<Rightarrow> bytes \<Rightarrow> bytes \<Rightarrow> bytes \<Rightarrow> bytes \<Rightarrow> bytes \<Rightarrow> bytes \<Rightarrow> bytes \<Rightarrow> (nat \<Rightarrow> det_env) \<Rightarrow> (nat \<Rightarrow> (det_env \<times> bro_event) list) \<Rightarrow> endpoint \<Rightarrow> endpoint \<Rightarrow>
    (det_env \<times> bro_event) list" where
  "handshake cid c_random s_random p g pub_key fin_c fin_s e ns orig resp =
     (e 0, Ssl_Conn_Attempt cid (drop 4 c_random) c_random) # ns 0 @
     (e 1, Ssl_Conn_Server_Reply cid s_random) # ns 1 @
     (e 2, Ssl_Server_Key_Exchange cid p g pub_key) # ns 2 @
     (e 3, Ssl_Record cid orig resp True 20 [1]) # ns 3 @
     (e 4, Ssl_Record cid orig resp True 22 fin_c) # ns 4 @
     (e 5, Ssl_Record cid orig resp False 20 [1]) # ns 5 @
     [(e 6, Ssl_Record cid orig resp False 22 fin_s)]"

lemma handshake_announced:
  assumes run: "run cfg (handshake cid c_random s_random p g pub_key fin_c fin_s e ns orig resp) d = Inr d'"
    and hello: "telex_tag_get_key cfg [] (drop 4 c_random) (telex_get_context (cid_resp_h cid) (sub_bytes c_random 1 4) [0]) = Some key"
      "\<bar>get_ssl_nonce_timestamp c_random - current_time (e 0)\<bar> \<le> 60" "telex_table d cid = None"
    and sys: "0 \<le> det_connect (e 0)" "0 \<le> init_send (e 6)"
    and asides: "\<forall>i. \<forall>ev\<in>set (ns i). aside cid ev"
    and vs: "vs = (p, pub_key, c_random, s_random, get_iv_from_handshake fin_c, get_iv_from_handshake fin_s)" "dh_fits vs"
  shows "\<exists>te as. te_key_info te = key \<and> actions d' = as @ [Bronnect_Init (det_socket (e 0)) (init_record (e 6) cid te vs) (init_send (e 6))]"
proof -
  let ?t6 = "[(e 6, Ssl_Record cid orig resp False 22 fin_s)]"
  let ?t5 = "(e 5, Ssl_Record cid orig resp False 20 [1]) # ns 5 @ ?t6"
  let ?t4 = "(e 4, Ssl_Record cid orig resp True 22 fin_c) # ns 4 @ ?t5"
  let ?t3 = "(e 3, Ssl_Record cid orig resp True 20 [1]) # ns 3 @ ?t4"
  let ?t2 = "(e 2, Ssl_Server_Key_Exchange cid p g pub_key) # ns 2 @ ?t3"
  let ?t1 = "(e 1, Ssl_Conn_Server_Reply cid s_random) # ns 1 @ ?t2"
  let ?sock = "det_socket (e 0)"
  let ?ds = "\<lparr>ds_p = None, ds_g = None, ds_pub_key = None, ds_client_random = Some c_random, ds_server_random = None,
        ds_client_iv = None, ds_server_iv = None\<rparr>"
  have ok: "\<forall>ev\<in>set (ns i). aside cid ev" for i using asides by blast
  have "\<exists>d0. ssl_conn_attempt cfg (e 0) cid (drop 4 c_random) c_random d = Inr d0"
    using run unfolding handshake_def by (auto simp: and_then_def split: sum.splits)
  then have pos: "0 \<le> ?sock" using attempt_session [OF _ hello(3,1,2) sys(1)] by blast
  have run0: "run cfg ((e 0, Ssl_Conn_Attempt cid (drop 4 c_random) c_random) # ns 0 @ ?t1) d = Inr d'" using run unfolding handshake_def .
  obtain d1 where d1: "session cid key ?ds 1 ?sock d1" "run cfg ?t1 d1 = Inr d'"
    by (rule session_step [OF run0 _ ok, where st' = 1]) (use attempt_session [OF _ hello(3,1,2) sys(1)] in auto)
  obtain d2 where d2: "session cid key (?ds \<lparr>ds_server_random := Some s_random\<rparr>) 1 ?sock d2" "run cfg ?t2 d2 = Inr d'"
    by (rule session_step [OF d1(2) _ ok, where st' = 1]) (use reply_session [OF d1(1)] in auto)
  obtain d3 where d3: "session cid key (?ds \<lparr>ds_server_random := Some s_random, ds_p := Some p, ds_g := Some g, ds_pub_key := Some pub_key\<rparr>) 1 ?sock d3"
    "run cfg ?t3 d3 = Inr d'"
    by (rule session_step [OF d2(2) _ ok, where st' = 1]) (use exchange_session [OF d2(1)] in auto)
  let ?ds3 = "?ds \<lparr>ds_server_random := Some s_random, ds_p := Some p, ds_g := Some g, ds_pub_key := Some pub_key\<rparr>"
  obtain d4 where d4: "session cid key ?ds3 2 ?sock d4" "run cfg ?t4 d4 = Inr d'"
    by (rule session_step [OF d3(2) _ ok, where st' = 2]) (use client_change_session [OF d3(1)] in auto)
  obtain d5 where d5: "session cid key (?ds3 \<lparr>ds_client_iv := Some (get_iv_from_handshake fin_c)\<rparr>) 2 ?sock d5" "run cfg ?t5 d5 = Inr d'"
    by (rule session_step [OF d4(2) _ ok, where st' = 2]) (use client_finished_session [OF d4(1)] in auto)
  obtain d6 where d6: "session cid key (?ds3 \<lparr>ds_client_iv := Some (get_iv_from_handshake fin_c)\<rparr>) 4 ?sock d6" "run cfg ?t6 d6 = Inr d'"
    by (rule session_step [OF d5(2) _ ok, where st' = 4]) (use server_change_session [OF d5(1)] in auto)
  have "ssl_record (e 6) cid orig resp False 22 fin_s d6 = Inr d'" using d6(2) by (simp add: and_then_def split: sum.splits)
  from server_finished_session [OF d6(1) this _ sys(2) _ vs(2)] show ?thesis using pos vs(1) by auto
qed

lemma over_full: "length s = n \<Longrightarrow> over s n old = s"
  by (simp add: over_def)

text \<open>The record that ends the handshake of a tagged connection.\<close>

lemma handshake_record:
  assumes "tagged_hello cfg hm (cid_resp_h cid) time port c" "\<forall>x. length (det_SHA256 cfg x) = 32"
    and "telex_table d cid = None" "\<bar>of_nat (unat time) - current_time (e 0)\<bar> \<le> 60" "0 \<le> det_connect (e 0)" "0 \<le> init_send (e 6)"
    and "\<forall>i. \<forall>ev\<in>set (ns i). aside cid ev"
    and "length p \<le> 128" "length pub_key \<le> 128" "length s_random = 32" "length fin_c \<in> {16..<2 ^ 31}" "length fin_s \<in> {16..<2 ^ 31}"
    and "run cfg (handshake cid (telex_client_random c) s_random p g pub_key fin_c fin_s e ns orig resp) d = Inr d'"
  shows "\<exists>as data. actions d' = as @ [Bronnect_Init (det_socket (e 0)) data (init_send (e 6))] \<and> shared_secret data = tc_secret c \<and>
    init_port data = port \<and> dh data = \<lparr>dh_p = p, dh_pub_key = pub_key, dh_client_random = telex_client_random c, dh_server_random = s_random,
      dh_client_iv = drop (length fin_c - 16) fin_c, dh_server_iv = drop (length fin_s - 16) fin_s\<rparr> \<and>
    unblock_request (init_flow data) = flow_of cid"
proof -
  note hello = hello_key [OF assms(1,2)]
  let ?vs = "(p, pub_key, telex_client_random c, s_random, get_iv_from_handshake fin_c, get_iv_from_handshake fin_s)"
  have iv: "get_iv_from_handshake fin_c = drop (length fin_c - 16) fin_c" "get_iv_from_handshake fin_s = drop (length fin_s - 16) fin_s"
    using assms(11,12) by (auto intro!: get_iv)
  have "dh_fits ?vs" using assms(8-12) hello(2) by (simp add: iv)
  then obtain te as where te: "te_key_info te = \<lparr>ki_shared_key = tc_secret c, ki_conn_port = ucast port\<rparr>"
    "actions d' = as @ [Bronnect_Init (det_socket (e 0)) (init_record (e 6) cid te ?vs) (init_send (e 6))]"
    using handshake_announced [OF assms(13) hello(1) _ assms(3,5,6,7) refl] hello(3) assms(4) by auto
  have "length (tc_secret c) = 16" by (rule hello(4))
  moreover have "ucast (ucast port :: count) = port" by (rule bit_word_eqI) (auto simp: bit_simps)
  ultimately show ?thesis using te(2) assms(10-12) hello(2) iv init_record_flow [of "e 6" cid te ?vs]
    by (intro exI [of _ as] exI [of _ "init_record (e 6) cid te ?vs"]) (simp add: init_record_def Let_def te(1) over_full)
qed

section \<open>Where the script goes wrong\<close>

text \<open>An alert of the client ends the connection in the table, and its flow stays blocked.\<close>

lemma alert_leaves_blocked:
  assumes "telex_table d cid = Some te" "flow_of cid \<in> blocked_flows (actions d)"
  shows "telex_table (ssl_conn_alert cid True d) cid = None \<and> flow_of cid \<in> blocked_flows (actions (ssl_conn_alert cid True d))"
  using assms by (simp add: ssl_conn_alert_def Detector.cleanup_connection_def cleanup_telex_obj_def act_def Let_def)

text \<open>So does a raw packet that cannot be delivered: the result of the call is not used.\<close>

lemma undelivered_leaves_blocked:
  assumes "telex_table d cid = Some te" "te_state te = 5" "te_do_fwd te" "network_time e > te_fwd_time te" "te_sock te \<noteq> - 1"
    and "sendall (raw_sends e) (raw_record raw) = Some (- 1, out)" "new_packet_final e cid raw d = Inr d'"
    and "flow_of cid \<in> blocked_flows (actions d)"
  shows "telex_table d' cid = None \<and> flow_of cid \<in> blocked_flows (actions d')"
proof -
  define d2 where "d2 = mod_te cid (\<lambda>te. te \<lparr>te_state := 6\<rparr>)
        (act (Bronnect_Raw (te_sock te) out) (mod_te cid (\<lambda>te. te \<lparr>te_do_fwd := False\<rparr>) d))"
  have "and_then (telex_send_rst e cid te d2) (\<lambda>d. Inr (Detector.cleanup_connection cid te d)) = Inr d'"
    using assms(1-7) by (simp add: new_packet_final_def telex_send_bronnect_raw_pkt_def Let_def d2_def)
  then obtain d3 where d3: "telex_send_rst e cid te d2 = Inr d3" "d' = Detector.cleanup_connection cid te d3"
    by (cases "telex_send_rst e cid te d2") auto
  with rst_forges obtain pkts where "d' = Detector.cleanup_connection cid te (act (Forged pkts) d2)" by blast
  then have "telex_table d' cid = None" "actions d' = actions d @ [Bronnect_Raw (te_sock te) out, Forged pkts, Close (te_sock te)]"
    by (simp_all add: d2_def Detector.cleanup_connection_def cleanup_telex_obj_def act_def mod_te_def Let_def)
  then show ?thesis using assms(8) by (simp add: blocked_flows_append)
qed

text \<open>A handshake record of the client after the server has changed its cipher and before its finished message makes the analyser
  read a value that is not set.\<close>

lemma early_record_crash:
  assumes "session cid key ds 4 sock d" "sock \<noteq> - 1" "ds_p ds \<noteq> None" "ds_server_iv ds = None"
  shows "ssl_record e cid orig resp True 22 data d = Inl Det_Null"
proof -
  obtain te where te: "telex_table d cid = Some te" "te_dh te = ds" "te_state te = 4" "te_sock te = sock"
    using assms(1) unfolding session_def by blast
  have none: "dh_values (ds \<lparr>ds_client_iv := iv\<rparr>) = None" for iv
    using assms(4) by (cases ds) (auto elim: dh_values.elims)
  show ?thesis using te assms(2,3) none
    by (auto simp: ssl_record_def ssl_handshake_def client_finished_def telex_send_init_data_def Let_def)
qed

section \<open>The key file\<close>

definition key_file :: "(bytes \<times> u16) list \<Rightarrow> bytes" where
  "key_file ks = le_bytes 2 (word_of_nat (length ks) :: u16) @ concat (map (\<lambda>(k, p). k @ le_bytes 2 p) ks)"

lemma length_entries:
  assumes "\<forall>(k, p)\<in>set ks. length k = PTWIST_BYTES"
  shows "length (concat (map (\<lambda>(k, p). k @ le_bytes 2 p) ks)) = 23 * length ks"
  using assms by (induction ks) (auto simp: PTWIST_BYTES_def)

lemma key_entry_0: "length k = PTWIST_BYTES \<Longrightarrow> key_entry (k @ le_bytes 2 p @ rest) 0 = (k, p)"
  using le_word_le_bytes [of 2 p] by (simp add: key_entry_def)

lemma key_entry_Suc: "length k = PTWIST_BYTES \<Longrightarrow> key_entry (k @ le_bytes 2 (p :: u16) @ rest) (Suc i) = key_entry rest i"
  by (simp add: key_entry_def PTWIST_BYTES_def add.commute)

lemma key_entries:
  assumes "\<forall>(k, p)\<in>set ks. length k = PTWIST_BYTES" "i < length ks"
  shows "key_entry (concat (map (\<lambda>(k, p). k @ le_bytes 2 p) ks) @ rest) i = ks ! i"
  using assms
proof (induction ks arbitrary: i)
  case (Cons kp ks)
  then show ?case by (cases kp; cases i) (auto simp: key_entry_0 key_entry_Suc)
qed simp

text \<open>C33: the station loads the keys that a key file holds. For a file with the number of keys in front and, for every key, 21 bytes and
  the port, \<open>telex_init\<close> sets the list of keys to the keys and ports of the file, whatever memory held before, and whatever follows in the
  file.\<close>

theorem key_file_roundtrip:
  assumes "\<forall>(k, p)\<in>set ks. length k = PTWIST_BYTES" "0 < length ks" "length ks < 2 ^ 16" "0 \<le> blocker"
  shows "Detector.telex_init (Some (key_file ks @ extra)) junk blocker cfg = Inr (cfg \<lparr>telex_key_list := ks\<rparr>)"
proof -
  let ?body = "concat (map (\<lambda>(k, p). k @ le_bytes 2 p) ks)"
  have "(le_word (le_bytes 2 (word_of_nat (length ks) :: u16)) :: u16) = word_of_nat (length ks)" by (rule le_word_le_bytes) simp
  then have num: "unat (le_word (take 2 (key_file ks @ extra)) :: u16) = length ks"
    using assms(3) by (simp add: key_file_def unsigned_of_nat take_bit_nat_eq_self)
  have read: "take (23 * length ks) (drop 2 (key_file ks @ extra)) = ?body"
    using length_entries [OF assms(1)] by (simp add: key_file_def)
  have "map (key_entry (?body @ rest)) [0..<length ks] = ks" for rest
    using key_entries [OF assms(1)] by (intro nth_equalityI) auto
  then show ?thesis
    using assms(2,4) length_entries [OF assms(1)] unfolding Detector.telex_init_def option.case Let_def num read
    by (simp add: key_file_def)
qed

theorem key_file_roundtrip_witness:
  "Detector.telex_init (Some (key_file [(replicate 21 7, 80), (replicate 21 9, 443)] @ [1])) [] 3
     \<lparr>det_SHA256 = \<lambda>x. [], det_stack = \<lambda>i. (0, (0, 0, 0)), telex_key_list = [], bronnect_socket = []\<rparr> =
   Inr \<lparr>det_SHA256 = \<lambda>x. [], det_stack = \<lambda>i. (0, (0, 0, 0)), telex_key_list = [(replicate 21 7, 80), (replicate 21 9, 443)], bronnect_socket = []\<rparr>"
  by (subst key_file_roundtrip) (simp_all add: PTWIST_BYTES_def)

text \<open>A file that is cut short after its first key is accepted, and the other keys are what memory held.\<close>

lemma short_key_file:
  assumes "length k = PTWIST_BYTES" "0 \<le> blocker"
  shows "Detector.telex_init (Some ([2, 0] @ k @ le_bytes 2 (p :: u16))) junk blocker cfg =
    Inr (cfg \<lparr>telex_key_list := [(k, p), key_entry junk 1]\<rparr>)"
proof -
  have n: "unat (le_word [2, 0] :: u16) = 2" by (simp add: le_word_def)
  have "[0..<2] = [0, Suc 0]" by (simp add: upt_rec)
  moreover have "key_entry (k @ le_bytes 2 p @ drop 23 junk) (Suc 0) = key_entry junk 1"
    using assms(1) by (simp add: key_entry_Suc) (simp add: key_entry_def add.commute)
  ultimately show ?thesis using assms by (simp add: Detector.telex_init_def n key_entry_0 PTWIST_BYTES_def)
qed

end
