(* ===== verification/Spec2Isabelle.thy ===== *)
theory Spec2Isabelle
  imports Bronnect_Props Forge_Module Telex_Server Httpd_Props Station_Ctx Detector_Handshake
begin

text \<open>
  A verification library for Telex, an anticensorship system whose stations sit at routers of the network.

  \<^bold>\<open>The program.\<close> A client opens an ordinary TLS connection to some web site that is not blocked. In the 28 bytes after the time in the
  client random of its hello it hides a tag: the abscissa of a multiple of a generator, on a curve or on its twist, and a part of a
  hash. Only the holder of the private key can tell a tag from random bytes. Both ends derive from the point a secret, and the client
  uses that secret as the seed of its Diffie-Hellman exponent, so that a station on the path can compute the key of the session. A
  station has these parts:

  \<^item> the \<^emph>\<open>detector\<close>, functions and a script inside the traffic analyser Bro. It checks the client random of every hello, has
    the flow of a tagged connection blocked at the router, forwards its packets itself while it follows the handshake, and then hands the flow
    with all that it has learnt to the connection manager;
  \<^item> the \<^emph>\<open>flow blocker\<close> on the router, which adds flows to a set of the kernel, removes them on request and after a time-out;
  \<^item> the \<^emph>\<open>connection manager\<close> \<open>bronnect\<close>, which connects to a service, has the kernel make a socket that continues the TCP connection of
    the server, makes an SSL object that continues its TLS session, and relays until one side ends or a watchdog expires;
  \<^item> the \<^emph>\<open>kernel patch\<close> that forges the socket, and an older \<^emph>\<open>kernel module\<close> for the same purpose;
  \<^item> the \<^emph>\<open>status server\<close>, which logs the use of the station and draws charts from the log.

  \<^bold>\<open>Theories\<close>, in the order of their imports. A definition has the name of the function, structure or constant that it models, with a
  suffix where the name is taken; a long function is split into the parts between its labels, loops or early returns.

  \<^descr> Machine words, byte orders, congruence, and the locale \<open>invariant_system\<close> of transition systems with an inductive invariant:
    \<open>Prelude\<close>.
  \<^descr> \<open>src/telex-station/station/tag/ptwist168.c\<close>: \<open>Felem\<close> (the field operations on 64 and 128 bit words), \<open>Felem_Props\<close> (canonical form,
    encoding, inversion, square root), \<open>Curve\<close> (Jacobian points, windowed multiplication with the locale \<open>addition_chain\<close>,
    \<open>ptwist_pointmul\<close>), \<open>Primes\<close> (the modulus is prime), \<open>Affine\<close> (the chord and tangent law as abstract specification, and the refinement
    of the point arithmetic to it).
  \<^descr> \<open>src/telex-station/station/tag/{tag,genkeys,rclient,rserv}.c\<close>: \<open>Tag\<close>.
  \<^descr> \<open>src/telex-station/common/telex_tcp.c\<close>: \<open>Tcp_Forge\<close>, forged and forwarded packets.
  \<^descr> \<open>telex_util.c\<close>, \<open>telex_block_flow.c\<close>, \<open>libaddipportip.c\<close>, \<open>telex_ipset.c\<close> and \<open>flow_blocker.c\<close> below \<open>src/telex-station\<close>:
    \<open>Flow_Blocker\<close>. The state is the record \<open>blocker\<close> of open connections, timers and commands given to the kernel.
  \<^descr> \<open>src/telex-station/station/net/ssl_api.c\<close>: \<open>Ssl_Api\<close>, key derivation and SSL objects.
  \<^descr> \<open>src/telex-station/station/net/{bronnect,watchdog}.c\<close>: \<open>Bronnect\<close> and \<open>Bronnect_Props\<close>. The state is a heap of \<open>ConnectionState\<close>
    records with the hash table, the open descriptors and the requests sent to the flow blocker.
  \<^descr> \<open>src/telex-station/station/linuxmod/tcp_sk_forge.c\<close>: \<open>Sk_Forge\<close>; the socket is the nest of records of the kernel's structures.
  \<^descr> \<open>src/old-telex-station-backup/linuxmod/module/forge_socket.c\<close>: \<open>Forge_Module\<close>, on the same records.
  \<^descr> \<open>src/old-telex-station-backup/telex-server\<close>: \<open>Telex_Server\<close>, a front end for a web server that is a station of its own. Its relay is the
    code of the client's, and so are its definitions.
  \<^descr> \<open>src/telex-station/station/net/httpd.c\<close>: \<open>Httpd\<close> and \<open>Httpd_Props\<close>; \<open>net/common.c\<close> and \<open>src/telex-station/common/client.c\<close>:
    \<open>Station_Ctx\<close>.
  \<^descr> \<open>src/telex-station/station/bro-1.5.1/src/bro.bif\<close> from line 3220 and \<open>src/telex-station/station/brohome/site/telex-ssl.bro\<close>: \<open>Detector\<close>,
    \<open>Detector_Props\<close> and \<open>Detector_Handshake\<close>. The state is the table of the script, the sockets and the list of actions.
  \<^descr> \<open>src/telex-client\<close>: \<open>Client_Ssl\<close> (\<open>ssl.c\<close>), \<open>Client_Log\<close> (\<open>logger.c\<close>, \<open>util.c\<close>) and \<open>Client_Proxy\<close> (\<open>proxy.c\<close>, \<open>listener.c\<close>,
    \<open>client.c\<close>).

  \<^bold>\<open>What is shown.\<close>

  \<^item> Field and curve. Every field operation is exact modulo \<open>2^168 - 2^8 - 1\<close> without wrap-around on partially reduced elements, and
    keeps elements so. The point operations refine the affine law, with the one exception of \<open>point_add\<close> and the restriction of \<open>point_mul\<close>
    that the statements name; \<open>ptwist_pointmul\<close> works on the curve or the twist as the abscissa demands.
  \<^item> Tags. A generated tag is accepted with the same key, and the files of the tools are read back; the exponent that the station
    derives is the client's.
  \<^item> Packets and flows. Checksums and sequence numbers of forged packets; a request that is encoded, sent and decoded has the effect of the
    command itself; every blocked flow has a pending timer.
  \<^item> Detector. Its handlers refine the abstract protocol \<open>det_step\<close>; a blocked flow is in the table or has been handed over; the record sent
    for a flow has the values of its handshake, whatever the other flows do meanwhile.
  \<^item> Connection manager. The handlers never fail, as long as the environment behaves as \<open>bron_env_ok\<close> says; the cases outside of it are
    shown to fail. Ending a connection closes its descriptors and unblocks its flow.
  \<^item> Kernel. The forged socket has the numbers of the flow, and the system call balances its resources but for the lock. The module makes the same
    socket, and reads back what it has set.
  \<^item> Client and Telex server. Tunnels relay without loss or reordering, and the counters are exact. The server chooses the service by the tag.
  \<^item> Status server. The logged record is that of a reference definition; the charts read it back.
  \<^item> This theory composes them: from the hello of a client to the SSL object of the station with the key of the session, and from the request
    that blocks a flow to the one that frees it.

  \<^bold>\<open>State machines.\<close> The event loops are step relations: \<open>blocker_step\<close>, \<open>bron_step\<close>, \<open>client_step\<close>, \<open>server_step\<close>, and \<open>det_next\<close> with the
  abstract \<open>det_step\<close>. Events come in any order; a step runs one whole handler, as the programs have one thread. Each relation interprets
  \<open>invariant_system\<close>, and the statements about reachable states are its lemmas.

  \<^bold>\<open>Parameters.\<close> OpenSSL, HMAC and SHA-256, libevent, the ipset library, the functions of Linux, the clock, random bytes and the results of system
  calls are arguments of the definitions, mostly gathered in a record per component (\<open>openssl\<close>, \<open>ipset_env\<close>, \<open>bron_env\<close>, \<open>det_env\<close>,
  \<open>kernel\<close>). What a statement needs of them is a named hypothesis: \<open>tls1_contract\<close> (the master key is a function of the secret and the two random
  values), \<open>ipset_ok\<close> (commands succeed), \<open>bron_env_ok\<close>, \<open>kernel_ok\<close> and \<open>module_ok\<close> (what the
  functions of Linux leave alone), the length of a digest, the commutation of the two multiplications of a
  Diffie-Hellman exchange. Failed assertions, null pointers, freed memory, exits and errors are results of the definitions.

  \<^bold>\<open>Loops.\<close> Loops over data are recursive and terminate by a measure. A loop that may wait for ever is given the list of the results of its
  system calls (\<open>sendall\<close>, the attempts of \<open>telex_mod_block\<close>), and an exhausted list is \<open>None\<close> or a
  fault; the statements say when it returns. The reader of the log (\<open>httpd.c\<close>) does not end on a malformed file, so it has fuel; one unit more
  than the number of records is shown to be enough for a file of log records.

  \<^bold>\<open>Not modelled.\<close> Bro 1.5.1, ipset 6.0 and the files of OpenSSL are the work of others and by far the most of the repository; they are
  present through the functions called or the events raised. Functions that only print have no definition. \<open>src/old-telex-station-backup\<close>
  and \<open>src/tag\<close> hold earlier versions of the programs above; of them the kernel module and the Telex
  server, which have no later version, are modelled. Its other programs that have no later version are \<open>ifcp.c\<close> (copies packets between network
  interfaces), the test programs of the kernel parts and of the client, and the load generator \<open>eval/ab.c\<close>, which comes from Apache. Its
  client \<open>telex_tunnel.c\<close> is replaced by \<open>src/telex-client/proxy.c\<close>. Shell and Python scripts and the configuration of the router are not
  modelled.
\<close>

section \<open>Properties that span components\<close>

text \<open>Once the exponent is known, \<open>leak_key\<close> installs an SSL object for the leaked session.\<close>

lemma leak_key_installs:
  assumes "tls1_contract (ossl e) prf" "telex_ssl_get_dh_key (hmac e) (shared_secret (init_data e)) = Some x"
    and "telex_get_shared_secret (dh_new e) (dh_compute e) x (be_val (dh_p (dh (init_data e)))) (be_val (dh_pub_key (dh (init_data e)))) =
      (int (length premaster), premaster)"
    and "leak_key e q w = Inr w'"
  shows "\<exists>s. ssl (heap w' q) = Some s \<and> ssl_type s = SSL_ST_ACCEPT \<and>
    master_key s = prf premaster (take 32 (dh_client_random (dh (init_data e)))) (take 32 (dh_server_random (dh (init_data e)))) \<and>
    read_sequence (s3 s) = [0, 0, 0, 0, 0, 0, 0, 1] \<and> write_sequence (s3 s) = [0, 0, 0, 0, 0, 0, 0, 1] \<and>
    enc_read_iv s = take 16 (dh_client_iv (dh (init_data e))) \<and> enc_write_iv s = take 16 (dh_server_iv (dh (init_data e)))"
proof -
  obtain s where s: "leaked_ssl e premaster = Inr s" "w' = pet_watchdog e q (upd q (\<lambda>st. st \<lparr>ssl := Some s\<rparr>) w)"
    using assms(2-4) by (auto simp: leak_key_def and_then_def split: sum.splits)
  obtain s0 wiped where l: "get_live_ssl_obj (ossl e) premaster (dh_client_random (dh (init_data e))) (dh_server_random (dh (init_data e))) 1 = Live s0 wiped"
    "s = s0 \<lparr>enc_read_iv := take 16 (dh_client_iv (dh (init_data e))), enc_write_iv := take 16 (dh_server_iv (dh (init_data e)))\<rparr>"
    using s(1) by (auto simp: leaked_ssl_def split: live.splits)
  obtain t where t: "switch_to_telex_crypto (ossl e) t premaster 1 = Live s0 wiped"
    "client_random (s3 t) = take 32 (dh_client_random (dh (init_data e)))" "server_random (s3 t) = take 32 (dh_server_random (dh (init_data e)))"
    by (rule get_live_switch [OF l(1)])
  have "ssl (heap w' q) = Some s" by (simp add: s(2) pet_watchdog_def Let_def upd_def)
  then show ?thesis using switch_live [OF assms(1) t(1)] t(2,3) l(2) by simp
qed


definition join_env :: "bro_init_data \<Rightarrow> bron_env" where
  "join_env data = bron_env_0 \<lparr>init_data := data, dh_compute := \<lambda>p x y. Some [word_of_int (y ^ nat x mod p)]\<rparr>"

definition fin_0 :: bytes where "fin_0 = replicate 48 7"

definition ep_0 :: endpoint where
  "ep_0 = \<lparr>ep_last_seq = 100, ep_last_window = 8192, ep_last_window_scale = 2, ep_last_IP_ID = 7, ep_last_TTL = 64\<rparr>"

lemma handshake_0:
  assumes "telex_tag_get_key (det_cfg_0 k) [] (drop 4 c_random) (telex_get_context (cid_resp_h cid_0) (sub_bytes c_random 1 4) [0]) = Some key"
    and "get_ssl_nonce_timestamp c_random = 1000" "length c_random = 32"
  shows "\<exists>d data. run (det_cfg_0 k) (handshake cid_0 c_random (replicate 32 1) [23] [2] [8] fin_0 fin_0 (\<lambda>i. det_env_0) (\<lambda>i. []) orig resp) det_0 = Inr d \<and>
    last (actions d) = Bronnect_Init 5 data (hdr_size + int init_size)"
proof -
  have iv: "length (get_iv_from_handshake fin_0) = 16" by (simp add: get_iv fin_0_def)
  have s: "init_send det_env_0 = hdr_size + int init_size" "\<not> hdr_size + int init_size < 0" by (simp_all add: det_env_0_def hdr_size_def)
  show ?thesis
    using attempt_0 [OF assms(1,2), of det_0] assms(3) iv s
    by (simp add: handshake_def det_0_def ssl_conn_server_reply_def ssl_server_key_exchange_def ssl_record_def ssl_change_cipher_def ssl_handshake_def
        mod_te_def new_telex_info_def client_finished_def server_finished_def telex_send_init_data_def act_def)
qed



definition ipset_env_0 :: ipset_env where
  "ipset_env_0 = \<lparr>parse_setname = 0, type_found = True, parse_elem = 0, cmd_result = 0, has_warning = False, quiet = False, has_error = False\<rparr>"

definition blocker_with :: "ipset_cmd list \<Rightarrow> blocker" where
  "blocker_with cmds = \<lparr>conns = {4}, timers = [], log = cmds, exited = False\<rparr>"


end
